(* ===== verification/Prelude.thy ===== *)
theory Prelude
  imports Complex_Main "HOL-Library.List_Lexorder" "HOL-Library.Product_Lexorder"
    "HOL-Library.Multiset"
begin

text \<open>
  Shared vocabulary of the model of \<open>src/wine_analysis.py\<close>.
  Python \<open>str\<close> values are lists of Unicode code points (\<open>ustr\<close>), so that the euro
  sign U+20AC that the cleaner removes is one character, as in Python; Python compares
  strings by code point, which is the lexicographic order of \<open>HOL-Library.List_Lexorder\<close>.
  A cell of an object column of the pandas data frame is a \<open>cell\<close>: \<open>Some s\<close> for a
  string, \<open>None\<close> for a missing value (NaN). Errors the program can raise are values
  of \<open>py_error\<close>; a fallible operation returns \<open>py_error + 'a\<close>.
  The theory also holds the list and option lemmas the component theories share.
\<close>

type_synonym ustr = "nat list"

type_synonym cell = "ustr option"

named_theorems agg_simps "evaluation rules of the aggregations, for witnesses"

datatype py_error =
    ValueError ustr
  | AttributeError ustr
  | FileNotFoundError ustr
  | TypeError ustr
  | IndexError ustr
  | KeyError ustr
  | ParserError ustr
  | EmptyDataError ustr

definition py_str :: "string \<Rightarrow> ustr" where
  "py_str s = map of_char s"

text \<open>
  \<open>present xs\<close> is what pandas keeps of a column when it skips missing values
  (\<open>Series.dropna()\<close>, and the NaN-skipping of \<open>value_counts\<close>, \<open>groupby\<close> and
  \<open>mean\<close>).
\<close>

primrec present :: "'a option list \<Rightarrow> 'a list" where
  "present [] = []"
| "present (x # xs) = (case x of None \<Rightarrow> present xs | Some y \<Rightarrow> y # present xs)"

text \<open>
  Applying a fallible function to every element, stopping at the first failure: the
  element-wise conversions of pandas (\<open>astype\<close>) raise the first error they meet.
\<close>

fun map_result :: "('a \<Rightarrow> 'e + 'b) \<Rightarrow> 'a list \<Rightarrow> 'e + 'b list" where
  "map_result f [] = Inr []"
| "map_result f (x # xs) =
     (case f x of
        Inl e \<Rightarrow> Inl e
      | Inr y \<Rightarrow> (case map_result f xs of Inl e \<Rightarrow> Inl e | Inr ys \<Rightarrow> Inr (y # ys)))"

subsection \<open>Lemmas on \<open>present\<close>\<close>

lemma present_append [simp]: "present (xs @ ys) = present xs @ present ys"
  by (induction xs) (auto split: option.split)

lemma set_present [simp]: "set (present xs) = {y. Some y \<in> set xs}"
  by (induction xs) (auto split: option.split)

lemma length_present_le: "length (present xs) \<le> length xs"
  by (induction xs) (auto split: option.split)

lemma present_map_Some [simp]: "present (map Some xs) = xs"
  by (induction xs) auto

lemma present_map_Some_comp [simp]: "present (map (\<lambda>x. Some (f x)) xs) = map f xs"
  by (induction xs) auto

lemma present_eq_Nil_iff: "present xs = [] \<longleftrightarrow> (\<forall>x\<in>set xs. x = None)"
  by (induction xs) (auto split: option.split)

lemma present_map_option: "present (map (map_option f) xs) = map f (present xs)"
  by (induction xs) (auto split: option.split)

lemma length_present_filter: "length (present xs) = length (filter (\<lambda>x. x \<noteq> None) xs)"
  by (induction xs) (auto split: option.split)

lemma sum_count_list_distinct:
  assumes "distinct rs" and "set xs \<subseteq> set rs"
  shows "sum_list (map (count_list xs) rs) = length xs"
proof -
  have "sum_list (map (count_list xs) rs) = sum (count_list xs) (set rs)"
    using assms(1) by (simp add: sum_list_distinct_conv_sum_set)
  also have "\<dots> = length xs"
    using assms(2) by (simp add: sum_count_set)
  finally show ?thesis .
qed

subsection \<open>Lemmas on \<open>map_result\<close>\<close>

lemma map_result_Inr_iff:
  "map_result f xs = Inr ys \<longleftrightarrow> list_all2 (\<lambda>x y. f x = Inr y) xs ys"
proof (induction xs arbitrary: ys)
  case Nil
  then show ?case by auto
next
  case (Cons x xs)
  show ?case
    by (cases ys) (auto split: sum.split simp flip: Cons.IH)
qed

lemma map_result_length: "map_result f xs = Inr ys \<Longrightarrow> length ys = length xs"
  by (auto simp: map_result_Inr_iff dest: list_all2_lengthD)

lemma map_result_Inl_iff:
  "(\<exists>e. map_result f xs = Inl e) \<longleftrightarrow> (\<exists>x\<in>set xs. \<exists>e. f x = Inl e)"
  by (induction xs) (auto split: sum.split)

lemma map_result_map: "map_result (\<lambda>x. Inr (g x)) xs = Inr (map g xs)"
  by (induction xs) auto


lemma map_result_InlD: "map_result f xs = Inl e \<Longrightarrow> \<exists>x\<in>set xs. f x = Inl e"
  by (induction xs) (auto split: sum.splits)

lemma list_all_takeWhile [simp]: "list_all P (takeWhile P xs)"
  by (induction xs) auto


lemma split_first_not:
  assumes "\<not> list_all P xs"
  obtains ws c rest where "xs = ws @ c # rest" and "list_all P ws" and "\<not> P c"
  using assms
proof (induction xs arbitrary: thesis)
  case Nil
  then show ?case by simp
next
  case (Cons a xs)
  show ?case
  proof (cases "P a")
    case True
    then obtain ws c rest where "xs = ws @ c # rest" "list_all P ws" "\<not> P c"
      using Cons.IH Cons.prems(2) by auto
    then show ?thesis using True by (intro Cons.prems(1) [of "a # ws" c rest]) simp_all
  next
    case False
    then show ?thesis by (intro Cons.prems(1) [of "[]" a xs]) simp_all
  qed
qed

end
