(* ===== verification/Cleaner.thy ===== *)
theory Cleaner
  imports Prelude
begin

text \<open>
  The cleaning stage of \<open>src/wine_analysis.py\<close> (lines 19--24): the \<open>Ticket\<close> column is
  turned from euro-formatted text into floats by
  \<open>.str.replace(EURO, '').str.replace(',', '.').str.strip().astype(float)\<close> (EURO the euro sign U+20AC), and each
  of the seven categorical columns is whitespace-stripped with \<open>.str.strip()\<close>.
  The Python string operations used are modelled from their library semantics:
  \<open>str.replace\<close> (\<open>py_replace\<close>), \<open>str.strip\<close> (\<open>py_strip\<close>, with the whitespace of
  \<open>str.isspace\<close>) and the grammar of \<open>float()\<close> (\<open>parse_float\<close>), whose value is kept
  as the exact rational the decimal literal denotes.
  The data frame is columnar as in pandas: a \<open>raw_frame\<close> holds the fields
  \<open>read_csv\<close> delivers (the ticket column and the seven text columns, each a list of
  cells), and a \<open>frame\<close> is the result of the ticket conversion, with the ticket column
  of floats. The column typing of \<open>read_csv\<close> (\<open>str_column_ok\<close>) decides whether the
  \<open>.str\<close> accessor raises \<open>AttributeError\<close>.
\<close>

subsection \<open>Python string primitives\<close>

text \<open>\<open>str.isspace\<close> of one code point: the characters of Unicode bidirectional class
  WS, B or S, or of category Zs.\<close>

definition py_isspace :: "nat \<Rightarrow> bool" where
  "py_isspace c \<longleftrightarrow>
     (9 \<le> c \<and> c \<le> 13) \<or> (28 \<le> c \<and> c \<le> 32) \<or> c = 133 \<or> c = 160 \<or> c = 5760 \<or>
     (8192 \<le> c \<and> c \<le> 8202) \<or> c = 8232 \<or> c = 8233 \<or> c = 8239 \<or> c = 8287 \<or> c = 12288"

definition py_strip :: "ustr \<Rightarrow> ustr" where
  "py_strip s = rev (dropWhile py_isspace (rev (dropWhile py_isspace s)))"

text \<open>
  \<open>str.replace(old, new)\<close>: left-to-right, non-overlapping replacement of every
  occurrence; an empty \<open>old\<close> inserts \<open>new\<close> before every character and at the end.
\<close>

function py_replace :: "ustr \<Rightarrow> ustr \<Rightarrow> ustr \<Rightarrow> ustr" where
  "py_replace old new s =
     (if old = [] then new @ concat (map (\<lambda>c. c # new) s)
      else (case s of
              [] \<Rightarrow> []
            | c # s' \<Rightarrow>
                if take (length old) s = old
                then new @ py_replace old new (drop (length old) s)
                else c # py_replace old new s'))"
  by pat_completeness auto
termination
  by (relation "measure (\<lambda>(old, new, s). length s)") auto

declare py_replace.simps [simp del]

subsection \<open>The grammar of Python's \<open>float()\<close>\<close>

text \<open>
  \<open>float()\<close> accepts, after stripping whitespace, an optional sign, a mantissa
  \<open>digitpart [. [digitpart]]\<close> or \<open>. digitpart\<close>, and an optional exponent
  \<open>(e|E) [sign] digitpart\<close>, where a \<open>digitpart\<close> is ASCII digits with single
  underscores between digits. The parser returns the parsed pieces and the rest of the
  input, in the style of a combinator parser; \<open>parse_float\<close> succeeds only when
  nothing is left.
\<close>

definition is_digit :: "nat \<Rightarrow> bool" where
  "is_digit c \<longleftrightarrow> 48 \<le> c \<and> c \<le> 57"

fun digit_run :: "ustr \<Rightarrow> nat list \<times> ustr" where
  "digit_run [] = ([], [])"
| "digit_run (c # s) =
     (if is_digit c then (case digit_run s of (ds, r) \<Rightarrow> ((c - 48) # ds, r))
      else if c = 95 then
        (case s of
           [] \<Rightarrow> ([], c # s)
         | d # s' \<Rightarrow>
             if is_digit d then (case digit_run s' of (ds, r) \<Rightarrow> ((d - 48) # ds, r))
             else ([], c # s))
      else ([], c # s))"

definition digitpart :: "ustr \<Rightarrow> (nat list \<times> ustr) option" where
  "digitpart s = (case s of [] \<Rightarrow> None | c # _ \<Rightarrow> if is_digit c then Some (digit_run s) else None)"

definition digits_val :: "nat list \<Rightarrow> nat" where
  "digits_val ds = foldl (\<lambda>a d. 10 * a + d) 0 ds"

definition parse_sign :: "ustr \<Rightarrow> int \<times> ustr" where
  "parse_sign s =
     (case s of
        [] \<Rightarrow> (1, [])
      | c # r \<Rightarrow> if c = 43 then (1, r) else if c = 45 then (-1, r) else (1, s))"

definition parse_mantissa :: "ustr \<Rightarrow> (nat list \<times> nat list \<times> ustr) option" where
  "parse_mantissa s =
     (case digitpart s of
        Some (ip, r) \<Rightarrow>
          (case r of
             [] \<Rightarrow> Some (ip, [], [])
           | c # r' \<Rightarrow>
               if c = 46 then
                 (case digitpart r' of
                    Some (fp, r'') \<Rightarrow> Some (ip, fp, r'')
                  | None \<Rightarrow> Some (ip, [], r'))
               else Some (ip, [], r))
      | None \<Rightarrow>
          (case s of
             [] \<Rightarrow> None
           | c # r' \<Rightarrow>
               if c = 46 then
                 (case digitpart r' of Some (fp, r'') \<Rightarrow> Some ([], fp, r'') | None \<Rightarrow> None)
               else None))"

definition parse_exponent :: "ustr \<Rightarrow> int \<times> ustr" where
  "parse_exponent s =
     (case s of
        [] \<Rightarrow> (0, [])
      | c # r \<Rightarrow>
          if c = 101 \<or> c = 69 then
            (case parse_sign r of
               (sg, r2) \<Rightarrow>
                 (case digitpart r2 of
                    Some (ep, r3) \<Rightarrow> (sg * int (digits_val ep), r3)
                  | None \<Rightarrow> (0, s)))
          else (0, s))"

definition decimal_value :: "int \<Rightarrow> nat list \<Rightarrow> nat list \<Rightarrow> int \<Rightarrow> rat" where
  "decimal_value sg ip fp e =
     of_int sg * (of_nat (digits_val (ip @ fp)) / 10 ^ length fp) *
     (if 0 \<le> e then 10 ^ nat e else 1 / 10 ^ nat (- e))"

definition parse_float :: "ustr \<Rightarrow> rat option" where
  "parse_float s =
     (case parse_sign s of
        (sg, r) \<Rightarrow>
          (case parse_mantissa r of
             None \<Rightarrow> None
           | Some (ip, fp, r') \<Rightarrow>
               (case parse_exponent r' of
                  (e, r'') \<Rightarrow> if r'' = [] then Some (decimal_value sg ip fp e) else None)))"

definition py_float :: "ustr \<Rightarrow> py_error + rat" where
  "py_float s = (case parse_float (py_strip s) of Some x \<Rightarrow> Inr x | None \<Rightarrow> Inl (ValueError s))"

subsection \<open>The cleaning step of the script\<close>

text \<open>
  One ticket text (line 19): the euro sign is removed, every comma becomes a period,
  whitespace is stripped and \<open>float()\<close> parses the result (raising \<open>ValueError\<close>).
\<close>

definition clean_ticket_text :: "ustr \<Rightarrow> py_error + rat" where
  "clean_ticket_text s = py_float (py_strip (py_replace [44] [46] (py_replace [8364] [] s)))"

definition clean_ticket_cell :: "cell \<Rightarrow> py_error + rat option" where
  "clean_ticket_cell x =
     (case x of
        None \<Rightarrow> Inr None
      | Some s \<Rightarrow> (case clean_ticket_text s of Inl e \<Rightarrow> Inl e | Inr v \<Rightarrow> Inr (Some v)))"

text \<open>
  The column types \<open>read_csv\<close> infers (line 18), as far as lines 19 and 24 depend on them.
  pandas' C parser types a column as a number column when every present field is a
  number of its grammar (\<open>xstrtod\<close>: surrounding ASCII whitespace, a sign, digits with an
  optional decimal point and an optional exponent, no \<open>_\<close> separators) or an infinity
  spelling; as a boolean column when every present field is one of the six boolean
  literals; and as text (object) otherwise. A column without rows stays object; a
  column whose fields are all missing is float. The raw cells of the model are the
  fields after \<open>read_csv\<close>'s detection of missing values.
\<close>

definition csv_isspace :: "nat \<Rightarrow> bool" where
  "csv_isspace c \<longleftrightarrow> c = 32 \<or> (9 \<le> c \<and> c \<le> 13)"

definition csv_trim :: "ustr \<Rightarrow> ustr" where
  "csv_trim s = rev (dropWhile csv_isspace (rev (dropWhile csv_isspace s)))"

definition ascii_lower :: "nat \<Rightarrow> nat" where
  "ascii_lower c = (if 65 \<le> c \<and> c \<le> 90 then c + 32 else c)"

definition csv_inf :: "ustr \<Rightarrow> bool" where
  "csv_inf s \<longleftrightarrow>
     map ascii_lower s \<in> set (map py_str [''inf'', ''+inf'', ''-inf'', ''infinity'', ''+infinity'', ''-infinity''])"

definition csv_numeric :: "ustr \<Rightarrow> bool" where
  "csv_numeric s \<longleftrightarrow> (95 \<notin> set s \<and> parse_float (csv_trim s) \<noteq> None) \<or> csv_inf s"

text \<open>
  Boolean fields: the default \<open>true_values\<close> and \<open>false_values\<close>, then the C parser's
  fallback \<open>to_boolean\<close>, \<open>strcasecmp\<close> with \<open>TRUE\<close> and \<open>FALSE\<close>, so any case.
\<close>

definition csv_bool_lit :: "ustr \<Rightarrow> bool" where
  "csv_bool_lit s \<longleftrightarrow> map ascii_lower s \<in> set (map py_str [''true'', ''false''])"

text \<open>
  The \<open>.str\<close> accessor of pandas raises \<open>AttributeError\<close> on a column that
  \<open>read_csv\<close> did not type as text.
\<close>

definition str_accessor_error :: py_error where
  "str_accessor_error = AttributeError (py_str ''Can only use .str accessor with string values!'')"

definition str_column_ok :: "cell list \<Rightarrow> bool" where
  "str_column_ok xs \<longleftrightarrow>
     xs = [] \<or>
     list_ex (\<lambda>s. \<not> csv_numeric s) (present xs) \<and> list_ex (\<lambda>s. \<not> csv_bool_lit s) (present xs)"

definition clean_ticket_col :: "cell list \<Rightarrow> py_error + rat option list" where
  "clean_ticket_col xs =
     (if str_column_ok xs then map_result clean_ticket_cell xs else Inl str_accessor_error)"

definition strip_col :: "cell list \<Rightarrow> py_error + cell list" where
  "strip_col xs =
     (if str_column_ok xs then Inr (map (map_option py_strip) xs) else Inl str_accessor_error)"

text \<open>The data frame: the columns the script reads, as pandas holds them.\<close>

datatype str_col =
    Wine_frequency_consumption
  | Payment_mode
  | Place_to_drink
  | Additional_products
  | Gender
  | Education
  | Age

record raw_frame =
  raw_ticket :: "cell list"
  raw_text :: "str_col \<Rightarrow> cell list"

record frame =
  ticket :: "rat option list"
  cols :: "str_col \<Rightarrow> cell list"

definition string_columns :: "str_col list" where
  "string_columns =
     [Wine_frequency_consumption, Payment_mode, Place_to_drink, Additional_products,
      Gender, Education, Age]"

text \<open>The loop of lines 23--24, over \<open>string_columns\<close> in order, updating the frame.\<close>

fun strip_columns :: "str_col list \<Rightarrow> frame \<Rightarrow> py_error + frame" where
  "strip_columns [] f = Inr f"
| "strip_columns (c # cs) f =
     (case strip_col (cols f c) of
        Inl e \<Rightarrow> Inl e
      | Inr col \<Rightarrow> strip_columns cs (f\<lparr>cols := (cols f)(c := col)\<rparr>))"

definition clean :: "raw_frame \<Rightarrow> py_error + frame" where
  "clean r =
     (case clean_ticket_col (raw_ticket r) of
        Inl e \<Rightarrow> Inl e
      | Inr t \<Rightarrow> strip_columns string_columns \<lparr>ticket = t, cols = raw_text r\<rparr>)"

text \<open>A frame of \<open>n\<close> rows: every column the script uses has \<open>n\<close> cells.\<close>

definition raw_rows :: "nat \<Rightarrow> raw_frame \<Rightarrow> bool" where
  "raw_rows n r \<longleftrightarrow>
     length (raw_ticket r) = n \<and> list_all (\<lambda>c. length (raw_text r c) = n) string_columns"

definition frame_rows :: "nat \<Rightarrow> frame \<Rightarrow> bool" where
  "frame_rows n f \<longleftrightarrow>
     length (ticket f) = n \<and> list_all (\<lambda>c. length (cols f c) = n) string_columns"

subsection \<open>Lemmas on the string primitives\<close>

lemma py_replace_single:
  "py_replace [a] new s = concat (map (\<lambda>c. if c = a then new else [c]) s)"
proof (induction s)
  case Nil
  show ?case by (simp add: py_replace.simps [of "[a]" new "[]"])
next
  case (Cons c s)
  then show ?case by (simp add: py_replace.simps [of "[a]" new "c # s"])
qed

lemma py_replace_single_append [simp]:
  "py_replace [a] new (xs @ ys) = py_replace [a] new xs @ py_replace [a] new ys"
  by (simp add: py_replace_single)

lemma py_replace_single_Cons [simp]:
  "py_replace [a] new (c # s) = (if c = a then new else [c]) @ py_replace [a] new s"
  by (simp add: py_replace_single)

lemma py_replace_single_Nil [simp]: "py_replace [a] new [] = []"
  by (simp add: py_replace_single)

lemma py_replace_single_absent [simp]: "a \<notin> set s \<Longrightarrow> py_replace [a] new s = s"
  by (induction s) auto

lemma count_list_py_replace_single:
  "count_list (py_replace [a] new s) c =
     (if c = a then 0 else count_list s c) + count_list s a * count_list new c"
  by (induction s) auto

lemma py_strip_append_spaces:
  assumes "\<forall>c\<in>set p. py_isspace c" and "\<forall>c\<in>set q. py_isspace c"
    and "t = [] \<or> \<not> py_isspace (hd t) \<and> \<not> py_isspace (last t)"
  shows "py_strip (p @ t @ q) = t"
proof (cases "t = []")
  case True
  with assms(1,2) show ?thesis
    by (auto simp: py_strip_def dropWhile_append2 dest: set_dropWhileD)
next
  case False
  with assms(3) have h: "\<not> py_isspace (hd t)" and l: "\<not> py_isspace (hd (rev t))"
    by (simp_all add: hd_rev)
  from False h have "dropWhile py_isspace (t @ q) = t @ q"
    by (simp add: dropWhile_eq_self_iff)
  moreover from False l have "dropWhile py_isspace (rev t) = rev t"
    by (simp add: dropWhile_eq_self_iff)
  moreover have "dropWhile py_isspace (rev q @ rev t) = dropWhile py_isspace (rev t)"
    by (rule dropWhile_append2) (use assms(2) in auto)
  ultimately show ?thesis
    using assms(1) by (simp add: py_strip_def dropWhile_append2)
qed

lemma py_strip_ends:
  "py_strip s = [] \<or> \<not> py_isspace (hd (py_strip s)) \<and> \<not> py_isspace (last (py_strip s))"
proof (cases "py_strip s = []")
  case False
  let ?t = "dropWhile py_isspace s"
  have t: "?t = py_strip s @ rev (takeWhile py_isspace (rev ?t))"
    by (metis py_strip_def rev_append rev_rev_ident takeWhile_dropWhile_id)
  from False have ne: "dropWhile py_isspace (rev ?t) \<noteq> []"
    by (simp add: py_strip_def)
  have "last (py_strip s) = hd (dropWhile py_isspace (rev ?t))"
    by (simp add: py_strip_def last_rev)
  with ne have last: "\<not> py_isspace (last (py_strip s))"
    by (simp add: hd_dropWhile)
  from False t have "hd (py_strip s) = hd ?t"
    by (metis hd_append2)
  moreover from False t have "?t \<noteq> []" by (metis Nil_is_append_conv)
  ultimately have "\<not> py_isspace (hd (py_strip s))"
    by (simp add: hd_dropWhile)
  with last show ?thesis by simp
qed simp

lemma py_strip_infix:
  "\<exists>p q. s = p @ py_strip s @ q \<and> (\<forall>c\<in>set p. py_isspace c) \<and> (\<forall>c\<in>set q. py_isspace c)"
proof -
  let ?t = "dropWhile py_isspace s"
  have s: "s = takeWhile py_isspace s @ ?t" by simp
  have t: "?t = py_strip s @ rev (takeWhile py_isspace (rev ?t))"
    by (metis py_strip_def rev_append rev_rev_ident takeWhile_dropWhile_id)
  have "s = takeWhile py_isspace s @ py_strip s @ rev (takeWhile py_isspace (rev ?t))"
    using s t by simp
  moreover have "\<forall>c\<in>set (takeWhile py_isspace s). py_isspace c"
    by (auto dest: set_takeWhileD)
  moreover have "\<forall>c\<in>set (rev (takeWhile py_isspace (rev ?t))). py_isspace c"
    by (auto dest: set_takeWhileD)
  ultimately show ?thesis by blast
qed

lemma py_strip_idem: "py_strip (py_strip s) = py_strip s"
  using py_strip_append_spaces [of "[]" "[]" "py_strip s"] py_strip_ends [of s] by simp

lemma count_list_py_strip: "\<not> py_isspace c \<Longrightarrow> count_list (py_strip s) c = count_list s c"
proof -
  assume c: "\<not> py_isspace c"
  obtain p q where s: "s = p @ py_strip s @ q"
    and p: "\<forall>x\<in>set p. py_isspace x" and q: "\<forall>x\<in>set q. py_isspace x"
    using py_strip_infix by blast
  from p c have "count_list p c = 0" by (auto simp: count_list_0_iff)
  moreover from q c have "count_list q c = 0" by (auto simp: count_list_0_iff)
  ultimately show ?thesis
    by (metis add.right_neutral add_0 count_list_append s)
qed

subsection \<open>Lemmas on the float parser\<close>

lemmas parse_float_defs = parse_float_def parse_sign_def parse_mantissa_def digitpart_def
  is_digit_def parse_exponent_def decimal_value_def digits_val_def

lemmas csv_type_defs = str_column_ok_def csv_numeric_def csv_trim_def csv_isspace_def csv_inf_def
  ascii_lower_def csv_bool_lit_def

lemma foldl_digits:
  "foldl (\<lambda>a d. 10 * a + d) (a::nat) ys = a * 10 ^ length ys + foldl (\<lambda>a d. 10 * a + d) 0 ys"
proof (induction ys arbitrary: a)
  case Nil
  then show ?case by simp
next
  case (Cons y ys)
  have "foldl (\<lambda>a d. 10 * a + d) a (y # ys) = (10 * a + y) * 10 ^ length ys +
      foldl (\<lambda>a d. 10 * a + d) 0 ys"
    using Cons.IH [of "10 * a + y"] by simp
  moreover have "foldl (\<lambda>a d. 10 * a + d) 0 (y # ys) = y * 10 ^ length ys +
      foldl (\<lambda>a d. 10 * a + d) 0 ys"
    using Cons.IH [of y] by simp
  ultimately show ?case by (simp add: algebra_simps)
qed

lemma digits_val_append:
  "digits_val (xs @ ys) = digits_val xs * 10 ^ length ys + digits_val ys"
  unfolding digits_val_def
  by (simp add: foldl_digits [of "foldl (\<lambda>a d. 10 * a + d) 0 xs" ys])

lemma digit_run_digits:
  assumes "list_all is_digit ds" and "r = [] \<or> \<not> is_digit (hd r) \<and> hd r \<noteq> 95"
  shows "digit_run (ds @ r) = (map (\<lambda>c. c - 48) ds, r)"
  using assms
proof (induction ds)
  case Nil
  then show ?case by (cases r) auto
next
  case (Cons d ds)
  then show ?case by simp
qed

lemma parse_float_decimal:
  assumes "ds \<noteq> []" and "list_all is_digit ds" and "list_all is_digit fs"
  shows "parse_float (ds @ 46 # fs) =
    Some (of_nat (digits_val (map (\<lambda>c. c - 48) ds)) +
          of_nat (digits_val (map (\<lambda>c. c - 48) fs)) / 10 ^ length fs)"
proof -
  let ?ip = "map (\<lambda>c. c - 48) ds" and ?fp = "map (\<lambda>c. c - 48) fs"
  from assms(1,2) obtain d ds' where ds: "ds = d # ds'" and d: "is_digit d"
    by (cases ds) auto
  have sign: "parse_sign (ds @ 46 # fs) = (1, ds @ 46 # fs)"
    using ds d by (simp add: parse_sign_def is_digit_def)
  have run: "digit_run (ds @ 46 # fs) = (?ip, 46 # fs)"
    using assms(2) by (rule digit_run_digits) (simp add: is_digit_def)
  have dp: "digitpart fs = (if fs = [] then None else Some (?fp, []))"
  proof (cases fs)
    case Nil
    then show ?thesis by (simp add: digitpart_def)
  next
    case (Cons f fs')
    with assms(3) have "digit_run (fs @ []) = (?fp, [])"
      by (intro digit_run_digits) simp_all
    with Cons assms(3) show ?thesis by (simp add: digitpart_def)
  qed
  have dp1: "digitpart (ds @ 46 # fs) = Some (?ip, 46 # fs)"
    using run ds d by (simp add: digitpart_def)
  have mant: "parse_mantissa (ds @ 46 # fs) = Some (?ip, ?fp, [])"
    using dp1 dp by (cases "fs = []") (simp_all add: parse_mantissa_def)
  have "decimal_value 1 ?ip ?fp 0 =
      of_nat (digits_val ?ip) + of_nat (digits_val ?fp) / 10 ^ length fs"
    by (simp add: decimal_value_def digits_val_append field_simps)
  then show ?thesis
    by (simp add: parse_float_def sign mant parse_exponent_def)
qed

lemma not_space_chars [simp]:
  "\<not> py_isspace 44" "\<not> py_isspace 46" "\<not> py_isspace 8364"
  "is_digit c \<Longrightarrow> \<not> py_isspace c"
  by (simp_all add: py_isspace_def is_digit_def)

lemma not_digit_chars [simp]: "\<not> is_digit 44" "\<not> is_digit 46" "\<not> is_digit 8364"
  by (simp_all add: is_digit_def)

lemma notin_if_all: "list_all P xs \<Longrightarrow> \<not> P a \<Longrightarrow> a \<notin> set xs"
  by (auto simp: list_all_iff)

lemma notin_if_all_spaces: "\<forall>c\<in>set w. py_isspace c \<Longrightarrow> \<not> py_isspace a \<Longrightarrow> a \<notin> set w"
  by auto

lemma digit_run_snd_count:
  assumes "\<not> is_digit c" and "c \<noteq> 95"
  shows "count_list (snd (digit_run s)) c = count_list s c"
  using assms
proof (induction s rule: digit_run.induct)
  case 1
  then show ?case by simp
next
  case (2 x s)
  show ?case
  proof (cases "is_digit x")
    case True
    with "2.IH"(1) "2.prems" show ?thesis by (auto simp: split_beta)
  next
    case nd: False
    show ?thesis
    proof (cases "x = 95")
      case True
      with nd "2.IH"(2) "2.prems" show ?thesis
        by (cases s) (auto simp: split_beta)
    next
      case False
      with nd show ?thesis by simp
    qed
  qed
qed

lemma digit_run_count:
  "digit_run s = (ds, r) \<Longrightarrow> \<not> is_digit c \<Longrightarrow> c \<noteq> 95 \<Longrightarrow> count_list s c = count_list r c"
  using digit_run_snd_count [of c s] by simp

lemma digitpart_count:
  "digitpart s = Some (ds, r) \<Longrightarrow> \<not> is_digit c \<Longrightarrow> c \<noteq> 95 \<Longrightarrow> count_list s c = count_list r c"
proof -
  assume "digitpart s = Some (ds, r)" and c: "\<not> is_digit c" "c \<noteq> 95"
  then have "snd (digit_run s) = r"
    by (auto simp: digitpart_def simp del: digit_run.simps split: list.splits if_splits)
  with c show ?thesis
    using digit_run_snd_count [of c s] by simp
qed

lemma parse_sign_count:
  "parse_sign s = (sg, r) \<Longrightarrow> c \<noteq> 43 \<Longrightarrow> c \<noteq> 45 \<Longrightarrow> count_list s c = count_list r c"
  by (auto simp: parse_sign_def split: list.splits if_splits)

lemma parse_exponent_point:
  "parse_exponent s = (e, r) \<Longrightarrow> count_list s 46 = count_list r 46"
proof -
  assume pe: "parse_exponent s = (e, r)"
  show ?thesis
  proof (cases s)
    case (Cons c s')
    obtain sg r2 where sg: "parse_sign s' = (sg, r2)" by fastforce
    have "count_list s' 46 = count_list r2 46"
      using parse_sign_count [OF sg] by simp
    moreover have "digitpart r2 = Some (ep, r3) \<Longrightarrow> count_list r2 46 = count_list r3 46" for ep r3
      using digitpart_count [of r2 ep r3 46] by simp
    ultimately show ?thesis
      using pe Cons sg
      by (auto simp: parse_exponent_def split: if_splits option.splits)
  qed (use pe in \<open>simp add: parse_exponent_def\<close>)
qed

lemma parse_mantissa_point:
  "parse_mantissa s = Some (ip, fp, r) \<Longrightarrow> count_list s 46 \<le> Suc (count_list r 46)"
  by (auto simp: parse_mantissa_def split: option.splits list.splits if_splits
           dest!: digitpart_count [where c = 46])

lemma parse_float_one_point: "parse_float s = Some x \<Longrightarrow> count_list s 46 \<le> 1"
  by (auto simp: parse_float_def split: prod.splits option.splits if_splits
           dest!: parse_mantissa_point parse_exponent_point parse_sign_count [where c = 46])

lemma ticket_text_points:
  "count_list (py_strip (py_replace [44] [46] (py_replace [8364] [] s))) 46 =
     count_list s 44 + count_list s 46"
  by (simp add: count_list_py_strip count_list_py_replace_single)

lemma ticket_text_strip_decimal:
  assumes "\<forall>c\<in>set w1. py_isspace c" and "\<forall>c\<in>set w2. py_isspace c"
    and "e = [] \<or> e = [8364]" and "ds \<noteq> []" and "list_all is_digit ds"
    and "list_all is_digit fs"
  shows "py_strip (py_replace [44] [46] (py_replace [8364] [] (w1 @ e @ ds @ 44 # fs @ w2)))
    = ds @ 46 # fs"
proof -
  have n1: "8364 \<notin> set w1" "8364 \<notin> set w2" "44 \<notin> set w1" "44 \<notin> set w2"
    using assms(1,2) by (auto intro: notin_if_all_spaces)
  have n2: "8364 \<notin> set ds" "8364 \<notin> set fs" "44 \<notin> set ds" "44 \<notin> set fs"
    using assms(5,6) by (auto simp: list_all_iff)
  have e: "py_replace [8364] [] e = []"
    using assms(3) by auto
  have r: "py_replace [44] [46] (py_replace [8364] [] (w1 @ e @ ds @ 44 # fs @ w2))
      = w1 @ (ds @ 46 # fs) @ w2"
    using n1 n2 e by simp
  have ends: "\<not> py_isspace (hd (ds @ 46 # fs)) \<and> \<not> py_isspace (last (ds @ 46 # fs))"
    using assms(4,5,6) by (cases ds; cases fs rule: rev_cases) (auto simp: list_all_iff)
  show ?thesis
    unfolding r using assms(1,2) ends by (intro py_strip_append_spaces) simp_all
qed

subsection \<open>Lemmas on the column and frame cleaning\<close>

lemma set_string_columns [simp]: "c \<in> set string_columns"
  by (cases c) (simp_all add: string_columns_def)

lemma map_option_strip_idem [simp]:
  "map_option py_strip (map_option py_strip x) = map_option py_strip x"
  by (cases x) (simp_all add: py_strip_idem)

lemma map_strip_idem [simp]:
  "map (map_option py_strip) (map (map_option py_strip) xs) = map (map_option py_strip) xs"
  by (induction xs) auto

lemma str_column_ok_textI:
  "Some s \<in> set xs \<Longrightarrow> \<not> csv_numeric s \<Longrightarrow> \<not> csv_bool_lit s \<Longrightarrow> str_column_ok xs"
  by (auto simp: str_column_ok_def list_ex_iff)

lemma distinct_string_columns: "distinct string_columns"
  by (simp add: string_columns_def)

lemma strip_col_Inr_iff:
  "strip_col xs = Inr ys \<longleftrightarrow> str_column_ok xs \<and> ys = map (map_option py_strip) xs"
  by (auto simp: strip_col_def)

lemma strip_columns_Inr:
  "strip_columns cs f = Inr f' \<Longrightarrow>
     ticket f' = ticket f \<and>
     (\<forall>c. cols f' c = (if c \<in> set cs then map (map_option py_strip) (cols f c) else cols f c))"
proof (induction cs arbitrary: f)
  case Nil
  then show ?case by simp
next
  case (Cons c cs)
  then obtain col where col: "strip_col (cols f c) = Inr col"
    and rest: "strip_columns cs (f\<lparr>cols := (cols f)(c := col)\<rparr>) = Inr f'"
    by (auto split: sum.splits)
  from col have "col = map (map_option py_strip) (cols f c)"
    by (simp add: strip_col_Inr_iff)
  with Cons.IH [OF rest] show ?case by auto
qed

lemma strip_columns_ok_iff:
  "distinct cs \<Longrightarrow>
   (\<exists>f'. strip_columns cs f = Inr f') \<longleftrightarrow> list_all (\<lambda>c. str_column_ok (cols f c)) cs"
proof (induction cs arbitrary: f)
  case Nil
  then show ?case by simp
next
  case (Cons c cs)
  show ?case
  proof (cases "str_column_ok (cols f c)")
    case True
    let ?f1 = "f\<lparr>cols := (cols f)(c := map (map_option py_strip) (cols f c))\<rparr>"
    have "list_all (\<lambda>d. str_column_ok (cols ?f1 d)) cs = list_all (\<lambda>d. str_column_ok (cols f d)) cs"
      using Cons.prems by (auto simp: list_all_iff)
    with True Cons.IH [of ?f1] Cons.prems show ?thesis by (simp add: strip_col_def)
  next
    case False
    then show ?thesis by (simp add: strip_col_def)
  qed
qed

lemma clean_ticket_cell_Inl:
  "(\<exists>e. clean_ticket_cell x = Inl e) \<longleftrightarrow> (\<exists>s e. x = Some s \<and> clean_ticket_text s = Inl e)"
  by (auto simp: clean_ticket_cell_def split: option.splits sum.splits)

lemma clean_Inr:
  assumes "clean r = Inr f"
  shows "list_all2 (\<lambda>x y. clean_ticket_cell x = Inr y) (raw_ticket r) (ticket f)"
    and "cols f c = map (map_option py_strip) (raw_text r c)"
proof -
  obtain t where t: "clean_ticket_col (raw_ticket r) = Inr t"
    and s: "strip_columns string_columns \<lparr>ticket = t, cols = raw_text r\<rparr> = Inr f"
    using assms by (auto simp: clean_def split: sum.splits)
  from t show "list_all2 (\<lambda>x y. clean_ticket_cell x = Inr y) (raw_ticket r) (ticket f)"
    using strip_columns_Inr [OF s]
    by (auto simp: clean_ticket_col_def map_result_Inr_iff split: if_splits)
  show "cols f c = map (map_option py_strip) (raw_text r c)"
    using strip_columns_Inr [OF s] by simp
qed

lemma csv_trim_plain:
  "s \<noteq> [] \<Longrightarrow> \<not> csv_isspace (hd s) \<Longrightarrow> \<not> csv_isspace (last s) \<Longrightarrow> csv_trim s = s"
proof -
  assume s: "s \<noteq> []" and h: "\<not> csv_isspace (hd s)" and l: "\<not> csv_isspace (last s)"
  have "dropWhile csv_isspace s = s" using s h by (cases s) simp_all
  moreover have "dropWhile csv_isspace (rev s) = rev s"
    using s l by (cases "rev s") (simp_all add: last_rev [symmetric] del: last_rev)
  ultimately show ?thesis by (simp add: csv_trim_def)
qed

text \<open>A plain decimal number is a float field for \<open>read_csv\<close>.\<close>

lemma csv_numeric_decimal:
  assumes "ds \<noteq> []" and "list_all is_digit ds" and "list_all is_digit fs"
  shows "csv_numeric (ds @ 46 # fs)"
proof -
  have nsp: "\<not> csv_isspace c" if "is_digit c \<or> c = 46" for c
    using that by (auto simp: csv_isspace_def is_digit_def)
  have "hd (ds @ 46 # fs) = hd ds" and "hd ds \<in> set ds"
    using assms(1) by simp_all
  moreover have "\<not> csv_isspace (last (ds @ 46 # fs))"
    using nsp assms(3) by (cases fs rule: rev_cases) (auto simp: list_all_iff)
  ultimately have "csv_trim (ds @ 46 # fs) = ds @ 46 # fs"
    using nsp assms(2) by (intro csv_trim_plain) (auto simp: list_all_iff)
  moreover have "95 \<notin> set (ds @ 46 # fs)"
    using assms(2,3) by (auto simp: list_all_iff is_digit_def)
  ultimately show ?thesis
    using parse_float_decimal [OF assms] by (simp add: csv_numeric_def)
qed

subsection \<open>Properties of the cleaning stage\<close>

text \<open>
  C1. A ticket in the format the data uses (optional surrounding whitespace, an optional
  leading euro sign, digits, a decimal comma and optional decimals) is converted to the
  number it denotes: integer part plus decimals over the matching power of ten.
\<close>

theorem clean_ticket_text_euro_decimal:
  assumes "list_all py_isspace w1" and "list_all py_isspace w2"
    and "e = [] \<or> e = [8364]" and "ds \<noteq> []" and "list_all is_digit ds"
    and "list_all is_digit fs"
  shows "clean_ticket_text (w1 @ e @ ds @ 44 # fs @ w2) =
    Inr (of_nat (digits_val (map (\<lambda>c. c - 48) ds)) +
         of_nat (digits_val (map (\<lambda>c. c - 48) fs)) / 10 ^ length fs)"
proof -
  have w: "\<forall>c\<in>set w1. py_isspace c" "\<forall>c\<in>set w2. py_isspace c"
    using assms(1,2) by (simp_all add: list_all_iff)
  have s: "py_strip (py_replace [44] [46] (py_replace [8364] [] (w1 @ e @ ds @ 44 # fs @ w2)))
      = ds @ 46 # fs"
    by (rule ticket_text_strip_decimal [OF w assms(3-6)])
  then have "py_strip (ds @ 46 # fs) = ds @ 46 # fs"
    by (metis py_strip_idem)
  then show ?thesis
    unfolding clean_ticket_text_def py_float_def s
    using parse_float_decimal [OF assms(4-6)] by simp
qed

theorem clean_ticket_text_euro_decimal_witness:
  "list_all py_isspace [32] \<and> list_all is_digit [49, 50] \<and> list_all is_digit [53, 48] \<and>
   clean_ticket_text ([32] @ [8364] @ [49, 50] @ 44 # [53, 48] @ []) = Inr (25 / 2)"
proof -
  have "clean_ticket_text ([32] @ [8364] @ [49, 50] @ 44 # [53, 48] @ []) =
      Inr (of_nat (digits_val (map (\<lambda>c. c - 48) [49, 50])) +
           of_nat (digits_val (map (\<lambda>c. c - 48) [53, 48])) / 10 ^ length [53::nat, 48])"
    by (rule clean_ticket_text_euro_decimal) (simp_all add: py_isspace_def is_digit_def)
  then show ?thesis
    by (simp add: py_isspace_def is_digit_def digits_val_def)
qed

text \<open>
  C2. A ticket text with two or more commas or periods in total is rejected with
  \<open>ValueError\<close>: every comma is turned into a period, and \<open>float()\<close> accepts at most
  one period. In particular a thousands separator next to a decimal comma, which the
  spec's format allows, makes the run fail.
\<close>

theorem clean_ticket_text_separators:
  assumes "2 \<le> count_list s 44 + count_list s 46"
  shows "clean_ticket_text s =
    Inl (ValueError (py_strip (py_replace [44] [46] (py_replace [8364] [] s))))"
proof -
  let ?u = "py_strip (py_replace [44] [46] (py_replace [8364] [] s))"
  have "parse_float ?u = None"
    using parse_float_one_point [of ?u] ticket_text_points [of s] assms
    by (cases "parse_float ?u") auto
  then show ?thesis
    by (simp add: clean_ticket_text_def py_float_def py_strip_idem)
qed

theorem clean_ticket_text_separators_witness:
  "2 \<le> count_list [49::nat, 44, 50, 51, 52, 44, 53, 54] 44 +
        count_list [49::nat, 44, 50, 51, 52, 44, 53, 54] 46 \<and>
   clean_ticket_text [49, 44, 50, 51, 52, 44, 53, 54] =
     Inl (ValueError [49, 46, 50, 51, 52, 46, 53, 54])"
proof -
  have "2 \<le> count_list [49::nat, 44, 50, 51, 52, 44, 53, 54] 44 +
      count_list [49::nat, 44, 50, 51, 52, 44, 53, 54] 46"
    by simp
  from clean_ticket_text_separators [OF this] show ?thesis
    by (simp add: py_strip_def py_isspace_def)
qed

text \<open>
  C3. Cleaning keeps the shape of the table: a raw frame of \<open>n\<close> rows becomes a frame of
  \<open>n\<close> rows, and the ticket cells that are missing after cleaning are exactly the
  ones missing before (no row is added, dropped or reordered).
\<close>

theorem clean_keeps_rows:
  assumes "raw_rows n r" and "clean r = Inr f"
  shows "frame_rows n f \<and> map (\<lambda>x. x = None) (ticket f) = map (\<lambda>x. x = None) (raw_ticket r)"
proof -
  have t: "list_all2 (\<lambda>x y. clean_ticket_cell x = Inr y) (raw_ticket r) (ticket f)"
    and c: "\<And>c. cols f c = map (map_option py_strip) (raw_text r c)"
    using clean_Inr [OF assms(2)] by blast+
  have "list_all2 (\<lambda>x y. (x = None) = (y = None)) (raw_ticket r) (ticket f)"
    using t by (rule list_all2_mono)
       (auto simp: clean_ticket_cell_def split: option.splits sum.splits)
  then have "map (\<lambda>x. x = None) (ticket f) = map (\<lambda>x. x = None) (raw_ticket r)"
    by (induction rule: list_all2_induct) auto
  moreover have "length (ticket f) = length (raw_ticket r)"
    using t by (rule list_all2_lengthD [symmetric])
  ultimately show ?thesis
    using assms(1) c by (simp add: raw_rows_def frame_rows_def list_all_iff)
qed

theorem clean_keeps_rows_witness:
  "\<exists>f. clean \<lparr>raw_ticket = [Some [53, 44, 48], None], raw_text = (\<lambda>_. [Some [32, 65], None])\<rparr> = Inr f \<and>
     frame_rows 2 f"
proof -
  let ?r = "\<lparr>raw_ticket = [Some [53::nat, 44, 48], None], raw_text = (\<lambda>_::str_col. [Some [32::nat, 65], None])\<rparr>"
  have "clean_ticket_text [53, 44, 48] = Inr 5"
    by (simp add: clean_ticket_text_def py_float_def py_strip_def py_isspace_def parse_float_defs)
  then obtain f where f: "clean ?r = Inr f"
    by (simp add: clean_def clean_ticket_col_def clean_ticket_cell_def csv_type_defs parse_float_defs
        py_str_def string_columns_def strip_col_def)
  have "raw_rows 2 ?r" by (simp add: raw_rows_def string_columns_def)
  from clean_keeps_rows [OF this f] f show ?thesis by blast
qed

text \<open>
  C4. Each categorical cell after cleaning is the raw cell with its surrounding
  whitespace, and only that, removed: no case change and no other normalisation; a
  missing cell stays missing.
\<close>

theorem clean_text_cell:
  assumes "clean r = Inr f" and "i < length (raw_text r c)"
  shows "(raw_text r c ! i = None \<longrightarrow> cols f c ! i = None) \<and>
    (\<forall>s. raw_text r c ! i = Some s \<longrightarrow>
       (\<exists>t p q. cols f c ! i = Some t \<and> s = p @ t @ q \<and>
          list_all py_isspace p \<and> list_all py_isspace q \<and>
          (t = [] \<or> \<not> py_isspace (hd t) \<and> \<not> py_isspace (last t))))"
proof -
  have c: "cols f c ! i = map_option py_strip (raw_text r c ! i)"
    using clean_Inr(2) [OF assms(1)] assms(2) by simp
  have "\<exists>p q. s = p @ py_strip s @ q \<and> list_all py_isspace p \<and> list_all py_isspace q" for s
    using py_strip_infix [of s] by (auto simp: list_all_iff)
  then show ?thesis
    using c py_strip_ends by (auto simp: c)
qed

theorem clean_text_cell_witness:
  "\<exists>f t. clean \<lparr>raw_ticket = [None, Some [53, 44, 48]], raw_text = (\<lambda>_. [Some [32, 65], None])\<rparr> = Inr f \<and>
     cols f Age ! 0 = Some t \<and> (\<exists>p q. [32, 65] = p @ t @ q \<and> list_all py_isspace p \<and> list_all py_isspace q)"
proof -
  let ?r = "\<lparr>raw_ticket = [None, Some [53::nat, 44, 48]], raw_text = (\<lambda>_::str_col. [Some [32::nat, 65], None])\<rparr>"
  have "clean_ticket_text [53, 44, 48] = Inr 5"
    by (simp add: clean_ticket_text_def py_float_def py_strip_def py_isspace_def parse_float_defs)
  then obtain f where f: "clean ?r = Inr f"
    by (simp add: clean_def clean_ticket_col_def clean_ticket_cell_def csv_type_defs parse_float_defs
        py_str_def string_columns_def strip_col_def)
  have "0 < length (raw_text ?r Age)" by simp
  from clean_text_cell [OF f this] f show ?thesis by auto
qed

text \<open>
  C5. The cleaning stage succeeds exactly when \<open>read_csv\<close> typed the ticket column and
  every categorical column as text and every ticket text parses; otherwise the run stops
  with the first error.
\<close>

theorem clean_succeeds_iff:
  "(\<exists>f. clean r = Inr f) \<longleftrightarrow>
     str_column_ok (raw_ticket r) \<and>
     (\<forall>s. Some s \<in> set (raw_ticket r) \<longrightarrow> (\<exists>v. clean_ticket_text s = Inr v)) \<and>
     (\<forall>c. str_column_ok (raw_text r c))"
proof -
  have tick: "(\<exists>t. clean_ticket_col (raw_ticket r) = Inr t) \<longleftrightarrow>
      str_column_ok (raw_ticket r) \<and>
      (\<forall>s. Some s \<in> set (raw_ticket r) \<longrightarrow> (\<exists>v. clean_ticket_text s = Inr v))"
  proof -
    have "(\<exists>t. map_result clean_ticket_cell xs = Inr t) \<longleftrightarrow>
        \<not> (\<exists>e. map_result clean_ticket_cell xs = Inl e)" for xs
      by (cases "map_result clean_ticket_cell xs") auto
    moreover have "(\<exists>v. clean_ticket_text s = Inr v) \<longleftrightarrow> \<not> (\<exists>e. clean_ticket_text s = Inl e)" for s
      by (cases "clean_ticket_text s") auto
    ultimately show ?thesis
      unfolding map_result_Inl_iff clean_ticket_cell_Inl clean_ticket_col_def by auto
  qed
  have cols: "list_all (\<lambda>c. str_column_ok (raw_text r c)) string_columns \<longleftrightarrow>
      (\<forall>c. str_column_ok (raw_text r c))"
    by (auto simp: list_all_iff)
  show ?thesis
    using tick strip_columns_ok_iff [OF distinct_string_columns, of "\<lparr>ticket = _, cols = raw_text r\<rparr>"] cols
    by (auto simp: clean_def split: sum.split)
qed

theorem clean_succeeds_iff_witness:
  "\<exists>f. clean \<lparr>raw_ticket = [Some [53, 44, 48, 48], None], raw_text = (\<lambda>_. [Some [32, 65], None])\<rparr>
         = Inr f"
proof -
  have "clean_ticket_text [53, 44, 48, 48] = Inr 5"
    by (simp add: clean_ticket_text_def py_float_def py_strip_def py_isspace_def parse_float_def
        parse_sign_def parse_mantissa_def digitpart_def is_digit_def parse_exponent_def
        decimal_value_def digits_val_def)
  then show ?thesis
    by (subst clean_succeeds_iff) (auto simp: csv_type_defs parse_float_defs py_str_def)
qed

text \<open>
  C35. A ticket column written as plain decimal numbers (digits, a decimal point, digits,
  such as \<open>7.50\<close>), as a data file without euro signs and decimal commas would hold it,
  is typed float by \<open>read_csv\<close>, so line 19 stops with \<open>AttributeError\<close> before it
  converts anything; the same holds when every ticket is missing.
\<close>

theorem clean_numeric_ticket_error:
  assumes "raw_ticket r \<noteq> []"
    and "\<forall>s\<in>set (present (raw_ticket r)).
           \<exists>ds fs. ds \<noteq> [] \<and> list_all is_digit ds \<and> list_all is_digit fs \<and> s = ds @ 46 # fs"
  shows "clean r = Inl str_accessor_error"
proof -
  have "\<not> str_column_ok (raw_ticket r)"
    using assms csv_numeric_decimal by (fastforce simp: str_column_ok_def list_ex_iff)
  then show ?thesis by (simp add: clean_def clean_ticket_col_def)
qed

theorem clean_numeric_ticket_error_witness:
  "[Some [49, 50, 46, 48], Some [55, 46, 53], None] \<noteq> [] \<and>
   clean \<lparr>raw_ticket = [Some [49, 50, 46, 48], Some [55, 46, 53], None],
          raw_text = (\<lambda>_. [Some [65], None, None])\<rparr> = Inl str_accessor_error"
proof -
  have a: "\<exists>ds fs. ds \<noteq> [] \<and> list_all is_digit ds \<and> list_all is_digit fs \<and>
      [49, 50, 46, 48::nat] = ds @ 46 # fs"
    by (rule exI [of _ "[49, 50]"], rule exI [of _ "[48]"]) (simp add: is_digit_def)
  have b: "\<exists>ds fs. ds \<noteq> [] \<and> list_all is_digit ds \<and> list_all is_digit fs \<and>
      [55, 46, 53::nat] = ds @ 46 # fs"
    by (rule exI [of _ "[55]"], rule exI [of _ "[53]"]) (simp add: is_digit_def)
  have "\<forall>s\<in>set (present [Some [49, 50, 46, 48], Some [55, 46, 53::nat], None]).
           \<exists>ds fs. ds \<noteq> [] \<and> list_all is_digit ds \<and> list_all is_digit fs \<and> s = ds @ 46 # fs"
    using a b by simp
  then show ?thesis
    using clean_numeric_ticket_error [of "\<lparr>raw_ticket = [Some [49, 50, 46, 48], Some [55, 46, 53], None],
        raw_text = (\<lambda>_. [Some [65], None, None])\<rparr>"] by simp
qed

end
