(* ===== verification/Aggregate.thy ===== *)
theory Aggregate
  imports Prelude
begin

text \<open>
  The pandas aggregations that \<open>src/wine_analysis.py\<close> applies to the cleaned frame,
  stated over columns of any element type (the script instantiates them with the
  categorical columns and the ticket column in theory \<open>Pipeline\<close>):
  \<^item> \<open>value_counts\<close>: \<open>Series.value_counts()\<close>, a one-pass count in first-occurrence
    order (pandas' hashtable) followed by a descending sort on the count, and
    \<open>ranked_counts\<close>, the script's \<open>.value_counts().sort_values(ascending=False).iloc[::-1]\<close>
    (lines 52 and 74);
  \<^item> \<open>crosstab\<close>: \<open>pd.crosstab(a, b)\<close> (lines 28, 40, 85), rows and columns the sorted
    distinct values of the complete pairs, cells their counts;
  \<^item> \<open>row_percentages\<close>: \<open>t.div(t.sum(axis=1), axis=0) * 100\<close> (line 133);
  \<^item> \<open>group_mean\<close> and \<open>group_mean_count\<close>: \<open>groupby(k)[v].mean()\<close> and
    \<open>.agg(['mean', 'count'])\<close> (lines 63 and 129), and the \<open>sort_values\<close> calls after them.
  pandas' sorts are not stable in general; the model uses the stable \<open>sort_key\<close> of
  the library, and the theorems about the sorted results hold for every order of ties.
\<close>

subsection \<open>value_counts\<close>

text \<open>One step of the hashtable count: increment the key's count, or append the key
  with count 1 when it is new (first-occurrence order).\<close>

fun tally_step :: "('a \<times> nat) list \<Rightarrow> 'a \<Rightarrow> ('a \<times> nat) list" where
  "tally_step [] x = [(x, 1)]"
| "tally_step ((k, n) # kns) x = (if k = x then (k, Suc n) # kns else (k, n) # tally_step kns x)"

definition tally :: "'a list \<Rightarrow> ('a \<times> nat) list" where
  "tally xs = foldl tally_step [] xs"

definition sort_desc_count :: "('a \<times> nat) list \<Rightarrow> ('a \<times> nat) list" where
  "sort_desc_count kns = sort_key (\<lambda>p. - int (snd p)) kns"

definition value_counts :: "'a option list \<Rightarrow> ('a \<times> nat) list" where
  "value_counts col = sort_desc_count (tally (present col))"

definition ranked_counts :: "'a option list \<Rightarrow> ('a \<times> nat) list" where
  "ranked_counts col = rev (sort_desc_count (value_counts col))"

text \<open>The multiset of values an association list of counts stands for: the abstraction
  of a count table.\<close>

definition counts_mset :: "('a \<times> nat) list \<Rightarrow> 'a multiset" where
  "counts_mset kns = sum_list (map (\<lambda>p. replicate_mset (snd p) (fst p)) kns)"

subsection \<open>crosstab and row percentages\<close>

text \<open>A labelled two-dimensional table: a data frame with a row index, column labels
  and one row of cells per index entry.\<close>

record ('a, 'b, 'v) table =
  tb_rows :: "'a list"
  tb_cols :: "'b list"
  tb_cells :: "'v list list"

text \<open>\<open>crosstab\<close> drops every row with a missing value in either column (\<open>dropna\<close>),
  takes the sorted distinct values of the remaining pairs as row and column labels, and
  counts each pair (cells of absent pairs are 0).\<close>

definition complete_pairs :: "'a option list \<Rightarrow> 'b option list \<Rightarrow> ('a \<times> 'b) list" where
  "complete_pairs xs ys =
     present (map (\<lambda>(x, y). case x of None \<Rightarrow> None | Some a \<Rightarrow> map_option (Pair a) y) (zip xs ys))"

definition crosstab ::
  "'a::linorder option list \<Rightarrow> 'b::linorder option list \<Rightarrow> ('a, 'b, nat) table" where
  "crosstab xs ys =
     (let ps = complete_pairs xs ys;
          rs = sort (remdups (map fst ps));
          cs = sort (remdups (map snd ps))
      in \<lparr>tb_rows = rs, tb_cols = cs,
          tb_cells = map (\<lambda>a. map (\<lambda>b. count_list ps (a, b)) cs) rs\<rparr>)"

text \<open>Division of each row by its sum, times 100; pandas yields NaN (\<open>None\<close>) for
  \<open>0 / 0\<close>.\<close>

definition row_percentages :: "('a, 'b, nat) table \<Rightarrow> ('a, 'b, rat option) table" where
  "row_percentages t =
     \<lparr>tb_rows = tb_rows t, tb_cols = tb_cols t,
      tb_cells = map (\<lambda>row. let s = sum_list row in
                   map (\<lambda>c. if s = 0 then None else Some (of_nat c / of_nat s * 100)) row)
                 (tb_cells t)\<rparr>"

subsection \<open>groupby mean and mean/count\<close>

text \<open>\<open>groupby(k)\<close> keeps the non-missing keys, sorted; a group's values are those of its
  rows, the missing ones skipped by \<open>mean\<close> and \<open>count\<close>. The mean of no value is NaN.\<close>

definition group_keys :: "'k::linorder option list \<Rightarrow> 'k list" where
  "group_keys ks = sort (remdups (present ks))"

definition group_values :: "'k option list \<Rightarrow> 'v option list \<Rightarrow> 'k \<Rightarrow> 'v list" where
  "group_values ks vs k = present (map snd (filter (\<lambda>p. fst p = Some k) (zip ks vs)))"

definition py_mean :: "rat list \<Rightarrow> rat option" where
  "py_mean xs = (if xs = [] then None else Some (sum_list xs / of_nat (length xs)))"

definition group_mean :: "'k::linorder option list \<Rightarrow> rat option list \<Rightarrow> ('k \<times> rat option) list" where
  "group_mean ks vs = map (\<lambda>k. (k, py_mean (group_values ks vs k))) (group_keys ks)"

definition group_mean_count ::
  "'k::linorder option list \<Rightarrow> rat option list \<Rightarrow> ('k \<times> rat option \<times> nat) list" where
  "group_mean_count ks vs =
     map (\<lambda>k. (k, py_mean (group_values ks vs k), length (group_values ks vs k))) (group_keys ks)"

text \<open>\<open>sort_values\<close> puts NaN last in both directions (\<open>na_position='last'\<close>).\<close>

definition nan_last_key :: "rat option \<Rightarrow> bool \<times> rat" where
  "nan_last_key m = (case m of None \<Rightarrow> (True, 0) | Some x \<Rightarrow> (False, x))"

definition nan_last_key_desc :: "rat option \<Rightarrow> bool \<times> rat" where
  "nan_last_key_desc m = (case m of None \<Rightarrow> (True, 0) | Some x \<Rightarrow> (False, - x))"

definition sort_means_asc :: "('k \<times> rat option) list \<Rightarrow> ('k \<times> rat option) list" where
  "sort_means_asc kms = sort_key (\<lambda>p. nan_last_key (snd p)) kms"

definition sort_mean_count_desc ::
  "('k \<times> rat option \<times> nat) list \<Rightarrow> ('k \<times> rat option \<times> nat) list" where
  "sort_mean_count_desc kmcs = sort_key (\<lambda>p. nan_last_key_desc (fst (snd p))) kmcs"

subsection \<open>Lemmas on the count table\<close>

lemma map_of_tally_step:
  "map_of (tally_step kns x) k =
     (if k = x then Some (case map_of kns x of None \<Rightarrow> 1 | Some n \<Rightarrow> Suc n) else map_of kns k)"
  by (induction kns x rule: tally_step.induct) auto

lemma keys_tally_step:
  "map fst (tally_step kns x) = (if x \<in> set (map fst kns) then map fst kns else map fst kns @ [x])"
  by (induction kns x rule: tally_step.induct) auto

lemma keys_tally: "map fst (tally xs) = rev (remdups (rev xs))"
proof (induction xs rule: rev_induct)
  case Nil
  then show ?case by (simp add: tally_def)
next
  case (snoc x xs)
  then show ?case by (simp add: tally_def keys_tally_step)
qed

lemma distinct_keys_tally: "distinct (map fst (tally xs))"
  by (simp add: keys_tally)

lemma map_of_foldl_tally_step:
  "map_of (foldl tally_step kns xs) k =
     (case map_of kns k of
        None \<Rightarrow> if k \<in> set xs then Some (count_list xs k) else None
      | Some n \<Rightarrow> Some (n + count_list xs k))"
  by (induction xs arbitrary: kns) (auto simp: map_of_tally_step split: option.split)

lemma map_of_tally: "map_of (tally xs) k = (if k \<in> set xs then Some (count_list xs k) else None)"
  by (simp add: tally_def map_of_foldl_tally_step)

lemma alist_of_keys:
  "distinct (map fst kns) \<Longrightarrow> map (\<lambda>k. (k, the (map_of kns k))) (map fst kns) = kns"
  by (induction kns) (auto intro!: map_idI simp: image_iff)

lemma counts_mset_count:
  "distinct (map fst kns) \<Longrightarrow> count (counts_mset kns) k = (case map_of kns k of None \<Rightarrow> 0 | Some n \<Rightarrow> n)"
proof (induction kns)
  case Nil
  then show ?case by (simp add: counts_mset_def)
next
  case (Cons p kns)
  then have "fst p = k \<Longrightarrow> map_of kns k = None"
    by (auto simp: map_of_eq_None_iff)
  with Cons show ?case
    by (cases p) (auto simp: counts_mset_def split: option.split)
qed

lemma counts_mset_tally [simp]: "counts_mset (tally xs) = mset xs"
  by (simp add: multiset_eq_iff counts_mset_count distinct_keys_tally map_of_tally count_mset
      count_list_0_iff)

lemma counts_mset_perm:
  assumes "mset kns = mset kns'"
  shows "counts_mset kns = counts_mset kns'"
proof -
  have eq: "counts_mset xs = sum_mset (image_mset (\<lambda>p. replicate_mset (snd p) (fst p)) (mset xs))"
    for xs :: "('a \<times> nat) list"
    by (simp add: counts_mset_def sum_mset_sum_list [symmetric])
  show ?thesis using eq [of kns] eq [of kns'] assms by simp
qed

lemma counts_mset_rev [simp]: "counts_mset (rev kns) = counts_mset kns"
  by (rule counts_mset_perm) simp

lemma counts_mset_sort_desc [simp]: "counts_mset (sort_desc_count kns) = counts_mset kns"
  by (rule counts_mset_perm) (simp add: sort_desc_count_def)

lemma size_counts_mset: "size (counts_mset kns) = sum_list (map snd kns)"
  by (induction kns) (auto simp: counts_mset_def)

lemma sorted_sort_desc_count: "sorted (map (\<lambda>p. - int (snd p)) (sort_desc_count kns))"
  by (simp add: sort_desc_count_def)

lemma sort_desc_count_idem: "sort_desc_count (sort_desc_count kns) = sort_desc_count kns"
  by (simp add: sort_desc_count_def sort_key_id_if_sorted)

lemma sorted_rev_of_desc: "sorted (map (\<lambda>p. - int (snd p)) kns) \<Longrightarrow> sorted (map snd (rev kns))"
  by (induction kns) (auto simp: sorted_append rev_map [symmetric])

lemma ranked_counts_rev: "ranked_counts col = rev (value_counts col)"
  by (simp add: ranked_counts_def value_counts_def sort_desc_count_idem)

lemma keys_value_counts:
  "distinct (map fst (value_counts col)) \<and> set (map fst (value_counts col)) = set (present col)"
proof -
  have "mset (map fst (value_counts col)) = mset (map fst (tally (present col)))"
    by (simp add: value_counts_def sort_desc_count_def)
  then have "set (map fst (value_counts col)) = set (map fst (tally (present col)))"
    and "distinct (map fst (value_counts col)) = distinct (map fst (tally (present col)))"
    by (rule mset_eq_setD, rule mset_eq_imp_distinct_iff)
  then show ?thesis
    by (simp add: distinct_keys_tally keys_tally)
qed

subsection \<open>Lemmas on crosstab\<close>

lemma complete_pair_Some:
  "(case p of (x, y) \<Rightarrow> case x of None \<Rightarrow> None | Some a \<Rightarrow> map_option (Pair a) y) = Some q \<longleftrightarrow>
     p = (Some (fst q), Some (snd q))"
  by (cases p; cases "fst p"; cases "snd p"; cases q) auto

lemma set_complete_pairs:
  "set (complete_pairs xs ys) = {(a, b). (Some a, Some b) \<in> set (zip xs ys)}"
proof (intro set_eqI iffI)
  fix q
  assume "q \<in> set (complete_pairs xs ys)"
  then obtain p where "p \<in> set (zip xs ys)"
    and "(case p of (x, y) \<Rightarrow> case x of None \<Rightarrow> None | Some a \<Rightarrow> map_option (Pair a) y) = Some q"
    by (auto simp: complete_pairs_def)
  then show "q \<in> {(a, b). (Some a, Some b) \<in> set (zip xs ys)}"
    by (auto simp: complete_pair_Some)
next
  fix q
  assume "q \<in> {(a, b). (Some a, Some b) \<in> set (zip xs ys)}"
  then have "(Some (fst q), Some (snd q)) \<in> set (zip xs ys)" by auto
  then show "q \<in> set (complete_pairs xs ys)"
    unfolding complete_pairs_def set_present
    by (auto simp: image_iff complete_pair_Some intro!: bexI)
qed

lemma count_list_distinct_member: "distinct cs \<Longrightarrow> x \<in> set cs \<Longrightarrow> count_list cs x = 1"
  by (induction cs) (auto simp: count_list_0_iff)

lemma sum_indicator_pair:
  "sum_list (map (\<lambda>b. if p = (a, b) then 1 else 0) cs) = (if fst p = a then count_list cs (snd p) else (0::nat))"
  by (induction cs) (auto split: prod.splits)

lemma row_sum_counts:
  assumes "distinct cs" and "set (map snd ps) \<subseteq> set cs"
  shows "sum_list (map (\<lambda>b. count_list ps (a, b)) cs) = count_list (map fst ps) a"
  using assms(2)
proof (induction ps)
  case Nil
  then show ?case by (induction cs) simp_all
next
  case (Cons p ps)
  have "(\<lambda>b. count_list (p # ps) (a, b)) =
      (\<lambda>b. count_list ps (a, b) + (if p = (a, b) then 1 else 0))"
    by (auto simp: fun_eq_iff)
  then have "sum_list (map (\<lambda>b. count_list (p # ps) (a, b)) cs) =
      sum_list (map (\<lambda>b. count_list ps (a, b)) cs) +
      sum_list (map (\<lambda>b. if p = (a, b) then 1 else 0) cs)"
    by (simp add: sum_list_addf)
  also have "\<dots> = count_list (map fst ps) a + (if fst p = a then 1 else 0)"
    using Cons assms(1) by (simp add: sum_indicator_pair count_list_distinct_member)
  finally show ?case by simp
qed

lemma crosstab_labels:
  "sorted (tb_rows (crosstab xs ys)) \<and> distinct (tb_rows (crosstab xs ys)) \<and>
   set (tb_rows (crosstab xs ys)) = fst ` set (complete_pairs xs ys) \<and>
   sorted (tb_cols (crosstab xs ys)) \<and> distinct (tb_cols (crosstab xs ys)) \<and>
   set (tb_cols (crosstab xs ys)) = snd ` set (complete_pairs xs ys)"
  by (simp add: crosstab_def Let_def)

lemma crosstab_row_sum:
  assumes "i < length (tb_rows (crosstab xs ys))"
  shows "sum_list (tb_cells (crosstab xs ys) ! i) =
    count_list (map fst (complete_pairs xs ys)) (tb_rows (crosstab xs ys) ! i)"
proof -
  let ?ps = "complete_pairs xs ys"
  have "distinct (sort (remdups (map snd ?ps)))" by simp
  moreover have "set (map snd ?ps) \<subseteq> set (sort (remdups (map snd ?ps)))" by simp
  ultimately show ?thesis
    using assms by (simp add: crosstab_def Let_def row_sum_counts)
qed

lemma crosstab_row_sum_pos:
  assumes "i < length (tb_rows (crosstab xs ys))"
  shows "0 < sum_list (tb_cells (crosstab xs ys) ! i)"
proof -
  have "tb_rows (crosstab xs ys) ! i \<in> set (map fst (complete_pairs xs ys))"
    using nth_mem [OF assms] crosstab_labels [of xs ys] by simp
  then have "count_list (map fst (complete_pairs xs ys)) (tb_rows (crosstab xs ys) ! i) \<noteq> 0"
    by (simp add: count_list_0_iff)
  then show ?thesis
    using crosstab_row_sum [OF assms] by simp
qed

lemma crosstab_cells_length:
  "length (tb_cells (crosstab xs ys)) = length (tb_rows (crosstab xs ys))"
  by (simp add: crosstab_def Let_def)

lemma count_fst_complete_pairs:
  "count_list (map fst (complete_pairs xs ys)) a =
     length (filter (\<lambda>p. fst p = Some a \<and> snd p \<noteq> None) (zip xs ys))"
  unfolding complete_pairs_def
  by (induction xs ys rule: list_induct2') (auto split: option.splits)

lemma sum_percentages:
  assumes "0 < sum_list row"
  shows "sum_list (map (\<lambda>c. of_nat c / of_nat (sum_list row) * 100) row) = (100::rat)"
proof -
  have lin: "sum_list (map (\<lambda>c. of_nat c / s * 100) row) = sum_list (map of_nat row) / s * (100::rat)"
    for s
    by (induction row) (simp_all add: add_divide_distrib distrib_right)
  have pos: "(0::rat) < of_nat (sum_list row)"
    using assms by (simp only: of_nat_0_less_iff)
  have self: "\<And>x::rat. 0 < x \<Longrightarrow> x / x * 100 = 100" by simp
  have "sum_list (map (\<lambda>c. of_nat c / of_nat (sum_list row) * 100) row) =
      sum_list (map of_nat row) / of_nat (sum_list row) * (100::rat)"
    by (rule lin)
  also have "\<dots> = of_nat (sum_list row) / of_nat (sum_list row) * 100"
    by (simp only: sum_list_of_nat)
  also have "\<dots> = 100"
    by (rule self [OF pos])
  finally show ?thesis .
qed

lemma percentage_le_100:
  assumes "c \<in> set row"
  shows "of_nat c / of_nat (sum_list row) * 100 \<le> (100::rat)"
proof (cases "sum_list row = 0")
  case True
  show ?thesis by (simp only: True) simp
next
  case False
  then have pos: "(0::rat) < of_nat (sum_list row)"
    by (simp only: of_nat_0_less_iff neq0_conv)
  have "c \<le> sum_list row"
    using assms by (simp add: member_le_sum_list)
  then have le: "(of_nat c :: rat) \<le> of_nat (sum_list row)"
    by (simp only: of_nat_le_iff)
  have frac: "\<And>a b::rat. 0 < b \<Longrightarrow> a \<le> b \<Longrightarrow> a / b * 100 \<le> 100"
    by (simp add: divide_le_eq)
  show ?thesis by (rule frac [OF pos le])
qed

subsection \<open>Lemmas on groupby\<close>

lemma group_keys_props:
  "sorted (group_keys ks) \<and> distinct (group_keys ks) \<and> set (group_keys ks) = set (present ks)"
  by (simp add: group_keys_def)

text \<open>The keys of the rows whose value is present: what \<open>count\<close> counts per group.\<close>

lemma length_group_values:
  "length (group_values ks vs k) =
     count_list (present (map (\<lambda>p. if snd p = None then None else fst p) (zip ks vs))) k"
proof (induction ks arbitrary: vs)
  case Nil
  then show ?case by (simp add: group_values_def)
next
  case (Cons x ks)
  then show ?case
    by (cases vs) (auto simp: group_values_def split: option.split)
qed

lemma valued_keys_subset:
  "set (present (map (\<lambda>p. if snd p = None then None else fst p) (zip ks vs))) \<subseteq> set (present ks)"
  by (auto dest: set_zip_leftD split: if_splits)

lemma length_valued_keys:
  "length (present (map (\<lambda>p. if snd p = None then None else fst p) (zip ks vs))) =
     length (filter (\<lambda>p. fst p \<noteq> None \<and> snd p \<noteq> None) (zip ks vs))"
proof (induction ks arbitrary: vs)
  case Nil
  then show ?case by simp
next
  case (Cons x ks)
  then show ?case
    by (cases vs) (auto split: option.split)
qed

lemma py_mean_Some:
  "py_mean xs = Some m \<longleftrightarrow> xs \<noteq> [] \<and> m = sum_list xs / of_nat (length xs)"
  by (auto simp: py_mean_def)

lemma py_mean_bounds:
  assumes "py_mean xs = Some m"
  shows "Min (set xs) \<le> m \<and> m \<le> Max (set xs)"
proof -
  from assms have ne: "xs \<noteq> []" and m: "m = sum_list xs / of_nat (length xs)"
    by (simp_all add: py_mean_Some)
  then have pos: "(0::rat) < of_nat (length xs)" by simp
  have "sum_list (map (\<lambda>_. Min (set xs)) xs) \<le> sum_list (map (\<lambda>x. x) xs)"
    using ne by (intro sum_list_mono) simp
  then have lo: "of_nat (length xs) * Min (set xs) \<le> sum_list xs"
    by (simp add: sum_list_triv)
  have "sum_list (map (\<lambda>x. x) xs) \<le> sum_list (map (\<lambda>_. Max (set xs)) xs)"
    using ne by (intro sum_list_mono) simp
  then have hi: "sum_list xs \<le> of_nat (length xs) * Max (set xs)"
    by (simp add: sum_list_triv)
  show ?thesis
    using lo hi pos by (simp add: m pos_le_divide_eq pos_divide_le_eq mult.commute)
qed

lemma nan_last_key_le:
  "nan_last_key a \<le> nan_last_key b \<Longrightarrow>
     (a = None \<longrightarrow> b = None) \<and> (\<forall>x y. a = Some x \<longrightarrow> b = Some y \<longrightarrow> x \<le> y)"
  by (cases a; cases b) (auto simp: nan_last_key_def)

lemma nan_last_key_desc_le:
  "nan_last_key_desc a \<le> nan_last_key_desc b \<Longrightarrow>
     (a = None \<longrightarrow> b = None) \<and> (\<forall>x y. a = Some x \<longrightarrow> b = Some y \<longrightarrow> y \<le> x)"
  by (cases a; cases b) (auto simp: nan_last_key_desc_def)

lemma sort_key_nth_le:
  assumes "i \<le> j" and "j < length xs"
  shows "f (sort_key f xs ! i) \<le> f (sort_key f xs ! j)"
proof -
  have "sorted (map f (sort_key f xs))" by simp
  then have "map f (sort_key f xs) ! i \<le> map f (sort_key f xs) ! j"
    using assms by (intro sorted_nth_mono) simp_all
  with assms show ?thesis by simp
qed

lemma length_complete_pairs:
  "length (complete_pairs xs ys) = length (filter (\<lambda>p. fst p \<noteq> None \<and> snd p \<noteq> None) (zip xs ys))"
proof (induction xs arbitrary: ys)
  case Nil
  then show ?case by (simp add: complete_pairs_def)
next
  case (Cons x xs)
  then show ?case
    by (cases ys) (auto simp: complete_pairs_def split: option.split)
qed

lemma crosstab_row_pos:
  assumes "row \<in> set (tb_cells (crosstab xs ys))"
  shows "0 < sum_list row"
proof -
  from assms obtain i where "i < length (tb_cells (crosstab xs ys))"
    and "row = tb_cells (crosstab xs ys) ! i"
    by (auto simp: in_set_conv_nth)
  then show ?thesis
    using crosstab_row_sum_pos crosstab_cells_length by metis
qed

lemma length_group_values_rows:
  "length (group_values ks vs k) = length (filter (\<lambda>p. fst p = Some k \<and> snd p \<noteq> None) (zip ks vs))"
proof (induction ks arbitrary: vs)
  case Nil
  then show ?case by (simp add: group_values_def)
next
  case (Cons x ks)
  then show ?case
    by (cases vs) (auto simp: group_values_def split: option.split)
qed

subsection \<open>Properties of the aggregations\<close>

text \<open>
  C6. The ranking the script plots for places and products lists each distinct present
  value once, with counts in ascending order (the largest bar drawn at the top).
\<close>

theorem ranked_counts_ascending:
  "sorted (map snd (ranked_counts col)) \<and> distinct (map fst (ranked_counts col)) \<and>
   set (map fst (ranked_counts col)) = set (present col)"
proof -
  have "sorted (map snd (rev (value_counts col)))"
    unfolding value_counts_def by (rule sorted_rev_of_desc [OF sorted_sort_desc_count])
  then show ?thesis
    using keys_value_counts [of col] by (simp add: ranked_counts_rev rev_map [symmetric])
qed

text \<open>
  C7. Refinement of the abstract count: the ranked table, read as a multiset (each value
  repeated as often as its count), is exactly the multiset of present values of the
  column.
\<close>

theorem ranked_counts_refines_mset: "counts_mset (ranked_counts col) = mset (present col)"
  by (simp add: ranked_counts_def value_counts_def)

text \<open>
  C8. \<open>value_counts\<close> over a column with \<open>N\<close> distinct present values has exactly \<open>N\<close>
  entries, and their counts add up to the number of present (non-NaN) cells.
\<close>

theorem ranked_counts_entries:
  "length (ranked_counts col) = card (set (present col)) \<and>
   sum_list (map snd (ranked_counts col)) = length (present col)"
proof -
  have "card (set (map fst (value_counts col))) = length (value_counts col)"
    using keys_value_counts [of col] by (metis distinct_card length_map)
  then have "length (ranked_counts col) = card (set (map fst (ranked_counts col)))"
    by (simp add: ranked_counts_rev rev_map [symmetric])
  moreover have "set (map fst (ranked_counts col)) = set (present col)"
    using keys_value_counts [of col] by (simp add: ranked_counts_rev rev_map [symmetric])
  moreover have "sum_list (map snd (ranked_counts col)) = size (mset (present col))"
    using size_counts_mset [of "ranked_counts col"]
    by (simp add: ranked_counts_def value_counts_def)
  ultimately show ?thesis by simp
qed

text \<open>
  C9. The one-pass hashtable count of \<open>value_counts\<close> equals the reference table: each
  value in order of first occurrence, with the number of its occurrences.
\<close>

theorem tally_reference: "tally xs = map (\<lambda>k. (k, count_list xs k)) (rev (remdups (rev xs)))"
proof -
  have "tally xs = map (\<lambda>k. (k, the (map_of (tally xs) k))) (map fst (tally xs))"
    by (rule alist_of_keys [OF distinct_keys_tally, symmetric])
  also have "\<dots> = map (\<lambda>k. (k, count_list xs k)) (rev (remdups (rev xs)))"
    by (simp add: keys_tally map_of_tally)
  finally show ?thesis .
qed

text \<open>
  The cells of a cross-tabulation add up to the number of rows where both columns
  are present: every complete row is counted once, incomplete rows not at all.
\<close>

theorem crosstab_total:
  "sum_list (map sum_list (tb_cells (crosstab xs ys))) =
     length (filter (\<lambda>p. fst p \<noteq> None \<and> snd p \<noteq> None) (zip xs ys))"
proof -
  let ?ps = "complete_pairs xs ys"
  let ?rs = "sort (remdups (map fst ?ps))" and ?cs = "sort (remdups (map snd ?ps))"
  have "map sum_list (tb_cells (crosstab xs ys)) = map (count_list (map fst ?ps)) ?rs"
    by (simp add: crosstab_def Let_def row_sum_counts)
  moreover have "sum_list (map (count_list (map fst ?ps)) ?rs) = length (map fst ?ps)"
    by (rule sum_count_list_distinct) simp_all
  ultimately show ?thesis by (simp add: length_complete_pairs)
qed

text \<open>
  Each row of a cross-tabulation sums to the number of complete rows with that row
  label, which is positive: a crosstab has no empty row.
\<close>

theorem crosstab_row_totals:
  assumes "i < length (tb_rows (crosstab xs ys))"
  shows "sum_list (tb_cells (crosstab xs ys) ! i) =
      length (filter (\<lambda>p. fst p = Some (tb_rows (crosstab xs ys) ! i) \<and> snd p \<noteq> None) (zip xs ys)) \<and>
    0 < sum_list (tb_cells (crosstab xs ys) ! i)"
  using crosstab_row_sum [OF assms] crosstab_row_sum_pos [OF assms]
  by (simp add: count_fst_complete_pairs)

theorem crosstab_row_totals_witness:
  "sum_list (tb_cells (crosstab [Some (1::nat), Some 1, Some 2, None] [Some (5::nat), Some 6, None, Some 5]) ! 0) = 2"
proof -
  have r: "tb_rows (crosstab [Some (1::nat), Some 1, Some 2, None] [Some (5::nat), Some 6, None, Some 5]) = [1]"
    by (simp add: crosstab_def complete_pairs_def Let_def)
  have "0 < length (tb_rows (crosstab [Some (1::nat), Some 1, Some 2, None] [Some (5::nat), Some 6, None, Some 5]))"
    unfolding r by simp
  from crosstab_row_totals [OF this] show ?thesis unfolding r by simp
qed

text \<open>
  C11. Every row of the payment-percentage table sums to exactly 100 and has no NaN
  cell: applied to a cross-tabulation, the row normalisation never divides by zero, so
  the zero-sum edge case the spec leaves open cannot occur.
\<close>

theorem row_percentages_sum_100:
  assumes "r \<in> set (tb_cells (row_percentages (crosstab xs ys)))"
  shows "None \<notin> set r \<and> sum_list (present r) = 100"
proof -
  from assms obtain row where row: "row \<in> set (tb_cells (crosstab xs ys))"
    and r0: "r = map (\<lambda>c. if sum_list row = 0 then None
                          else Some (of_nat c / of_nat (sum_list row) * 100)) row"
    by (auto simp: row_percentages_def Let_def)
  have "sum_list row \<noteq> 0"
    using crosstab_row_pos [OF row] by (simp only: neq0_conv)
  then have r: "r = map (\<lambda>c. Some (of_nat c / of_nat (sum_list row) * 100)) row"
    by (simp add: r0)
  have "present r = map (\<lambda>c. of_nat c / of_nat (sum_list row) * 100) row"
    by (simp only: r present_map_Some_comp)
  then show ?thesis
    using sum_percentages [OF crosstab_row_pos [OF row]] by (auto simp: r)
qed

theorem row_percentages_sum_100_witness:
  "sum_list (present (hd (tb_cells (row_percentages
     (crosstab [Some (1::nat), Some 1, Some 1] [Some (5::nat), Some 6, Some 6]))))) = 100"
proof -
  have c: "tb_cells (row_percentages (crosstab [Some (1::nat), Some 1, Some 1] [Some (5::nat), Some 6, Some 6]))
      = [[Some (100 / 3), Some (200 / 3)]]"
    by (simp add: row_percentages_def crosstab_def complete_pairs_def)
  have "hd (tb_cells (row_percentages (crosstab [Some (1::nat), Some 1, Some 1] [Some (5::nat), Some 6, Some 6])))
      \<in> set (tb_cells (row_percentages (crosstab [Some (1::nat), Some 1, Some 1] [Some (5::nat), Some 6, Some 6])))"
    unfolding c by simp
  from row_percentages_sum_100 [OF this] show ?thesis by simp
qed

text \<open>
  Every percentage of a row-normalised table lies between 0 and 100.
\<close>

theorem row_percentages_bounds:
  assumes "r \<in> set (tb_cells (row_percentages t))" and "Some v \<in> set r"
  shows "0 \<le> v \<and> v \<le> 100"
proof -
  from assms obtain row c where "row \<in> set (tb_cells t)" and "c \<in> set row"
    and v: "v = of_nat c / of_nat (sum_list row) * 100"
    by (auto simp: row_percentages_def Let_def split: if_splits)
  then show ?thesis
    using percentage_le_100 [of c row] by simp
qed

theorem row_percentages_bounds_witness:
  "0 \<le> (100 / 3 :: rat) \<and> (100 / 3 :: rat) \<le> 100"
proof -
  let ?t = "\<lparr>tb_rows = [1::nat], tb_cols = [5::nat, 6], tb_cells = [[1, 2]]\<rparr>"
  have "[Some (100 / 3), Some (200 / 3)] \<in> set (tb_cells (row_percentages ?t))"
    by (simp add: row_percentages_def)
  moreover have "Some (100 / 3) \<in> set [Some (100 / 3 :: rat), Some (200 / 3)]" by simp
  ultimately show ?thesis by (rule row_percentages_bounds)
qed

text \<open>
  C13. For each group of \<open>groupby(k)[v].mean()\<close>: its key occurs in the key column, its
  mean is NaN exactly when the group has no present value, otherwise the mean times the
  number of present values is their sum; that number is the count of rows with this key
  and a present value.
\<close>

theorem group_mean_correct:
  assumes "(k, m) \<in> set (group_mean ks vs)"
  shows "Some k \<in> set ks \<and> (m = None \<longleftrightarrow> group_values ks vs k = []) \<and>
    (\<forall>x. m = Some x \<longrightarrow> x * of_nat (length (group_values ks vs k)) = sum_list (group_values ks vs k)) \<and>
    length (group_values ks vs k) = length (filter (\<lambda>p. fst p = Some k \<and> snd p \<noteq> None) (zip ks vs))"
proof -
  from assms have k: "k \<in> set (group_keys ks)" and m: "m = py_mean (group_values ks vs k)"
    by (auto simp: group_mean_def)
  from k have "Some k \<in> set ks" by (simp add: group_keys_def)
  moreover have "m = None \<longleftrightarrow> group_values ks vs k = []"
    by (simp add: m py_mean_def)
  moreover have "\<forall>x. m = Some x \<longrightarrow>
      x * of_nat (length (group_values ks vs k)) = sum_list (group_values ks vs k)"
    by (simp add: m py_mean_def)
  ultimately show ?thesis
    using length_group_values_rows [of ks vs k] by blast
qed

theorem group_mean_correct_witness:
  "Some (1::nat) \<in> set [Some 1, Some 2, Some 1] \<and>
   group_mean [Some (1::nat), Some 2, Some 1] [Some 5, Some (15 / 2), Some 10] =
     [(1, Some (15 / 2)), (2, Some (15 / 2))]"
proof -
  have g: "group_mean [Some (1::nat), Some 2, Some 1] [Some 5, Some (15 / 2), Some 10] =
      [(1, Some (15 / 2)), (2, Some (15 / 2))]"
    by (simp add: group_mean_def group_keys_def group_values_def py_mean_def)
  have "(1, Some (15 / 2)) \<in> set (group_mean [Some (1::nat), Some 2, Some 1] [Some 5, Some (15 / 2), Some 10])"
    unfolding g by simp
  from group_mean_correct [OF this] g show ?thesis by simp
qed

text \<open>
  A group's mean lies between the smallest and the largest present value of the
  group.
\<close>

theorem group_mean_bounds:
  assumes "(k, Some x) \<in> set (group_mean ks vs)"
  shows "Min (set (group_values ks vs k)) \<le> x \<and> x \<le> Max (set (group_values ks vs k))"
proof -
  from assms have "py_mean (group_values ks vs k) = Some x"
    by (auto simp: group_mean_def)
  then show ?thesis by (rule py_mean_bounds)
qed

theorem group_mean_bounds_witness:
  "Min (set (group_values [Some (1::nat), Some 1] [Some (5::rat), Some 10] 1)) \<le> 15 / 2"
proof -
  have "(1, Some (15 / 2)) \<in> set (group_mean [Some (1::nat), Some 1] [Some (5::rat), Some 10])"
    by (simp add: group_mean_def group_keys_def group_values_def py_mean_def)
  from group_mean_bounds [OF this] show ?thesis by simp
qed

text \<open>
  C15. \<open>sort_values(ascending=True)\<close> on a series of means (average ticket by place)
  keeps its entries and orders them: NaN entries come after every number, and numbers
  ascend.
\<close>

theorem sort_means_asc_order:
  assumes "i \<le> j" and "j < length (sort_means_asc kms)"
  shows "mset (sort_means_asc kms) = mset kms \<and>
    (snd (sort_means_asc kms ! i) = None \<longrightarrow> snd (sort_means_asc kms ! j) = None) \<and>
    (\<forall>x y. snd (sort_means_asc kms ! i) = Some x \<longrightarrow> snd (sort_means_asc kms ! j) = Some y \<longrightarrow> x \<le> y)"
proof -
  have "nan_last_key (snd (sort_means_asc kms ! i)) \<le> nan_last_key (snd (sort_means_asc kms ! j))"
    using assms unfolding sort_means_asc_def
    by (intro sort_key_nth_le [where f = "\<lambda>p. nan_last_key (snd p)", simplified]) simp_all
  then show ?thesis
    by (simp add: sort_means_asc_def nan_last_key_le)
qed

theorem sort_means_asc_order_witness:
  "sort_means_asc [(1::nat, None), (2, Some 3), (3, Some (1::rat))] = [(3, Some 1), (2, Some 3), (1, None)] \<and>
   snd (sort_means_asc [(1::nat, None), (2, Some 3), (3, Some (1::rat))] ! 2) = None"
proof -
  have s: "sort_means_asc [(1::nat, None), (2, Some 3), (3, Some (1::rat))] = [(3, Some 1), (2, Some 3), (1, None)]"
    by (simp add: sort_means_asc_def nan_last_key_def)
  have "(0::nat) \<le> 2" and "2 < length (sort_means_asc [(1::nat, None), (2, Some 3), (3, Some (1::rat))])"
    unfolding s by simp_all
  from sort_means_asc_order [OF this] s show ?thesis by simp
qed

text \<open>
  C16. \<open>sort_values('mean', ascending=False)\<close> on the mean/count table (average ticket by
  product) keeps its rows and orders them by descending mean, NaN means last.
\<close>

theorem sort_mean_count_desc_order:
  assumes "i \<le> j" and "j < length (sort_mean_count_desc kmcs)"
  shows "mset (sort_mean_count_desc kmcs) = mset kmcs \<and>
    (fst (snd (sort_mean_count_desc kmcs ! i)) = None \<longrightarrow> fst (snd (sort_mean_count_desc kmcs ! j)) = None) \<and>
    (\<forall>x y. fst (snd (sort_mean_count_desc kmcs ! i)) = Some x \<longrightarrow>
       fst (snd (sort_mean_count_desc kmcs ! j)) = Some y \<longrightarrow> y \<le> x)"
proof -
  have "nan_last_key_desc (fst (snd (sort_mean_count_desc kmcs ! i))) \<le>
      nan_last_key_desc (fst (snd (sort_mean_count_desc kmcs ! j)))"
    using assms unfolding sort_mean_count_desc_def
    by (intro sort_key_nth_le [where f = "\<lambda>p. nan_last_key_desc (fst (snd p))", simplified]) simp_all
  then show ?thesis
    by (simp add: sort_mean_count_desc_def nan_last_key_desc_le)
qed

theorem sort_mean_count_desc_order_witness:
  "sort_mean_count_desc [(1::nat, Some (1::rat), 2::nat), (2, Some 3, 1)] = [(2, Some 3, 1), (1, Some 1, 2)]"
proof -
  have s: "sort_mean_count_desc [(1::nat, Some (1::rat), 2::nat), (2, Some 3, 1)] = [(2, Some 3, 1), (1, Some 1, 2)]"
    by (simp add: sort_mean_count_desc_def nan_last_key_desc_def)
  have "(0::nat) \<le> 1" and "1 < length (sort_mean_count_desc [(1::nat, Some (1::rat), 2::nat), (2, Some 3, 1)])"
    unfolding s by simp_all
  from sort_mean_count_desc_order [OF this] s show ?thesis by simp
qed

text \<open>
  The counts of \<open>agg(['mean', 'count'])\<close> add up to the number of rows with a
  present key and a present value.
\<close>

theorem group_mean_count_total:
  "sum_list (map (\<lambda>t. snd (snd t)) (group_mean_count ks vs)) =
     length (filter (\<lambda>p. fst p \<noteq> None \<and> snd p \<noteq> None) (zip ks vs))"
proof -
  let ?V = "present (map (\<lambda>p. if snd p = None then None else fst p) (zip ks vs))"
  have "map (\<lambda>t. snd (snd t)) (group_mean_count ks vs) = map (count_list ?V) (group_keys ks)"
    by (simp add: group_mean_count_def length_group_values)
  moreover have "sum_list (map (count_list ?V) (group_keys ks)) = length ?V"
    using valued_keys_subset [of ks vs] group_keys_props [of ks]
    by (intro sum_count_list_distinct) auto
  ultimately show ?thesis by (simp add: length_valued_keys)
qed

end
