(* ===== verification/Histogram.thy ===== *)
theory Histogram
  imports Prelude
begin

text \<open>
  The two histograms of \<open>src/wine_analysis.py\<close> and the ordinal encoding behind the
  second one.
  \<^item> \<open>freq_map\<close> and \<open>freq_num\<close> model lines 105--113: \<open>Series.map(dict)\<close> gives the
    mapped number, and NaN (\<open>None\<close>) for a missing cell or a label not in the map.
  \<^item> \<open>hist_edges_counts\<close> is \<open>numpy.histogram\<close> with explicit bin edges as numpy
    computes it: cumulative counts by \<open>searchsorted\<close> (left at every edge but the last,
    right at the last) and their differences; \<open>freq_histogram\<close> is
    \<open>plt.hist(df['Freq_num'].dropna(), bins=range(1,8), align='left')\<close> (line 115), one
    bar per bin drawn at the bin's left edge.
  \<^item> \<open>uniform_histogram\<close> is \<open>plt.hist(df['Ticket'], bins=20)\<close> (line 96): matplotlib
    passes the range \<open>(nanmin, nanmax)\<close> of the data to numpy, which widens a range of
    one point by 0.5 on each side, keeps the values inside it, and computes each bin index
    as \<open>floor((x - lo) / (hi - lo) * n)\<close>, the value \<open>hi\<close> going into the last bin.
    numpy's float corrections of that index are no-ops in exact arithmetic.
\<close>

subsection \<open>The ordinal frequency encoding\<close>

definition freq_map :: "(ustr \<times> nat) list" where
  "freq_map =
     [(py_str ''Once per month'', 1), (py_str ''More than once per month'', 2),
      (py_str ''1 to 2 times per week'', 3), (py_str ''3 to 4 times per week'', 4),
      (py_str ''5 to 6 times per week'', 5), (py_str ''Once per day'', 7)]"

definition freq_num :: "cell list \<Rightarrow> nat option list" where
  "freq_num col = map (\<lambda>c. Option.bind c (map_of freq_map)) col"

subsection \<open>numpy.histogram with explicit edges\<close>

definition count_below :: "rat list \<Rightarrow> rat \<Rightarrow> nat" where
  "count_below xs e = length (filter (\<lambda>x. x < e) xs)"

definition count_upto :: "rat list \<Rightarrow> rat \<Rightarrow> nat" where
  "count_upto xs e = length (filter (\<lambda>x. x \<le> e) xs)"

definition hist_edges_counts :: "rat list \<Rightarrow> rat list \<Rightarrow> nat list" where
  "hist_edges_counts es xs =
     (let cum = map (count_below xs) (butlast es) @ [count_upto xs (last es)]
      in map (\<lambda>i. cum ! Suc i - cum ! i) [0..<length es - 1])"

definition freq_edges :: "rat list" where
  "freq_edges = map of_nat [1..<8]"

text \<open>The bars of the frequency histogram: left edge of each bin and its count.\<close>

definition freq_histogram :: "cell list \<Rightarrow> (rat \<times> nat) list" where
  "freq_histogram col =
     zip (butlast freq_edges) (hist_edges_counts freq_edges (map of_nat (present (freq_num col))))"

subsection \<open>numpy.histogram with a number of equal bins\<close>

definition hist_range :: "rat list \<Rightarrow> rat \<times> rat" where
  "hist_range xs =
     (if xs = [] then (0, 1)
      else let lo = Min (set xs); hi = Max (set xs)
           in if lo = hi then (lo - 1 / 2, hi + 1 / 2) else (lo, hi))"

definition bin_index :: "nat \<Rightarrow> rat \<Rightarrow> rat \<Rightarrow> rat \<Rightarrow> nat" where
  "bin_index n lo hi x = (let i = nat \<lfloor>(x - lo) / (hi - lo) * of_nat n\<rfloor> in if i = n then n - 1 else i)"

definition bin_edges :: "nat \<Rightarrow> rat \<Rightarrow> rat \<Rightarrow> rat list" where
  "bin_edges n lo hi = map (\<lambda>i. lo + of_nat i * (hi - lo) / of_nat n) [0..<Suc n]"

definition uniform_histogram :: "nat \<Rightarrow> rat list \<Rightarrow> rat list \<times> nat list" where
  "uniform_histogram n xs =
     (case hist_range xs of
        (lo, hi) \<Rightarrow>
          let keep = filter (\<lambda>x. lo \<le> x \<and> x \<le> hi) xs;
              idx = map (bin_index n lo hi) keep
          in (bin_edges n lo hi, map (count_list idx) [0..<n]))"

text \<open>
  numpy's check of an autodetected range (\<open>_get_outer_edges\<close>): the range must be
  finite, or \<open>np.histogram\<close> raises \<open>ValueError\<close>. \<open>float()\<close> reads a decimal of magnitude
  at least \<open>2^1024 - 2^970\<close> (half a unit above the largest double) as \<open>inf\<close>, so a
  value of the model is finite exactly when it is below that bound. The check is made on
  the first and last edges of the histogram, which are the range of the data except for
  the widening of a one-point range by 0.5.
\<close>

definition float_max_bound :: rat where
  "float_max_bound = 2 ^ 1024 - 2 ^ 970"

definition float_finite :: "rat \<Rightarrow> bool" where
  "float_finite x \<longleftrightarrow> \<bar>x\<bar> < float_max_bound"

definition hist_finite :: "rat list \<times> nat list \<Rightarrow> bool" where
  "hist_finite h \<longleftrightarrow> float_finite (hd (fst h)) \<and> float_finite (last (fst h))"

subsection \<open>Lemmas on the binning\<close>

lemma count_below_mono: "a \<le> b \<Longrightarrow> count_below xs a \<le> count_below xs b"
  by (induction xs) (auto simp: count_below_def)

lemma count_below_le_upto: "a \<le> b \<Longrightarrow> count_below xs a \<le> count_upto xs b"
  by (induction xs) (auto simp: count_below_def count_upto_def)

lemma count_between:
  "a \<le> b \<Longrightarrow> count_below xs b - count_below xs a = length (filter (\<lambda>x. a \<le> x \<and> x < b) xs)"
proof (induction xs)
  case Nil
  then show ?case by (simp add: count_below_def)
next
  case (Cons y ys)
  have "count_below ys a \<le> count_below ys b"
    using Cons.prems by (rule count_below_mono)
  with Cons show ?case by (auto simp: count_below_def)
qed

lemma count_between_last:
  "a \<le> b \<Longrightarrow> count_upto xs b - count_below xs a = length (filter (\<lambda>x. a \<le> x \<and> x \<le> b) xs)"
proof (induction xs)
  case Nil
  then show ?case by (simp add: count_below_def count_upto_def)
next
  case (Cons y ys)
  have "count_below ys a \<le> count_upto ys b"
    using Cons.prems by (rule count_below_le_upto)
  with Cons show ?case by (auto simp: count_below_def count_upto_def)
qed

lemma hist_edges_counts_nth:
  assumes "sorted es" and "i < length es - 1"
  shows "hist_edges_counts es xs ! i =
    length (filter (\<lambda>x. es ! i \<le> x \<and> (x < es ! Suc i \<or> Suc i = length es - 1 \<and> x = es ! Suc i)) xs)"
proof -
  let ?cum = "map (count_below xs) (butlast es) @ [count_upto xs (last es)]"
  have le: "es ! i \<le> es ! Suc i"
    using assms by (intro sorted_nth_mono) auto
  have ci: "?cum ! i = count_below xs (es ! i)"
    using assms(2) by (simp add: nth_append nth_butlast)
  have h: "hist_edges_counts es xs ! i = ?cum ! Suc i - ?cum ! i"
    using assms(2) by (simp add: hist_edges_counts_def Let_def)
  show ?thesis
  proof (cases "Suc i = length es - 1")
    case True
    have ne: "es \<noteq> []" using assms(2) by auto
    with True have "?cum ! Suc i = count_upto xs (es ! Suc i)"
      using assms(2) by (simp add: nth_append last_conv_nth)
    moreover have "filter (\<lambda>x. es ! i \<le> x \<and> (x < es ! Suc i \<or> Suc i = length es - 1 \<and> x = es ! Suc i)) xs
        = filter (\<lambda>x. es ! i \<le> x \<and> x \<le> es ! Suc i) xs"
      using True by (intro filter_cong) auto
    ultimately show ?thesis
      using h ci count_between_last [OF le, of xs] by simp
  next
    case False
    then have "?cum ! Suc i = count_below xs (es ! Suc i)"
      using assms(2) by (simp add: nth_append nth_butlast)
    then show ?thesis
      using False h ci count_between [OF le, of xs] by simp
  qed
qed

lemma freq_num_Some:
  "Option.bind c (map_of freq_map) = Some v \<Longrightarrow> v \<in> {1, 2, 3, 4, 5, 7}"
  by (cases c) (auto simp: freq_map_def split: if_splits)

lemma freq_values:
  "v \<in> set (present (freq_num col)) \<Longrightarrow> v \<in> {1, 2, 3, 4, 5, 7}"
proof -
  assume "v \<in> set (present (freq_num col))"
  then obtain c where "Option.bind c (map_of freq_map) = Some v"
    by (auto simp: freq_num_def)
  then show ?thesis by (rule freq_num_Some)
qed

lemma filter_of_nat_unit:
  "length (filter (\<lambda>x. of_nat k \<le> x \<and> x < of_nat k + 1) (map (of_nat :: nat \<Rightarrow> rat) ns)) = count_list ns k"
proof -
  have lt: "(of_nat n::rat) < of_nat k + 1 \<longleftrightarrow> n < Suc k" for n
    using of_nat_less_iff [of n "Suc k", where 'a = rat] by (simp add: add.commute)
  show ?thesis
    by (induction ns) (auto simp: lt)
qed

lemma sorted_freq_edges: "sorted freq_edges"
  unfolding freq_edges_def by code_simp

lemma hist_freq_edges:
  "hist_edges_counts freq_edges (map of_nat ns) =
     [count_list ns 1, count_list ns 2, count_list ns 3, count_list ns 4, count_list ns 5,
      count_list ns 6 + count_list ns 7]"
proof (rule nth_equalityI)
  show "length (hist_edges_counts freq_edges (map of_nat ns)) =
      length [count_list ns 1, count_list ns 2, count_list ns 3, count_list ns 4, count_list ns 5,
        count_list ns 6 + count_list ns 7]"
    by (simp add: hist_edges_counts_def freq_edges_def Let_def)
next
  fix i
  assume "i < length (hist_edges_counts freq_edges (map of_nat ns))"
  then have i: "i < 6" by (simp add: hist_edges_counts_def freq_edges_def Let_def)
  have e: "freq_edges ! i = of_nat (Suc i)" "freq_edges ! Suc i = of_nat (Suc i) + 1"
    "length freq_edges = 7"
    using i by (simp_all add: freq_edges_def)
  have h: "hist_edges_counts freq_edges (map of_nat ns) ! i =
      length (filter (\<lambda>x. of_nat (Suc i) \<le> x \<and> (x < of_nat (Suc i) + 1 \<or> Suc i = 6 \<and> x = of_nat (Suc i) + 1))
        (map (of_nat :: nat \<Rightarrow> rat) ns))"
    using hist_edges_counts_nth [OF sorted_freq_edges, of i] i e by simp
  show "hist_edges_counts freq_edges (map of_nat ns) ! i =
      [count_list ns 1, count_list ns 2, count_list ns 3, count_list ns 4, count_list ns 5,
       count_list ns 6 + count_list ns 7] ! i"
  proof (cases "i = 5")
    case True
    have "((6::rat) \<le> of_nat n \<and> (of_nat n < (7::rat) \<or> of_nat n = (7::rat))) = (n = 6 \<or> n = 7)"
      for n :: nat
      by auto
    then have "length (filter (\<lambda>x. (6::rat) \<le> x \<and> (x < 7 \<or> x = 7)) (map of_nat ns)) =
        length (filter (\<lambda>n. n = 6 \<or> n = 7) ns)"
      by (simp add: comp_def)
    also have "\<dots> = count_list ns 6 + count_list ns 7"
      by (induction ns) auto
    finally have "length (filter (\<lambda>x. (6::rat) \<le> x \<and> (x < 7 \<or> x = 7)) (map of_nat ns)) =
        count_list ns 6 + count_list ns 7" .
    with h True show ?thesis by simp
  next
    case False
    with h have "hist_edges_counts freq_edges (map of_nat ns) ! i = count_list ns (Suc i)"
      using filter_of_nat_unit [of "Suc i" ns] by simp
    with False i show ?thesis
      by (auto simp: less_Suc_eq numeral_eq_Suc)
  qed
qed

lemma bin_index_floor:
  assumes "0 < n" and "lo < hi" and "lo \<le> x" and "x \<le> hi"
  shows "bin_index n lo hi x < n \<and>
    of_nat (bin_index n lo hi x) \<le> (x - lo) / (hi - lo) * of_nat n \<and>
    ((x - lo) / (hi - lo) * of_nat n < of_nat (bin_index n lo hi x) + 1 \<or> bin_index n lo hi x = n - 1)"
proof -
  define t where "t = (x - lo) / (hi - lo) * (of_nat n :: rat)"
  have t0: "0 \<le> t" using assms by (simp add: t_def)
  have "(x - lo) / (hi - lo) \<le> 1" using assms by simp
  then have tn: "t \<le> of_nat n"
    using mult_right_mono [of "(x - lo) / (hi - lo)" 1 "of_nat n :: rat"] by (simp add: t_def)
  define k where "k = nat \<lfloor>t\<rfloor>"
  have kt: "of_nat k \<le> t" and tk: "t < of_nat k + 1"
    using t0 by (simp_all add: k_def floor_le_iff [symmetric])
  have "k \<le> n" using kt tn by linarith
  have b: "bin_index n lo hi x = (if k = n then n - 1 else k)"
    by (simp add: bin_index_def k_def t_def Let_def)
  show ?thesis
  proof (cases "k = n")
    case True
    with kt assms(1) have "of_nat (n - 1) \<le> t" by (simp add: of_nat_diff)
    with True b assms(1) show ?thesis by (simp add: t_def)
  next
    case False
    with \<open>k \<le> n\<close> b kt tk show ?thesis by (simp add: t_def)
  qed
qed

lemma nth_bin_edges:
  "j \<le> n \<Longrightarrow> bin_edges n lo hi ! j = lo + of_nat j * (hi - lo) / of_nat n"
  by (simp add: bin_edges_def nth_append)

lemma edge_le_iff:
  fixes lo hi x a :: rat
  assumes "0 < n" and "lo < hi"
  shows "lo + a * (hi - lo) / of_nat n \<le> x \<longleftrightarrow> a \<le> (x - lo) / (hi - lo) * of_nat n"
proof -
  have n: "0 < (of_nat n :: rat)" and d: "0 < hi - lo" using assms by simp_all
  have "lo + a * (hi - lo) / of_nat n \<le> x \<longleftrightarrow> a * (hi - lo) / of_nat n \<le> x - lo"
    by linarith
  also have "\<dots> \<longleftrightarrow> a * (hi - lo) \<le> (x - lo) * of_nat n"
    using n by (rule pos_divide_le_eq)
  also have "\<dots> \<longleftrightarrow> a \<le> (x - lo) / (hi - lo) * of_nat n"
    using d by (simp add: pos_le_divide_eq mult.commute)
  finally show ?thesis .
qed

lemma edge_less_iff:
  fixes lo hi x a :: rat
  assumes "0 < n" and "lo < hi"
  shows "x < lo + a * (hi - lo) / of_nat n \<longleftrightarrow> (x - lo) / (hi - lo) * of_nat n < a"
  using edge_le_iff [OF assms, of a x] by linarith

lemma hist_range_bounds:
  assumes "xs \<noteq> []" and "hist_range xs = (lo, hi)"
  shows "lo < hi \<and> (\<forall>x\<in>set xs. lo \<le> x \<and> x \<le> hi)"
proof -
  have mn: "Min (set xs) \<le> x \<and> x \<le> Max (set xs)" if "x \<in> set xs" for x
    using that by simp
  have le: "Min (set xs) \<le> Max (set xs)" using assms(1) by simp
  show ?thesis
  proof (cases "Min (set xs) = Max (set xs)")
    case True
    then have l: "lo = Max (set xs) - 1 / 2" and h: "hi = Max (set xs) + 1 / 2"
      using assms by (simp_all add: hist_range_def Let_def)
    have "lo \<le> x \<and> x \<le> hi" if "x \<in> set xs" for x
      using mn [OF that] True l h by linarith
    then show ?thesis using l h by simp
  next
    case False
    then have "lo = Min (set xs)" and "hi = Max (set xs)"
      using assms by (simp_all add: hist_range_def Let_def)
    then show ?thesis using mn le False by auto
  qed
qed

lemma freq_bind_None:
  "Option.bind c (map_of freq_map) = None \<longleftrightarrow> c = None \<or> the c \<notin> fst ` set freq_map"
  by (cases c) (simp_all add: map_of_eq_None_iff)

subsection \<open>Properties of the histograms\<close>

text \<open>
  C18. The ordinal encoding \<open>Freq_num\<close> is missing exactly for a missing label or a
  label outside the six-entry map (not 0, not 5), and every encoded value is one of
  1, 2, 3, 4, 5 or 7: the value 6 never occurs.
\<close>

theorem freq_num_spec:
  assumes "i < length col"
  shows "(freq_num col ! i = None \<longleftrightarrow> (\<forall>s. col ! i = Some s \<longrightarrow> s \<notin> fst ` set freq_map)) \<and>
    (\<forall>v. freq_num col ! i = Some v \<longrightarrow> v \<in> {1, 2, 3, 4, 5, 7})"
proof -
  have f: "freq_num col ! i = Option.bind (col ! i) (map_of freq_map)"
    using assms by (simp add: freq_num_def)
  have v: "freq_num col ! i = Some v \<Longrightarrow> v \<in> {1, 2, 3, 4, 5, 7}" for v
    using f freq_num_Some [of "col ! i" v] by simp
  have n: "freq_num col ! i = None \<longleftrightarrow> (\<forall>s. col ! i = Some s \<longrightarrow> s \<notin> fst ` set freq_map)"
    unfolding f by (cases "col ! i") (simp_all add: map_of_eq_None_iff)
  show ?thesis using v n by blast
qed

theorem freq_num_spec_witness:
  "freq_num [Some (py_str ''Never''), Some (py_str ''Once per day'')] = [None, Some 7]"
proof -
  have "0 < length [Some (py_str ''Never''), Some (py_str ''Once per day'')]" by simp
  from freq_num_spec [OF this] show ?thesis
    by (simp add: freq_num_def freq_map_def py_str_def)
qed

text \<open>
  C19. Refinement of numpy's cumulative computation: with increasing edges, bin \<open>i\<close>
  counts the values in the half-open interval from edge \<open>i\<close> to edge \<open>i+1\<close>, the last
  bin the values in the closed interval.
\<close>

theorem hist_edges_counts_bins:
  assumes "sorted es" and "i < length es - 1"
  shows "(Suc i < length es - 1 \<longrightarrow>
      hist_edges_counts es xs ! i = length (filter (\<lambda>x. es ! i \<le> x \<and> x < es ! Suc i) xs)) \<and>
    (Suc i = length es - 1 \<longrightarrow>
      hist_edges_counts es xs ! i = length (filter (\<lambda>x. es ! i \<le> x \<and> x \<le> es ! Suc i) xs))"
proof -
  have h: "hist_edges_counts es xs ! i =
      length (filter (\<lambda>x. es ! i \<le> x \<and> (x < es ! Suc i \<or> Suc i = length es - 1 \<and> x = es ! Suc i)) xs)"
    by (rule hist_edges_counts_nth [OF assms])
  have "Suc i < length es - 1 \<Longrightarrow>
      filter (\<lambda>x. es ! i \<le> x \<and> (x < es ! Suc i \<or> Suc i = length es - 1 \<and> x = es ! Suc i)) xs =
      filter (\<lambda>x. es ! i \<le> x \<and> x < es ! Suc i) xs"
    by (intro filter_cong) auto
  moreover have "Suc i = length es - 1 \<Longrightarrow>
      filter (\<lambda>x. es ! i \<le> x \<and> (x < es ! Suc i \<or> Suc i = length es - 1 \<and> x = es ! Suc i)) xs =
      filter (\<lambda>x. es ! i \<le> x \<and> x \<le> es ! Suc i) xs"
    by (intro filter_cong) auto
  ultimately show ?thesis using h by simp
qed

theorem hist_edges_counts_bins_witness:
  "hist_edges_counts [0, 1, 2] [0, 1, 2, 2] = [1, 3]"
proof -
  have "sorted [0, 1, 2::rat]" and "1 < length [0, 1, 2::rat] - 1" by simp_all
  from hist_edges_counts_bins [OF this, of "[0, 1, 2, 2]"] show ?thesis
    by (simp add: hist_edges_counts_def count_below_def count_upto_def)
qed

text \<open>
  C20. The frequency histogram has six bars, at 1, 2, 3, 4, 5 and 6, with the numbers of
  rows encoded 1 to 5 and, at 6, the number of rows encoded 7 ("Once per day"): the
  last bin \<open>[6, 7]\<close> is drawn at its left edge, so the gap at 6 of the encoding does
  not appear in the chart.
\<close>

theorem freq_histogram_bars:
  "freq_histogram col =
     [(1, count_list (present (freq_num col)) 1), (2, count_list (present (freq_num col)) 2),
      (3, count_list (present (freq_num col)) 3), (4, count_list (present (freq_num col)) 4),
      (5, count_list (present (freq_num col)) 5), (6, count_list (present (freq_num col)) 7)]"
proof -
  have "count_list (present (freq_num col)) 6 = 0"
    using freq_values [of 6 col] by (auto simp: count_list_0_iff)
  then show ?thesis
    by (simp add: freq_histogram_def hist_freq_edges) (simp add: freq_edges_def upt_rec)
qed

text \<open>
  C21. The bars of the frequency histogram add up to the number of rows whose label is
  in the frequency map: rows with an unmapped or missing label are left out of this
  chart only.
\<close>

theorem freq_histogram_total:
  "sum_list (map snd (freq_histogram col)) =
     length (filter (\<lambda>c. c \<noteq> None \<and> the c \<in> fst ` set freq_map) col)"
proof -
  let ?ns = "present (freq_num col)"
  have "sum_list (map snd (freq_histogram col)) = sum_list (map (count_list ?ns) [1, 2, 3, 4, 5, 6, 7])"
    by (simp add: freq_histogram_def hist_freq_edges) (simp add: freq_edges_def upt_rec)
  also have "\<dots> = length ?ns"
    using freq_values [of _ col] by (intro sum_count_list_distinct) auto
  also have "\<dots> = length (filter (\<lambda>c. Option.bind c (map_of freq_map) \<noteq> None) col)"
    by (simp add: freq_num_def length_present_filter filter_map comp_def)
  also have "\<dots> = length (filter (\<lambda>c. c \<noteq> None \<and> the c \<in> fst ` set freq_map) col)"
    by (simp add: freq_bind_None)
  finally show ?thesis .
qed

text \<open>
  C22. For a data range \<open>lo < hi\<close> and a value inside it, the bin index of an equal-width
  histogram is one of the \<open>n\<close> bins, and the value lies in that bin: at or above its left
  edge and below its right edge, or in the last bin, which also holds \<open>hi\<close>.
\<close>

theorem bin_index_in_bin:
  assumes "0 < n" and "lo < hi" and "lo \<le> x" and "x \<le> hi"
  shows "bin_index n lo hi x < n \<and> bin_edges n lo hi ! bin_index n lo hi x \<le> x \<and>
    (x < bin_edges n lo hi ! Suc (bin_index n lo hi x) \<or> bin_index n lo hi x = n - 1)"
proof -
  let ?i = "bin_index n lo hi x"
  have b: "?i < n" "of_nat ?i \<le> (x - lo) / (hi - lo) * of_nat n"
    "(x - lo) / (hi - lo) * of_nat n < of_nat ?i + 1 \<or> ?i = n - 1"
    using bin_index_floor [OF assms] by simp_all
  have "bin_edges n lo hi ! ?i \<le> x"
    using b(1,2) by (simp add: nth_bin_edges edge_le_iff [OF assms(1,2)])
  moreover have "x < bin_edges n lo hi ! Suc ?i \<or> ?i = n - 1"
    using b(1,3) by (auto simp: nth_bin_edges edge_less_iff [OF assms(1,2)] add.commute)
  ultimately show ?thesis using b(1) by blast
qed

theorem bin_index_in_bin_witness:
  "bin_index 20 5 25 25 = 19 \<and> bin_edges 20 5 25 ! 19 \<le> 25"
proof -
  have h: "(0::nat) < 20" "(5::rat) < 25" "(5::rat) \<le> 25" "(25::rat) \<le> 25" by simp_all
  have i: "bin_index 20 5 25 25 = 19" by code_simp
  from bin_index_in_bin [OF h] i show ?thesis by simp
qed

text \<open>
  The ticket histogram has \<open>n\<close> bins and counts every present ticket exactly once:
  the range handed to numpy is the data's own (widened when it is a single point), so
  no value falls outside it.
\<close>

theorem uniform_histogram_total:
  assumes "0 < n"
  shows "length (snd (uniform_histogram n xs)) = n \<and> sum_list (snd (uniform_histogram n xs)) = length xs"
proof (cases "xs = []")
  case True
  then show ?thesis by (simp add: uniform_histogram_def hist_range_def sum_list_triv)
next
  case False
  obtain lo hi where r: "hist_range xs = (lo, hi)" by fastforce
  from hist_range_bounds [OF False r] have lh: "lo < hi" and inr: "\<forall>x\<in>set xs. lo \<le> x \<and> x \<le> hi"
    by simp_all
  have keep: "filter (\<lambda>x. lo \<le> x \<and> x \<le> hi) xs = xs"
    using inr by simp
  have "set (map (bin_index n lo hi) xs) \<subseteq> set [0..<n]"
    using inr bin_index_floor [OF assms lh] by auto
  then have "sum_list (map (count_list (map (bin_index n lo hi) xs)) [0..<n]) = length xs"
    using sum_count_list_distinct [of "[0..<n]" "map (bin_index n lo hi) xs"] by simp
  then show ?thesis
    by (simp add: uniform_histogram_def r keep)
qed

theorem uniform_histogram_total_witness:
  "sum_list (snd (uniform_histogram 20 [5, 15 / 2, 10])) = 3"
proof -
  have "(0::nat) < 20" by simp
  from uniform_histogram_total [OF this, of "[5, 15 / 2, 10]"] show ?thesis by simp
qed


subsection \<open>The range check\<close>

lemma hd_bin_edges: "hd (bin_edges n lo hi) = lo"
  by (simp add: bin_edges_def hd_map)

lemma last_bin_edges: "0 < n \<Longrightarrow> last (bin_edges n lo hi) = hi"
  by (simp add: bin_edges_def last_map)

lemma hist_range_finite:
  assumes "\<forall>x\<in>set xs. \<bar>x\<bar> + 1 < float_max_bound" and "hist_range xs = (lo, hi)"
  shows "float_finite lo \<and> float_finite hi"
proof (cases "xs = []")
  case True
  then show ?thesis using assms(2) by (simp add: hist_range_def float_finite_def float_max_bound_def)
next
  case False
  then have "Min (set xs) \<in> set xs" and "Max (set xs) \<in> set xs" by simp_all
  then have mn: "\<bar>Min (set xs)\<bar> + 1 < float_max_bound" and mx: "\<bar>Max (set xs)\<bar> + 1 < float_max_bound"
    using assms(1) by blast+
  show ?thesis
  proof (cases "Min (set xs) = Max (set xs)")
    case True
    then have "lo = Min (set xs) - 1 / 2" and "hi = Max (set xs) + 1 / 2"
      using assms(2) False by (simp_all add: hist_range_def Let_def)
    then show ?thesis using mn mx unfolding float_finite_def by linarith
  next
    case ne: False
    then have "lo = Min (set xs)" and "hi = Max (set xs)"
      using assms(2) False by (simp_all add: hist_range_def Let_def)
    then show ?thesis using mn mx unfolding float_finite_def by linarith
  qed
qed

lemma hist_finite_bounded:
  "0 < n \<Longrightarrow> \<forall>x\<in>set xs. \<bar>x\<bar> + 1 < float_max_bound \<Longrightarrow> hist_finite (uniform_histogram n xs)"
  using hist_range_finite [of xs "fst (hist_range xs)" "snd (hist_range xs)"]
  by (cases "hist_range xs") (simp add: hist_finite_def uniform_histogram_def hd_bin_edges last_bin_edges)

end
