(* ===== verification/Style.thy ===== *)
theory Style
  imports Prelude
begin

text \<open>
  Lines 10--15 of \<open>src/wine_analysis.py\<close>: the figure sizes the script names and the
  global style it sets before reading the data. matplotlib keeps its configuration in the
  dictionary \<open>rcParams\<close>, modelled as a map from key strings to values (\<open>rc_params\<close>):
  \<^item> \<open>rc_defaults\<close> holds matplotlib's defaults for the keys the model reads
    (\<open>figure.figsize\<close>, the size of a figure created without one) or the script changes;
  \<^item> \<open>plt.style.use\<close> (line 14) is \<open>style_use\<close>, \<open>rcParams.update\<close> with the entries of the
    style sheet \<open>seaborn-v0_8-whitegrid\<close> (\<open>whitegrid_sheet\<close>, matplotlib's file of that
    name);
  \<^item> \<open>sns.set_palette('husl')\<close> (line 15) is \<open>set_palette\<close>, which sets the colour cycle
    \<open>axes.prop_cycle\<close> to seaborn's \<open>husl_palette(6)\<close> (\<open>color_palette\<close> takes six colours
    of a palette that is not qualitative).
  The colours themselves, fonts and every other key only change pixels and are not
  modelled.
\<close>

type_synonym fsize = "rat \<times> rat"

definition fs_page :: fsize where
  "fs_page = (12, 5)"

definition fs_half :: fsize where
  "fs_half = (8, 5)"

text \<open>matplotlib's \<open>rcParams['figure.figsize']\<close>, 6.4 by 4.8 inches.\<close>

definition default_figsize :: fsize where
  "default_figsize = (32 / 5, 24 / 5)"

datatype palette = Tab10 | Husl nat

datatype rc_value =
    RBool bool
  | RNum rat
  | RSize fsize
  | RText ustr
  | RCycle palette

type_synonym rc_params = "ustr \<Rightarrow> rc_value option"

definition figsize_key :: ustr where
  "figsize_key = py_str ''figure.figsize''"

definition cycle_key :: ustr where
  "cycle_key = py_str ''axes.prop_cycle''"

definition grid_key :: ustr where
  "grid_key = py_str ''axes.grid''"

text \<open>The defaults of \<open>matplotlibrc\<close> for the keys the model reads or the script changes.\<close>

definition rc_defaults :: rc_params where
  "rc_defaults = map_of
     [(figsize_key, RSize default_figsize), (cycle_key, RCycle Tab10), (grid_key, RBool False),
      (py_str ''axes.facecolor'', RText (py_str ''white'')),
      (py_str ''axes.edgecolor'', RText (py_str ''black'')),
      (py_str ''axes.linewidth'', RNum (4 / 5)),
      (py_str ''grid.color'', RText (py_str ''#b0b0b0'')),
      (py_str ''axes.axisbelow'', RText (py_str ''line'')),
      (py_str ''image.cmap'', RText (py_str ''viridis'')),
      (py_str ''legend.frameon'', RBool True),
      (py_str ''lines.solid_capstyle'', RText (py_str ''projecting''))]"

text \<open>The style sheet \<open>seaborn-v0_8-whitegrid.mplstyle\<close>, entry by entry in file order.\<close>

definition whitegrid_sheet :: "(ustr \<times> rc_value) list" where
  "whitegrid_sheet =
     [(py_str ''figure.facecolor'', RText (py_str ''white'')),
      (py_str ''text.color'', RText (py_str ''.15'')),
      (py_str ''axes.labelcolor'', RText (py_str ''.15'')),
      (py_str ''legend.frameon'', RBool False),
      (py_str ''legend.numpoints'', RNum 1),
      (py_str ''legend.scatterpoints'', RNum 1),
      (py_str ''xtick.direction'', RText (py_str ''out'')),
      (py_str ''ytick.direction'', RText (py_str ''out'')),
      (py_str ''xtick.color'', RText (py_str ''.15'')),
      (py_str ''ytick.color'', RText (py_str ''.15'')),
      (py_str ''axes.axisbelow'', RBool True),
      (py_str ''image.cmap'', RText (py_str ''Greys'')),
      (py_str ''font.family'', RText (py_str ''sans-serif'')),
      (py_str ''font.sans-serif'',
         RText (py_str ''Arial, Liberation Sans, DejaVu Sans, Bitstream Vera Sans, sans-serif'')),
      (py_str ''grid.linestyle'', RText (py_str ''-'')),
      (py_str ''lines.solid_capstyle'', RText (py_str ''round'')),
      (grid_key, RBool True),
      (py_str ''axes.facecolor'', RText (py_str ''white'')),
      (py_str ''axes.edgecolor'', RText (py_str ''.8'')),
      (py_str ''axes.linewidth'', RNum 1),
      (py_str ''grid.color'', RText (py_str ''.8'')),
      (py_str ''xtick.major.size'', RNum 0),
      (py_str ''ytick.major.size'', RNum 0),
      (py_str ''xtick.minor.size'', RNum 0),
      (py_str ''ytick.minor.size'', RNum 0)]"

text \<open>\<open>plt.style.use(sheet)\<close>: \<open>rcParams.update\<close> with the sheet's entries, in order.\<close>

definition style_use :: "(ustr \<times> rc_value) list \<Rightarrow> rc_params \<Rightarrow> rc_params" where
  "style_use sheet rc = fold (\<lambda>(k, v) m. m(k \<mapsto> v)) sheet rc"

text \<open>\<open>sns.set_palette(p)\<close>: \<open>rcParams['axes.prop_cycle'] = cycler('color', p)\<close>.\<close>

definition set_palette :: "palette \<Rightarrow> rc_params \<Rightarrow> rc_params" where
  "set_palette p rc = rc(cycle_key \<mapsto> RCycle p)"

text \<open>
  The size a figure gets when none is given: \<open>rcParams['figure.figsize']\<close>, which
  matplotlib validates as a pair of numbers.
\<close>

definition rc_figsize :: "rc_params \<Rightarrow> fsize" where
  "rc_figsize rc = (case rc figsize_key of Some (RSize s) \<Rightarrow> s | _ \<Rightarrow> default_figsize)"

subsection \<open>Lemmas on the configuration\<close>

text \<open>\<open>dict.update\<close> as a map: the last entry of the sheet for each of its keys wins.\<close>

lemma style_use_map_add: "style_use sheet rc = rc ++ map_of (rev sheet)"
proof (induction sheet arbitrary: rc)
  case Nil
  then show ?case by (simp add: style_use_def)
next
  case (Cons e sheet)
  obtain k v where e: "e = (k, v)" by (cases e)
  have "style_use (e # sheet) rc = style_use sheet (rc(k \<mapsto> v))"
    by (simp add: style_use_def e)
  also have "\<dots> = rc(k \<mapsto> v) ++ map_of (rev sheet)"
    by (rule Cons.IH)
  also have "\<dots> = rc ++ map_of (rev (e # sheet))"
    by (auto simp: e fun_eq_iff map_add_def map_of_append split: option.splits)
  finally show ?case .
qed

lemma style_use_other:
  assumes "k \<notin> fst ` set sheet"
  shows "style_use sheet rc k = rc k"
proof -
  have "map_of (rev sheet) k = None" using assms by (simp add: map_of_eq_None_iff)
  then show ?thesis by (simp add: style_use_map_add map_add_def)
qed

lemma figsize_not_in_whitegrid: "figsize_key \<notin> fst ` set whitegrid_sheet"
  by (simp add: whitegrid_sheet_def figsize_key_def grid_key_def py_str_def)

end
