(* ===== verification/Pipeline.thy ===== *)
theory Pipeline
  imports Cleaner Aggregate Histogram Style "HOL-Library.Sublist"
begin

text \<open>
  The script of \<open>src/wine_analysis.py\<close> after cleaning (lines 26--134) as a program of
  pyplot commands run by a fail-fast interpreter.
  \<^item> \<open>plt_state\<close> is pyplot's global state as far as the outputs depend on it: the stack of
    open figures (the current one last, as pyplot's figure manager keeps them), the
    configuration \<open>rcParams\<close> (theory \<open>Style\<close>) and the ordered log of effects the process
    has had, image files written and blocks printed.
  \<^item> \<open>style_prologue\<close> is lines 14--15, \<open>plt.style.use\<close> and \<open>sns.set_palette\<close>, which
    the script runs before it reads the data; \<open>styled_state\<close> is the state they leave.
  \<^item> \<open>step\<close> is one command: \<open>plt.figure\<close>, a pandas or seaborn plot, the axis labels,
    \<open>savefig\<close>, \<open>close\<close>, \<open>print\<close>. A \<open>DataFrame.plot\<close> without \<open>ax\<close> opens a new figure of
    matplotlib's default size, while \<open>Series.plot\<close>, \<open>sns.heatmap\<close> and \<open>plt.hist\<close> draw on
    the current axes, creating a figure only when none is open. \<open>savefig\<close> raises
    \<open>FileNotFoundError\<close> when the \<open>figures/\<close> directory is missing.
  \<^item> \<open>exec\<close> runs commands until the first error, which ends the process; effects already
    had stay (nothing is cleaned up).
  \<^item> One definition per chart block of the script, \<open>report\<close> for the printed statistics
    with numpy's rounding (\<open>round_dec\<close>), \<open>script\<close> for their sequence and \<open>run\<close> for
    cleaning followed by the script.
  Font sizes, colours, \<open>pad\<close>, \<open>bbox_inches\<close>, \<open>tight_layout\<close>'s geometry and the text layout
  of printed frames only affect pixels or characters and are not modelled.
\<close>

subsection \<open>Figures, charts and printed blocks\<close>

datatype chart =
    StackedBarh "(ustr, ustr, nat) table"
  | Barh "(ustr \<times> nat) list"
  | BarhMeans "(ustr \<times> rat option) list"
  | Heatmap "(ustr, ustr, nat) table"
  | HistUniform "rat list \<times> nat list"
  | HistBars "(rat \<times> nat) list"

record figure =
  fig_size :: fsize
  fig_chart :: "chart option"
  fig_title :: "ustr option"
  fig_xlabel :: "ustr option"
  fig_ylabel :: "ustr option"
  fig_legend :: "ustr option"

datatype printed =
    PText ustr
  | PMeans "(ustr \<times> rat option) list"
  | PMeanCount "(ustr \<times> rat option \<times> nat) list"
  | PPercent "(ustr, ustr, rat option) table"

datatype effect =
    Wrote ustr nat figure
  | Printed printed

record plt_state =
  figs :: "figure list"
  effects :: "effect list"
  rc :: rc_params

datatype cmd =
    PltFigure fsize
  | FramePlot chart
  | AxesPlot chart
  | Title ustr
  | XLabel ustr
  | YLabel ustr
  | Legend ustr
  | TightLayout
  | Savefig ustr nat
  | Close
  | Print printed
  | StyleUse "(ustr \<times> rc_value) list"
  | SetPalette palette

subsection \<open>The pyplot interpreter\<close>

text \<open>
  The errors of the plotting libraries on empty data. \<open>DataFrame.plot\<close> raises
  \<open>TypeError\<close> when the frame has no numeric column (an empty crosstab); a bar plot of
  an empty Series raises \<open>IndexError\<close> when it places its tick labels; \<open>sns.heatmap\<close>
  raises \<open>ValueError\<close> when it takes the colour range of an empty matrix, and
  \<open>plt.hist\<close> raises numpy's \<open>ValueError\<close> when the autodetected range of the data is
  not finite (\<open>hist_finite\<close>: a ticket that \<open>float()\<close> read as \<open>inf\<close>; the message's
  numbers are left out). All these errors come before any figure is created or changed.
\<close>

definition plot_error :: "chart \<Rightarrow> py_error option" where
  "plot_error c =
     (case c of
        StackedBarh t \<Rightarrow> if tb_cols t = [] then Some (TypeError (py_str ''no numeric data to plot'')) else None
      | Barh kns \<Rightarrow>
          if kns = [] then Some (IndexError (py_str ''index 0 is out of bounds for axis 0 with size 0''))
          else None
      | BarhMeans kms \<Rightarrow>
          if kms = [] then Some (IndexError (py_str ''index 0 is out of bounds for axis 0 with size 0''))
          else None
      | Heatmap t \<Rightarrow>
          if tb_rows t = [] \<or> tb_cols t = []
          then Some (ValueError (py_str ''zero-size array to reduction operation fmin which has no identity''))
          else None
      | HistUniform h \<Rightarrow>
          if hist_finite h then None
          else Some (ValueError (py_str ''autodetected range is not finite''))
      | HistBars _ \<Rightarrow> None)"

definition new_figure :: "fsize \<Rightarrow> figure" where
  "new_figure sz =
     \<lparr>fig_size = sz, fig_chart = None, fig_title = None, fig_xlabel = None, fig_ylabel = None,
      fig_legend = None\<rparr>"

text \<open>\<open>plt.gcf()\<close>: the current figure, a new one of the default size when none is open.\<close>

definition gcf_state :: "plt_state \<Rightarrow> plt_state" where
  "gcf_state st = (if figs st = [] then st\<lparr>figs := [new_figure (rc_figsize (rc st))]\<rparr> else st)"

definition upd_current :: "(figure \<Rightarrow> figure) \<Rightarrow> plt_state \<Rightarrow> plt_state" where
  "upd_current g st =
     (let st' = gcf_state st in st'\<lparr>figs := butlast (figs st') @ [g (last (figs st'))]\<rparr>)"

definition figures_dir :: ustr where
  "figures_dir = py_str ''figures/''"

text \<open>
  \<open>step dir_ok st c\<close>: \<open>dir_ok\<close> says whether the directory \<open>figures/\<close> exists and is
  writable; only a path under it can fail.
\<close>

fun step :: "bool \<Rightarrow> plt_state \<Rightarrow> cmd \<Rightarrow> py_error + plt_state" where
  "step d st (PltFigure sz) = Inr (st\<lparr>figs := figs st @ [new_figure sz]\<rparr>)"
| "step d st (FramePlot c) =
     (case plot_error c of
        Some e \<Rightarrow> Inl e
      | None \<Rightarrow> Inr (st\<lparr>figs := figs st @ [(new_figure (rc_figsize (rc st)))\<lparr>fig_chart := Some c\<rparr>]\<rparr>))"
| "step d st (AxesPlot c) =
     (case plot_error c of
        Some e \<Rightarrow> Inl e
      | None \<Rightarrow> Inr (upd_current (\<lambda>g. g\<lparr>fig_chart := Some c\<rparr>) st))"
| "step d st (Title s) = Inr (upd_current (\<lambda>g. g\<lparr>fig_title := Some s\<rparr>) st)"
| "step d st (XLabel s) = Inr (upd_current (\<lambda>g. g\<lparr>fig_xlabel := Some s\<rparr>) st)"
| "step d st (YLabel s) = Inr (upd_current (\<lambda>g. g\<lparr>fig_ylabel := Some s\<rparr>) st)"
| "step d st (Legend s) = Inr (upd_current (\<lambda>g. g\<lparr>fig_legend := Some s\<rparr>) st)"
| "step d st TightLayout = Inr (gcf_state st)"
| "step d st (Savefig p dpi) =
     (if d \<or> \<not> prefix figures_dir p then (let st' = gcf_state st in
                 Inr (st'\<lparr>effects := effects st' @ [Wrote p dpi (last (figs st'))]\<rparr>))
      else Inl (FileNotFoundError p))"
| "step d st Close = Inr (st\<lparr>figs := butlast (figs st)\<rparr>)"
| "step d st (Print x) = Inr (st\<lparr>effects := effects st @ [Printed x]\<rparr>)"
| "step d st (StyleUse sheet) = Inr (st\<lparr>rc := style_use sheet (rc st)\<rparr>)"
| "step d st (SetPalette p) = Inr (st\<lparr>rc := set_palette p (rc st)\<rparr>)"

fun exec :: "bool \<Rightarrow> plt_state \<Rightarrow> cmd list \<Rightarrow> plt_state \<times> py_error option" where
  "exec d st [] = (st, None)"
| "exec d st (c # cs) = (case step d st c of Inl e \<Rightarrow> (st, Some e) | Inr st' \<Rightarrow> exec d st' cs)"

definition init_state :: plt_state where
  "init_state = \<lparr>figs = [], effects = [], rc = rc_defaults\<rparr>"

text \<open>
  Lines 14--15, run before the data is read: the seaborn whitegrid style, then the husl
  colour cycle. \<open>styled_state\<close> is the state they leave.
\<close>

definition style_prologue :: "cmd list" where
  "style_prologue = [StyleUse whitegrid_sheet, SetPalette (Husl 6)]"

definition styled_state :: plt_state where
  "styled_state = init_state\<lparr>rc := set_palette (Husl 6) (style_use whitegrid_sheet rc_defaults)\<rparr>"

subsection \<open>The chart blocks of the script\<close>

text \<open>Lines 26--36: consumption frequency by age, a stacked horizontal bar chart.\<close>

definition chart_consumption_by_age :: "frame \<Rightarrow> cmd list" where
  "chart_consumption_by_age f =
     (let age_freq = crosstab (cols f Age) (cols f Wine_frequency_consumption) in
      [PltFigure (12, 5), FramePlot (StackedBarh age_freq),
       Title (py_str ''Wine Consumption Frequency by Age Group''),
       XLabel (py_str ''Number of Customers''), YLabel (py_str ''Age Group''),
       Legend (py_str ''Consumption Frequency''), TightLayout,
       Savefig (py_str ''figures/wine_consumption_by_age.jpg'') 300, Close])"

text \<open>Lines 38--48: payment mode by age.\<close>

definition chart_payment_by_age :: "frame \<Rightarrow> cmd list" where
  "chart_payment_by_age f =
     (let payment_age = crosstab (cols f Age) (cols f Payment_mode) in
      [PltFigure (12, 5), FramePlot (StackedBarh payment_age),
       Title (py_str ''Payment Method Preferences by Age Group''),
       XLabel (py_str ''Number of Transactions''), YLabel (py_str ''Age Group''),
       Legend (py_str ''Payment Method''), TightLayout,
       Savefig (py_str ''figures/payment_by_age.jpg'') 300, Close])"

text \<open>Lines 50--59: places to drink, ranked.\<close>

definition chart_places :: "frame \<Rightarrow> cmd list" where
  "chart_places f =
     (let place_counts = ranked_counts (cols f Place_to_drink) in
      [PltFigure fs_half, AxesPlot (Barh place_counts),
       Title (py_str ''Most Popular Places to Drink Wine''),
       XLabel (py_str ''Number of Customers''), YLabel (py_str ''Place''), TightLayout,
       Savefig (py_str ''figures/places_to_drink.jpg'') 300, Close])"

text \<open>Lines 61--70: average ticket by place, ascending.\<close>

definition avg_ticket_by_place :: "frame \<Rightarrow> (ustr \<times> rat option) list" where
  "avg_ticket_by_place f = sort_means_asc (group_mean (cols f Place_to_drink) (ticket f))"

definition chart_avg_ticket :: "frame \<Rightarrow> cmd list" where
  "chart_avg_ticket f =
     [PltFigure fs_half, AxesPlot (BarhMeans (avg_ticket_by_place f)),
      Title (py_str ''Average Spending by Venue''),
      XLabel (py_str ''Average Ticket Value ('' @ [8364, 41]), YLabel (py_str ''Place''),
      TightLayout, Savefig (py_str ''figures/avg_ticket_by_place.jpg'') 300, Close]"

text \<open>Lines 72--81: additional products, ranked.\<close>

definition chart_products :: "frame \<Rightarrow> cmd list" where
  "chart_products f =
     (let product_counts = ranked_counts (cols f Additional_products) in
      [PltFigure fs_half, AxesPlot (Barh product_counts),
       Title (py_str ''Most Popular Additional Products''),
       XLabel (py_str ''Number of Purchases''), YLabel (py_str ''Product''), TightLayout,
       Savefig (py_str ''figures/popular_products.jpg'') 300, Close])"

text \<open>Lines 83--92: products by age, a heatmap drawn by seaborn on the current axes.\<close>

definition chart_product_heatmap :: "frame \<Rightarrow> cmd list" where
  "chart_product_heatmap f =
     (let product_age = crosstab (cols f Age) (cols f Additional_products) in
      [PltFigure fs_half, AxesPlot (Heatmap product_age),
       Title (py_str ''Product Preferences by Age Group''),
       XLabel (py_str ''Additional Products''), YLabel (py_str ''Age Group''), TightLayout,
       Savefig (py_str ''figures/product_age_heatmap.jpg'') 300, Close])"

text \<open>Lines 94--102: the ticket histogram, 20 equal bins over the present tickets.\<close>

definition chart_ticket_hist :: "frame \<Rightarrow> cmd list" where
  "chart_ticket_hist f =
     [PltFigure fs_half, AxesPlot (HistUniform (uniform_histogram 20 (present (ticket f)))),
      Title (py_str ''Distribution of Ticket Values''),
      XLabel (py_str ''Ticket Value ('' @ [8364, 41]), YLabel (py_str ''Number of Purchases''),
      TightLayout, Savefig (py_str ''figures/ticket_histogram.jpg'') 300, Close]"

text \<open>Lines 104--121: the histogram of the ordinal frequency encoding.\<close>

definition chart_freq_hist :: "frame \<Rightarrow> cmd list" where
  "chart_freq_hist f =
     [PltFigure fs_half, AxesPlot (HistBars (freq_histogram (cols f Wine_frequency_consumption))),
      Title (py_str ''Wine Consumption Frequency Distribution''),
      XLabel (py_str ''Frequency (higher = more often)''),
      YLabel (py_str ''Number of Customers''), TightLayout,
      Savefig (py_str ''figures/frequency_histogram.jpg'') 300, Close]"

subsection \<open>The printed statistics\<close>

text \<open>
  numpy's \<open>round(decimals=d)\<close>, which pandas' \<open>round\<close> calls: scale by \<open>10^d\<close>, round
  to the nearest integer with ties to even (\<open>rint\<close>), scale back. NaN stays NaN.
\<close>

definition round_half_even :: "rat \<Rightarrow> int" where
  "round_half_even x =
     (let f = \<lfloor>x\<rfloor>; r = x - of_int f in
      if r < 1 / 2 then f else if 1 / 2 < r then f + 1 else if even f then f else f + 1)"

definition round_dec :: "nat \<Rightarrow> rat \<Rightarrow> rat" where
  "round_dec d x = of_int (round_half_even (x * 10 ^ d)) / 10 ^ d"

definition round_means :: "nat \<Rightarrow> ('k \<times> rat option) list \<Rightarrow> ('k \<times> rat option) list" where
  "round_means d kms = map (\<lambda>(k, m). (k, map_option (round_dec d) m)) kms"

definition round_mean_counts ::
  "nat \<Rightarrow> ('k \<times> rat option \<times> nat) list \<Rightarrow> ('k \<times> rat option \<times> nat) list" where
  "round_mean_counts d kmcs = map (\<lambda>(k, m, c). (k, map_option (round_dec d) m, c)) kmcs"

definition round_table :: "nat \<Rightarrow> ('a, 'b, rat option) table \<Rightarrow> ('a, 'b, rat option) table" where
  "round_table d t = t\<lparr>tb_cells := map (map (map_option (round_dec d))) (tb_cells t)\<rparr>"

text \<open>Lines 123--134.\<close>

definition report :: "frame \<Rightarrow> cmd list" where
  "report f =
     (let avg_ticket_by_product =
            sort_mean_count_desc (group_mean_count (cols f Additional_products) (ticket f));
          payment_percentages = row_percentages (crosstab (cols f Age) (cols f Payment_mode))
      in [Print (PText (10 # py_str ''Key Statistics:'')),
          Print (PText (10 # py_str ''1. Average Ticket Value by Place:'')),
          Print (PMeans (round_means 2 (avg_ticket_by_place f))),
          Print (PText (10 # py_str ''2. Average Ticket Value by Product:'')),
          Print (PMeanCount (round_mean_counts 2 avg_ticket_by_product)),
          Print (PText (10 # py_str ''3. Payment Mode Percentages by Age Group:'')),
          Print (PPercent (round_table 1 payment_percentages))])"

subsection \<open>The whole script\<close>

definition script :: "frame \<Rightarrow> cmd list" where
  "script f =
     chart_consumption_by_age f @ chart_payment_by_age f @ chart_places f @ chart_avg_ticket f @
     chart_products f @ chart_product_heatmap f @ chart_ticket_hist f @ chart_freq_hist f @
     report f"

text \<open>
  \<open>run dir_ok r\<close>: lines 19--24 clean the frame read at line 18, then the script runs on
  the pyplot state lines 14--15 left (no figure open, nothing written, the style set); a
  cleaning error ends the process before any figure.
\<close>

definition run :: "bool \<Rightarrow> raw_frame \<Rightarrow> plt_state \<times> py_error option" where
  "run d r = (case clean r of Inl e \<Rightarrow> (styled_state, Some e) | Inr f \<Rightarrow> exec d styled_state (script f))"

text \<open>
  The condition under which no plot call of the script raises: the three crosstabs by
  age have a row with both labels, the place and product columns a present value, and
  the range of the tickets is finite.
\<close>

definition plots_nonempty :: "frame \<Rightarrow> bool" where
  "plots_nonempty f \<longleftrightarrow>
     complete_pairs (cols f Age) (cols f Wine_frequency_consumption) \<noteq> [] \<and>
     complete_pairs (cols f Age) (cols f Payment_mode) \<noteq> [] \<and>
     present (cols f Place_to_drink) \<noteq> [] \<and> present (cols f Additional_products) \<noteq> [] \<and>
     complete_pairs (cols f Age) (cols f Additional_products) \<noteq> [] \<and>
     hist_finite (uniform_histogram 20 (present (ticket f)))"

subsection \<open>The end-to-end scenario of the specification\<close>

text \<open>
  Three rows with the ages, tickets and places of the scenario of the specification
  (section 8); the other categorical columns hold arbitrary labels.
\<close>

definition example_raw :: raw_frame where
  "example_raw =
     \<lparr>raw_ticket = [Some (py_str ''5,00''), Some (py_str ''7,50''), Some (py_str ''10,00'')],
      raw_text = (\<lambda>c. case c of
          Age \<Rightarrow> [Some (py_str ''18-24''), Some (py_str ''18-24''), Some (py_str ''25-34'')]
        | Place_to_drink \<Rightarrow> [Some (py_str ''Bar''), Some (py_str ''Restaurant''), Some (py_str ''Bar'')]
        | Wine_frequency_consumption \<Rightarrow>
            [Some (py_str ''Once per month''), Some (py_str ''Once per day''), Some (py_str ''Never'')]
        | Payment_mode \<Rightarrow> [Some (py_str ''Card''), Some (py_str ''Cash''), Some (py_str ''Card'')]
        | Additional_products \<Rightarrow> [Some (py_str ''Cheese''), None, Some (py_str ''Bread'')]
        | _ \<Rightarrow> [Some (py_str ''x''), Some (py_str ''y''), Some (py_str ''x'')])\<rparr>"

text \<open>The same rows with a ticket that does not parse.\<close>

definition example_bad_raw :: raw_frame where
  "example_bad_raw = example_raw\<lparr>raw_ticket := [Some (py_str ''5,00''), Some (py_str ''abc''), None]\<rparr>"

subsection \<open>Observers of the effect log\<close>

fun written :: "effect list \<Rightarrow> (ustr \<times> nat \<times> figure) list" where
  "written [] = []"
| "written (Wrote p d g # es) = (p, d, g) # written es"
| "written (Printed _ # es) = written es"

fun printed_blocks :: "effect list \<Rightarrow> printed list" where
  "printed_blocks [] = []"
| "printed_blocks (Wrote _ _ _ # es) = printed_blocks es"
| "printed_blocks (Printed x # es) = x # printed_blocks es"

text \<open>
  The complete output of the script on a cleaned frame, in the order of the code: the
  eight image files, then the printed blocks. \<open>dsz\<close> is the size of a figure created
  without one (\<open>rcParams['figure.figsize']\<close>).
\<close>

definition script_output :: "fsize \<Rightarrow> frame \<Rightarrow> effect list" where
  "script_output dsz f =
     [Wrote (py_str ''figures/wine_consumption_by_age.jpg'') 300
       \<lparr>fig_size = dsz,
        fig_chart = Some (StackedBarh (crosstab (cols f Age) (cols f Wine_frequency_consumption))),
        fig_title = Some (py_str ''Wine Consumption Frequency by Age Group''),
        fig_xlabel = Some (py_str ''Number of Customers''), fig_ylabel = Some (py_str ''Age Group''),
        fig_legend = Some (py_str ''Consumption Frequency'')\<rparr>,
      Wrote (py_str ''figures/payment_by_age.jpg'') 300
       \<lparr>fig_size = dsz,
        fig_chart = Some (StackedBarh (crosstab (cols f Age) (cols f Payment_mode))),
        fig_title = Some (py_str ''Payment Method Preferences by Age Group''),
        fig_xlabel = Some (py_str ''Number of Transactions''), fig_ylabel = Some (py_str ''Age Group''),
        fig_legend = Some (py_str ''Payment Method'')\<rparr>,
      Wrote (py_str ''figures/places_to_drink.jpg'') 300
       \<lparr>fig_size = fs_half, fig_chart = Some (Barh (ranked_counts (cols f Place_to_drink))),
        fig_title = Some (py_str ''Most Popular Places to Drink Wine''),
        fig_xlabel = Some (py_str ''Number of Customers''), fig_ylabel = Some (py_str ''Place''),
        fig_legend = None\<rparr>,
      Wrote (py_str ''figures/avg_ticket_by_place.jpg'') 300
       \<lparr>fig_size = fs_half, fig_chart = Some (BarhMeans (avg_ticket_by_place f)),
        fig_title = Some (py_str ''Average Spending by Venue''),
        fig_xlabel = Some (py_str ''Average Ticket Value ('' @ [8364, 41]),
        fig_ylabel = Some (py_str ''Place''), fig_legend = None\<rparr>,
      Wrote (py_str ''figures/popular_products.jpg'') 300
       \<lparr>fig_size = fs_half, fig_chart = Some (Barh (ranked_counts (cols f Additional_products))),
        fig_title = Some (py_str ''Most Popular Additional Products''),
        fig_xlabel = Some (py_str ''Number of Purchases''), fig_ylabel = Some (py_str ''Product''),
        fig_legend = None\<rparr>,
      Wrote (py_str ''figures/product_age_heatmap.jpg'') 300
       \<lparr>fig_size = fs_half,
        fig_chart = Some (Heatmap (crosstab (cols f Age) (cols f Additional_products))),
        fig_title = Some (py_str ''Product Preferences by Age Group''),
        fig_xlabel = Some (py_str ''Additional Products''), fig_ylabel = Some (py_str ''Age Group''),
        fig_legend = None\<rparr>,
      Wrote (py_str ''figures/ticket_histogram.jpg'') 300
       \<lparr>fig_size = fs_half,
        fig_chart = Some (HistUniform (uniform_histogram 20 (present (ticket f)))),
        fig_title = Some (py_str ''Distribution of Ticket Values''),
        fig_xlabel = Some (py_str ''Ticket Value ('' @ [8364, 41]),
        fig_ylabel = Some (py_str ''Number of Purchases''), fig_legend = None\<rparr>,
      Wrote (py_str ''figures/frequency_histogram.jpg'') 300
       \<lparr>fig_size = fs_half,
        fig_chart = Some (HistBars (freq_histogram (cols f Wine_frequency_consumption))),
        fig_title = Some (py_str ''Wine Consumption Frequency Distribution''),
        fig_xlabel = Some (py_str ''Frequency (higher = more often)''),
        fig_ylabel = Some (py_str ''Number of Customers''), fig_legend = None\<rparr>] @
     map Printed
       [PText (10 # py_str ''Key Statistics:''),
        PText (10 # py_str ''1. Average Ticket Value by Place:''),
        PMeans (round_means 2 (avg_ticket_by_place f)),
        PText (10 # py_str ''2. Average Ticket Value by Product:''),
        PMeanCount (round_mean_counts 2
          (sort_mean_count_desc (group_mean_count (cols f Additional_products) (ticket f)))),
        PText (10 # py_str ''3. Payment Mode Percentages by Age Group:''),
        PPercent (round_table 1 (row_percentages (crosstab (cols f Age) (cols f Payment_mode))))]"

text \<open>
  \<open>block_ok d r cs w\<close>: from any state with configuration \<open>r\<close>, the commands \<open>cs\<close> either
  succeed, keep the configuration and append exactly \<open>w\<close> to the effect log, or fail after
  appending a prefix of \<open>w\<close>.
\<close>

definition block_ok :: "bool \<Rightarrow> rc_params \<Rightarrow> cmd list \<Rightarrow> effect list \<Rightarrow> bool" where
  "block_ok d r cs w \<longleftrightarrow>
     (\<forall>st. rc st = r \<longrightarrow>
        (case exec d st cs of
           (st', None) \<Rightarrow> effects st' = effects st @ w \<and> rc st' = r
         | (st', Some e) \<Rightarrow> (\<exists>q. prefix q w \<and> effects st' = effects st @ q)))"

subsection \<open>Lemmas on the interpreter\<close>

lemma rc_figsize_styled: "rc_figsize (set_palette (Husl 6) (style_use whitegrid_sheet rc_defaults)) = default_figsize"
proof -
  have "figsize_key \<noteq> cycle_key" by (simp add: figsize_key_def cycle_key_def py_str_def)
  then show ?thesis
    by (simp add: rc_figsize_def set_palette_def style_use_other [OF figsize_not_in_whitegrid]
        rc_defaults_def)
qed

lemma styled_state_simps [simp]:
  "figs styled_state = []" "effects styled_state = []" "rc_figsize (rc styled_state) = default_figsize"
  by (simp_all add: styled_state_def init_state_def rc_figsize_styled)

lemma exec_style_prologue: "exec d init_state style_prologue = (styled_state, None)"
  by (simp add: style_prologue_def styled_state_def init_state_def)

lemma exec_append:
  "exec d st (xs @ ys) = (case exec d st xs of (st', None) \<Rightarrow> exec d st' ys | r \<Rightarrow> r)"
  by (induction xs arbitrary: st) (auto split: sum.split prod.split option.split)

lemma step_effects_prefix: "step d st c = Inr st' \<Longrightarrow> prefix (effects st) (effects st')"
  by (cases c) (auto simp: upd_current_def gcf_state_def Let_def split: if_splits option.splits)

lemma written_append [simp]: "written (xs @ ys) = written xs @ written ys"
  by (induction xs rule: written.induct) auto

lemma printed_blocks_append [simp]: "printed_blocks (xs @ ys) = printed_blocks xs @ printed_blocks ys"
  by (induction xs rule: printed_blocks.induct) auto

lemma written_map_Printed [simp]: "written (map Printed xs) = []"
  by (induction xs) auto

lemma printed_blocks_map_Printed [simp]: "printed_blocks (map Printed xs) = xs"
  by (induction xs) auto

lemma crosstab_empty_iff:
  "tb_cols (crosstab xs ys) = [] \<longleftrightarrow> complete_pairs xs ys = []"
  "tb_rows (crosstab xs ys) = [] \<longleftrightarrow> complete_pairs xs ys = []"
  using crosstab_labels [of xs ys] by (metis image_is_empty set_empty)+

lemma plot_error_crosstab:
  "complete_pairs xs ys \<noteq> [] \<Longrightarrow>
   plot_error (StackedBarh (crosstab xs ys)) = None \<and> plot_error (Heatmap (crosstab xs ys)) = None"
  by (simp add: plot_error_def crosstab_empty_iff)

lemma plot_error_ranked:
  assumes "present col \<noteq> []"
  shows "plot_error (Barh (ranked_counts col)) = None"
proof -
  have "set (present col) \<noteq> {}" using assms by (simp del: set_present)
  then have "value_counts col \<noteq> []" using keys_value_counts [of col] by (auto simp del: set_present)
  then show ?thesis by (simp add: plot_error_def ranked_counts_rev)
qed

lemma plot_error_means:
  assumes "present ks \<noteq> []"
  shows "plot_error (BarhMeans (sort_means_asc (group_mean ks vs))) = None"
proof -
  have "set (present ks) \<noteq> {}" using assms by (simp del: set_present)
  then have "group_keys ks \<noteq> []" using group_keys_props [of ks] by (auto simp del: set_present)
  then have "sort_means_asc (group_mean ks vs) \<noteq> []"
    by (metis group_mean_def length_0_conv length_map length_sort sort_means_asc_def)
  then show ?thesis by (simp add: plot_error_def)
qed

text \<open>A block drawn on the current axes (Series.plot, seaborn, plt.hist) in a new figure.\<close>

lemma exec_axes_block:
  "plot_error c = None \<Longrightarrow> d \<or> \<not> prefix figures_dir p \<Longrightarrow>
   exec d st [PltFigure sz, AxesPlot c, Title t, XLabel x, YLabel y, TightLayout, Savefig p dpi, Close] =
     (st\<lparr>effects := effects st @
        [Wrote p dpi \<lparr>fig_size = sz, fig_chart = Some c, fig_title = Some t, fig_xlabel = Some x,
                     fig_ylabel = Some y, fig_legend = None\<rparr>]\<rparr>, None)"
  by (simp add: upd_current_def gcf_state_def new_figure_def)

text \<open>A DataFrame.plot block: the chart goes into a figure of its own, of the default size.\<close>

lemma exec_frame_block:
  "plot_error c = None \<Longrightarrow> d \<or> \<not> prefix figures_dir p \<Longrightarrow>
   exec d st [PltFigure sz, FramePlot c, Title t, XLabel x, YLabel y, Legend l, TightLayout,
              Savefig p dpi, Close] =
     (st\<lparr>figs := figs st @ [new_figure sz], effects := effects st @
        [Wrote p dpi \<lparr>fig_size = rc_figsize (rc st), fig_chart = Some c, fig_title = Some t,
                     fig_xlabel = Some x, fig_ylabel = Some y, fig_legend = Some l\<rparr>]\<rparr>, None)"
  by (simp add: upd_current_def gcf_state_def new_figure_def butlast_append)

lemma exec_prints: "exec d st (map Print xs) = (st\<lparr>effects := effects st @ map Printed xs\<rparr>, None)"
  by (induction xs arbitrary: st) auto

lemma report_eq:
  "report f = map Print
      [PText (10 # py_str ''Key Statistics:''),
       PText (10 # py_str ''1. Average Ticket Value by Place:''),
       PMeans (round_means 2 (avg_ticket_by_place f)),
       PText (10 # py_str ''2. Average Ticket Value by Product:''),
       PMeanCount (round_mean_counts 2
         (sort_mean_count_desc (group_mean_count (cols f Additional_products) (ticket f)))),
       PText (10 # py_str ''3. Payment Mode Percentages by Age Group:''),
       PPercent (round_table 1 (row_percentages (crosstab (cols f Age) (cols f Payment_mode))))]"
  by (simp add: report_def Let_def)

lemma exec_report:
  "exec d st (report f) = (st\<lparr>effects := effects st @ map Printed
      [PText (10 # py_str ''Key Statistics:''),
       PText (10 # py_str ''1. Average Ticket Value by Place:''),
       PMeans (round_means 2 (avg_ticket_by_place f)),
       PText (10 # py_str ''2. Average Ticket Value by Product:''),
       PMeanCount (round_mean_counts 2
         (sort_mean_count_desc (group_mean_count (cols f Additional_products) (ticket f)))),
       PText (10 # py_str ''3. Payment Mode Percentages by Age Group:''),
       PPercent (round_table 1 (row_percentages (crosstab (cols f Age) (cols f Payment_mode))))]\<rparr>,
     None)"
  by (simp only: report_eq exec_prints)

subsection \<open>The blocks of the script, run with the figures directory present\<close>

lemma exec_chart_consumption_by_age:
  "complete_pairs (cols f Age) (cols f Wine_frequency_consumption) \<noteq> [] \<Longrightarrow>
   exec True st (chart_consumption_by_age f) =
     (st\<lparr>figs := figs st @ [new_figure (12, 5)], effects := effects st @
        [Wrote (py_str ''figures/wine_consumption_by_age.jpg'') 300
          \<lparr>fig_size = rc_figsize (rc st),
           fig_chart = Some (StackedBarh (crosstab (cols f Age) (cols f Wine_frequency_consumption))),
           fig_title = Some (py_str ''Wine Consumption Frequency by Age Group''),
           fig_xlabel = Some (py_str ''Number of Customers''), fig_ylabel = Some (py_str ''Age Group''),
           fig_legend = Some (py_str ''Consumption Frequency'')\<rparr>]\<rparr>, None)"
  unfolding chart_consumption_by_age_def Let_def by (rule exec_frame_block) (simp_all add: plot_error_crosstab)

lemma exec_chart_payment_by_age:
  "complete_pairs (cols f Age) (cols f Payment_mode) \<noteq> [] \<Longrightarrow>
   exec True st (chart_payment_by_age f) =
     (st\<lparr>figs := figs st @ [new_figure (12, 5)], effects := effects st @
        [Wrote (py_str ''figures/payment_by_age.jpg'') 300
          \<lparr>fig_size = rc_figsize (rc st),
           fig_chart = Some (StackedBarh (crosstab (cols f Age) (cols f Payment_mode))),
           fig_title = Some (py_str ''Payment Method Preferences by Age Group''),
           fig_xlabel = Some (py_str ''Number of Transactions''), fig_ylabel = Some (py_str ''Age Group''),
           fig_legend = Some (py_str ''Payment Method'')\<rparr>]\<rparr>, None)"
  unfolding chart_payment_by_age_def Let_def by (rule exec_frame_block) (simp_all add: plot_error_crosstab)

lemma exec_chart_places:
  "present (cols f Place_to_drink) \<noteq> [] \<Longrightarrow>
   exec True st (chart_places f) =
     (st\<lparr>effects := effects st @
        [Wrote (py_str ''figures/places_to_drink.jpg'') 300
          \<lparr>fig_size = fs_half, fig_chart = Some (Barh (ranked_counts (cols f Place_to_drink))),
           fig_title = Some (py_str ''Most Popular Places to Drink Wine''),
           fig_xlabel = Some (py_str ''Number of Customers''), fig_ylabel = Some (py_str ''Place''),
           fig_legend = None\<rparr>]\<rparr>, None)"
  unfolding chart_places_def Let_def by (rule exec_axes_block) (simp_all add: plot_error_ranked)

lemma exec_chart_avg_ticket:
  "present (cols f Place_to_drink) \<noteq> [] \<Longrightarrow>
   exec True st (chart_avg_ticket f) =
     (st\<lparr>effects := effects st @
        [Wrote (py_str ''figures/avg_ticket_by_place.jpg'') 300
          \<lparr>fig_size = fs_half, fig_chart = Some (BarhMeans (avg_ticket_by_place f)),
           fig_title = Some (py_str ''Average Spending by Venue''),
           fig_xlabel = Some (py_str ''Average Ticket Value ('' @ [8364, 41]),
           fig_ylabel = Some (py_str ''Place''), fig_legend = None\<rparr>]\<rparr>, None)"
  unfolding chart_avg_ticket_def by (rule exec_axes_block) (simp_all add: plot_error_means avg_ticket_by_place_def)

lemma exec_chart_products:
  "present (cols f Additional_products) \<noteq> [] \<Longrightarrow>
   exec True st (chart_products f) =
     (st\<lparr>effects := effects st @
        [Wrote (py_str ''figures/popular_products.jpg'') 300
          \<lparr>fig_size = fs_half, fig_chart = Some (Barh (ranked_counts (cols f Additional_products))),
           fig_title = Some (py_str ''Most Popular Additional Products''),
           fig_xlabel = Some (py_str ''Number of Purchases''), fig_ylabel = Some (py_str ''Product''),
           fig_legend = None\<rparr>]\<rparr>, None)"
  unfolding chart_products_def Let_def by (rule exec_axes_block) (simp_all add: plot_error_ranked)

lemma exec_chart_product_heatmap:
  "complete_pairs (cols f Age) (cols f Additional_products) \<noteq> [] \<Longrightarrow>
   exec True st (chart_product_heatmap f) =
     (st\<lparr>effects := effects st @
        [Wrote (py_str ''figures/product_age_heatmap.jpg'') 300
          \<lparr>fig_size = fs_half,
           fig_chart = Some (Heatmap (crosstab (cols f Age) (cols f Additional_products))),
           fig_title = Some (py_str ''Product Preferences by Age Group''),
           fig_xlabel = Some (py_str ''Additional Products''), fig_ylabel = Some (py_str ''Age Group''),
           fig_legend = None\<rparr>]\<rparr>, None)"
  unfolding chart_product_heatmap_def Let_def by (rule exec_axes_block) (simp_all add: plot_error_crosstab)

lemma exec_chart_ticket_hist:
  "hist_finite (uniform_histogram 20 (present (ticket f))) \<Longrightarrow>
   exec True st (chart_ticket_hist f) =
     (st\<lparr>effects := effects st @
        [Wrote (py_str ''figures/ticket_histogram.jpg'') 300
          \<lparr>fig_size = fs_half,
           fig_chart = Some (HistUniform (uniform_histogram 20 (present (ticket f)))),
           fig_title = Some (py_str ''Distribution of Ticket Values''),
           fig_xlabel = Some (py_str ''Ticket Value ('' @ [8364, 41]),
           fig_ylabel = Some (py_str ''Number of Purchases''), fig_legend = None\<rparr>]\<rparr>, None)"
  unfolding chart_ticket_hist_def by (rule exec_axes_block) (simp_all add: plot_error_def)

lemma exec_chart_freq_hist:
  "exec True st (chart_freq_hist f) =
     (st\<lparr>effects := effects st @
        [Wrote (py_str ''figures/frequency_histogram.jpg'') 300
          \<lparr>fig_size = fs_half,
           fig_chart = Some (HistBars (freq_histogram (cols f Wine_frequency_consumption))),
           fig_title = Some (py_str ''Wine Consumption Frequency Distribution''),
           fig_xlabel = Some (py_str ''Frequency (higher = more often)''),
           fig_ylabel = Some (py_str ''Number of Customers''), fig_legend = None\<rparr>]\<rparr>, None)"
  unfolding chart_freq_hist_def by (rule exec_axes_block) (simp_all add: plot_error_def)

lemmas exec_charts = exec_chart_consumption_by_age exec_chart_payment_by_age exec_chart_places
  exec_chart_avg_ticket exec_chart_products exec_chart_product_heatmap exec_chart_ticket_hist
  exec_chart_freq_hist

lemma exec_script:
  "plots_nonempty f \<Longrightarrow>
   exec True st (script f) =
     (st\<lparr>figs := figs st @ [new_figure (12, 5), new_figure (12, 5)],
         effects := effects st @
           [Wrote (py_str ''figures/wine_consumption_by_age.jpg'') 300
             \<lparr>fig_size = rc_figsize (rc st),
              fig_chart = Some (StackedBarh (crosstab (cols f Age) (cols f Wine_frequency_consumption))),
              fig_title = Some (py_str ''Wine Consumption Frequency by Age Group''),
              fig_xlabel = Some (py_str ''Number of Customers''), fig_ylabel = Some (py_str ''Age Group''),
              fig_legend = Some (py_str ''Consumption Frequency'')\<rparr>,
            Wrote (py_str ''figures/payment_by_age.jpg'') 300
             \<lparr>fig_size = rc_figsize (rc st),
              fig_chart = Some (StackedBarh (crosstab (cols f Age) (cols f Payment_mode))),
              fig_title = Some (py_str ''Payment Method Preferences by Age Group''),
              fig_xlabel = Some (py_str ''Number of Transactions''), fig_ylabel = Some (py_str ''Age Group''),
              fig_legend = Some (py_str ''Payment Method'')\<rparr>,
            Wrote (py_str ''figures/places_to_drink.jpg'') 300
             \<lparr>fig_size = fs_half, fig_chart = Some (Barh (ranked_counts (cols f Place_to_drink))),
              fig_title = Some (py_str ''Most Popular Places to Drink Wine''),
              fig_xlabel = Some (py_str ''Number of Customers''), fig_ylabel = Some (py_str ''Place''),
              fig_legend = None\<rparr>,
            Wrote (py_str ''figures/avg_ticket_by_place.jpg'') 300
             \<lparr>fig_size = fs_half, fig_chart = Some (BarhMeans (avg_ticket_by_place f)),
              fig_title = Some (py_str ''Average Spending by Venue''),
              fig_xlabel = Some (py_str ''Average Ticket Value ('' @ [8364, 41]),
              fig_ylabel = Some (py_str ''Place''), fig_legend = None\<rparr>,
            Wrote (py_str ''figures/popular_products.jpg'') 300
             \<lparr>fig_size = fs_half, fig_chart = Some (Barh (ranked_counts (cols f Additional_products))),
              fig_title = Some (py_str ''Most Popular Additional Products''),
              fig_xlabel = Some (py_str ''Number of Purchases''), fig_ylabel = Some (py_str ''Product''),
              fig_legend = None\<rparr>,
            Wrote (py_str ''figures/product_age_heatmap.jpg'') 300
             \<lparr>fig_size = fs_half,
              fig_chart = Some (Heatmap (crosstab (cols f Age) (cols f Additional_products))),
              fig_title = Some (py_str ''Product Preferences by Age Group''),
              fig_xlabel = Some (py_str ''Additional Products''), fig_ylabel = Some (py_str ''Age Group''),
              fig_legend = None\<rparr>,
            Wrote (py_str ''figures/ticket_histogram.jpg'') 300
             \<lparr>fig_size = fs_half,
              fig_chart = Some (HistUniform (uniform_histogram 20 (present (ticket f)))),
              fig_title = Some (py_str ''Distribution of Ticket Values''),
              fig_xlabel = Some (py_str ''Ticket Value ('' @ [8364, 41]),
              fig_ylabel = Some (py_str ''Number of Purchases''), fig_legend = None\<rparr>,
            Wrote (py_str ''figures/frequency_histogram.jpg'') 300
             \<lparr>fig_size = fs_half,
              fig_chart = Some (HistBars (freq_histogram (cols f Wine_frequency_consumption))),
              fig_title = Some (py_str ''Wine Consumption Frequency Distribution''),
              fig_xlabel = Some (py_str ''Frequency (higher = more often)''),
              fig_ylabel = Some (py_str ''Number of Customers''), fig_legend = None\<rparr>] @
           map Printed
             [PText (10 # py_str ''Key Statistics:''),
              PText (10 # py_str ''1. Average Ticket Value by Place:''),
              PMeans (round_means 2 (avg_ticket_by_place f)),
              PText (10 # py_str ''2. Average Ticket Value by Product:''),
              PMeanCount (round_mean_counts 2
                (sort_mean_count_desc (group_mean_count (cols f Additional_products) (ticket f)))),
              PText (10 # py_str ''3. Payment Mode Percentages by Age Group:''),
              PPercent (round_table 1 (row_percentages (crosstab (cols f Age) (cols f Payment_mode))))]\<rparr>,
      None)"
  by (simp add: script_def exec_append exec_charts exec_report plots_nonempty_def del: exec.simps)

subsection \<open>Runs that stop early\<close>

lemma block_okD:
  assumes "block_ok d r cs w" and "rc st = r"
  shows "exec d st cs = (st', None) \<Longrightarrow> effects st' = effects st @ w \<and> rc st' = r"
    and "exec d st cs = (st', Some e) \<Longrightarrow> \<exists>q. prefix q w \<and> effects st' = effects st @ q"
  using assms by (force simp: block_ok_def)+

lemma block_ok_append:
  assumes "block_ok d r cs w" and "block_ok d r cs' w'"
  shows "block_ok d r (cs @ cs') (w @ w')"
  unfolding block_ok_def
proof (intro allI impI)
  fix st :: plt_state assume r: "rc st = r"
  obtain st1 e1 where x1: "exec d st cs = (st1, e1)" by (cases "exec d st cs")
  show "case exec d st (cs @ cs') of
          (st', None) \<Rightarrow> effects st' = effects st @ w @ w' \<and> rc st' = r
        | (st', Some e) \<Rightarrow> \<exists>q. prefix q (w @ w') \<and> effects st' = effects st @ q"
  proof (cases e1)
    case (Some e)
    then obtain q where "prefix q w" and "effects st1 = effects st @ q"
      using block_okD(2) [OF assms(1) r] x1 by blast
    then show ?thesis using x1 Some by (auto simp: exec_append intro: prefix_prefix)
  next
    case None
    then have 1: "effects st1 = effects st @ w" and r1: "rc st1 = r"
      using block_okD(1) [OF assms(1) r] x1 by simp_all
    obtain st2 e2 where x2: "exec d st1 cs' = (st2, e2)" by (cases "exec d st1 cs'")
    show ?thesis
    proof (cases e2)
      case None
      then show ?thesis using block_okD(1) [OF assms(2) r1] x1 x2 1 \<open>e1 = None\<close>
        by (simp add: exec_append)
    next
      case (Some e)
      then obtain q where "prefix q w'" and "effects st2 = effects st1 @ q"
        using block_okD(2) [OF assms(2) r1] x2 by blast
      then show ?thesis using x1 x2 1 Some \<open>e1 = None\<close>
        by (auto simp: exec_append intro!: exI [of _ "w @ q"])
    qed
  qed
qed

lemma block_ok_Cons:
  "block_ok d r cs [w] \<Longrightarrow> block_ok d r cs' ws \<Longrightarrow> block_ok d r (cs @ cs') (w # ws)"
  using block_ok_append [of d r cs "[w]" cs' ws] by simp

lemma block_ok_axes:
  "block_ok d r [PltFigure sz, AxesPlot c, Title t, XLabel x, YLabel y, TightLayout, Savefig p dpi, Close]
     [Wrote p dpi \<lparr>fig_size = sz, fig_chart = Some c, fig_title = Some t, fig_xlabel = Some x,
                  fig_ylabel = Some y, fig_legend = None\<rparr>]"
  by (auto simp: block_ok_def upd_current_def gcf_state_def new_figure_def split: option.splits)

lemma block_ok_frame:
  "block_ok d r [PltFigure sz, FramePlot c, Title t, XLabel x, YLabel y, Legend l, TightLayout,
                 Savefig p dpi, Close]
     [Wrote p dpi \<lparr>fig_size = rc_figsize r, fig_chart = Some c, fig_title = Some t,
                  fig_xlabel = Some x, fig_ylabel = Some y, fig_legend = Some l\<rparr>]"
  by (auto simp: block_ok_def upd_current_def gcf_state_def new_figure_def butlast_append
      split: option.splits)

lemma block_ok_prints: "block_ok d r (map Print xs) (map Printed xs)"
  by (simp add: block_ok_def exec_prints)

text \<open>Every run of the script, whatever stops it, produces a prefix of its complete output.\<close>

lemma block_ok_script: "block_ok d r (script f) (script_output (rc_figsize r) f)"
  unfolding script_def script_output_def append_Cons append_Nil
  apply (intro block_ok_Cons)
  apply (unfold chart_consumption_by_age_def chart_payment_by_age_def chart_places_def
      chart_avg_ticket_def chart_products_def chart_product_heatmap_def chart_ticket_hist_def
      chart_freq_hist_def report_eq Let_def)
  apply (rule block_ok_frame block_ok_axes block_ok_prints)+
  done

lemma map_result_first_error:
  "list_all (\<lambda>x. \<exists>y. f x = Inr y) xs \<Longrightarrow> f x = Inl e \<Longrightarrow> map_result f (xs @ x # ys) = Inl e"
  by (induction xs) auto

lemma clean_ticket_text_error:
  "(\<forall>v. clean_ticket_text s \<noteq> Inr v) \<Longrightarrow>
   clean_ticket_text s = Inl (ValueError (py_strip (py_replace [44] [46] (py_replace [8364] [] s))))"
  by (auto simp: clean_ticket_text_def py_float_def split: sum.splits option.splits)

subsection \<open>Evaluating the cleaning step on the example frames\<close>

lemma py_strip_plain: "s = [] \<or> \<not> py_isspace (hd s) \<and> \<not> py_isspace (last s) \<Longrightarrow> py_strip s = s"
  using py_strip_append_spaces [of "[]" "[]" s] by simp

lemma clean_ticket_text_decimal:
  assumes "ds \<noteq> []" and "list_all is_digit ds" and "list_all is_digit fs"
  shows "clean_ticket_text (ds @ 44 # fs) =
    Inr (of_nat (digits_val (map (\<lambda>c. c - 48) ds)) +
         of_nat (digits_val (map (\<lambda>c. c - 48) fs)) / 10 ^ length fs)"
proof -
  have h: "py_strip (py_replace [44] [46] (py_replace [8364] [] (ds @ 44 # fs))) = ds @ 46 # fs"
    using ticket_text_strip_decimal [of "[]" "[]" "[]" ds fs] assms by simp
  have h2: "py_strip (ds @ 46 # fs) = ds @ 46 # fs"
    by (metis h py_strip_idem)
  show ?thesis
    unfolding clean_ticket_text_def py_float_def h h2 using parse_float_decimal [OF assms] by simp
qed

lemma strip_columns_stripped:
  assumes "\<forall>c\<in>set cs. str_column_ok (cols f c) \<and> map (map_option py_strip) (cols f c) = cols f c"
  shows "strip_columns cs f = Inr f"
  using assms by (induction cs) (auto simp: strip_col_def)

lemma example_raw_columns:
  "\<forall>c\<in>set string_columns. str_column_ok (raw_text example_raw c) \<and>
     map (map_option py_strip) (raw_text example_raw c) = raw_text example_raw c"
  by (simp add: string_columns_def example_raw_def csv_type_defs parse_float_defs py_strip_plain
      py_str_def py_isspace_def)

lemma example_tickets:
  "clean_ticket_col (raw_ticket example_raw) = Inr [Some 5, Some (15 / 2), Some 10]"
proof -
  have "clean_ticket_text (py_str ''5,00'') = Inr 5"
    using clean_ticket_text_decimal [of "[53]" "[48, 48]"]
    by (simp add: py_str_def is_digit_def digits_val_def)
  moreover have "clean_ticket_text (py_str ''7,50'') = Inr (15 / 2)"
    using clean_ticket_text_decimal [of "[55]" "[53, 48]"]
    by (simp add: py_str_def is_digit_def digits_val_def)
  moreover have "clean_ticket_text (py_str ''10,00'') = Inr 10"
    using clean_ticket_text_decimal [of "[49, 48]" "[48, 48]"]
    by (simp add: py_str_def is_digit_def digits_val_def)
  ultimately show ?thesis
    by (simp add: clean_ticket_col_def example_raw_def csv_type_defs parse_float_defs
        clean_ticket_cell_def py_str_def)
qed

lemma example_clean:
  obtains f where "clean example_raw = Inr f" and "ticket f = [Some 5, Some (15 / 2), Some 10]"
    and "cols f = raw_text example_raw"
proof (rule that)
  have "strip_columns string_columns \<lparr>ticket = [Some 5, Some (15 / 2), Some 10], cols = raw_text example_raw\<rparr> =
      Inr \<lparr>ticket = [Some 5, Some (15 / 2), Some 10], cols = raw_text example_raw\<rparr>"
    by (rule strip_columns_stripped) (use example_raw_columns in simp)
  then show "clean example_raw = Inr \<lparr>ticket = [Some 5, Some (15 / 2), Some 10], cols = raw_text example_raw\<rparr>"
    by (simp add: clean_def example_tickets)
qed simp_all

lemma clean_ticket_text_abc:
  "clean_ticket_text (py_str ''abc'') = Inl (ValueError (py_str ''abc''))"
proof -
  have "parse_float (py_str ''abc'') = None"
    by (simp add: py_str_def parse_float_def parse_sign_def parse_mantissa_def digitpart_def
        is_digit_def)
  then show ?thesis
    by (simp add: clean_ticket_text_def py_float_def py_strip_plain py_str_def py_isspace_def)
qed

lemma clean_ticket_text_5_00: "clean_ticket_text (py_str ''5,00'') = Inr 5"
  using clean_ticket_text_decimal [of "[53]" "[48, 48]"]
  by (simp add: py_str_def is_digit_def digits_val_def)

lemma example_bad_ticket_ok: "str_column_ok (raw_ticket example_bad_raw)"
  by (simp add: example_bad_raw_def csv_type_defs parse_float_defs py_str_def)

lemma example_bad_clean: "clean example_bad_raw = Inl (ValueError (py_str ''abc''))"
  using clean_ticket_text_abc clean_ticket_text_5_00
  by (simp add: clean_def example_bad_raw_def clean_ticket_col_def csv_type_defs parse_float_defs
      clean_ticket_cell_def py_str_def)

lemma example_plots:
  "cols f = raw_text example_raw \<Longrightarrow> ticket f = [Some 5, Some (15 / 2), Some 10] \<Longrightarrow> plots_nonempty f"
  using hist_finite_bounded [of 20 "[5, 15 / 2, 10]"]
  by (simp add: plots_nonempty_def complete_pairs_def example_raw_def float_max_bound_def del: py_str_def)

subsection \<open>Lemmas on numpy's rounding\<close>

lemma round_half_even_dist: "\<bar>of_int (round_half_even x) - x\<bar> \<le> 1 / 2"
proof -
  have "of_int \<lfloor>x\<rfloor> \<le> x" and "x < of_int \<lfloor>x\<rfloor> + 1" by linarith+
  then show ?thesis by (simp add: round_half_even_def Let_def)
qed

lemma round_half_even_int [simp]: "round_half_even (of_int k) = k"
  by (simp add: round_half_even_def)

lemma round_half_even_tie:
  "x = of_int k + 1 / 2 \<Longrightarrow> round_half_even x = (if even k then k else k + 1)"
proof -
  assume x: "x = of_int k + 1 / 2"
  then have "\<lfloor>x\<rfloor> = k" by (simp add: floor_unique)
  with x show ?thesis by (simp add: round_half_even_def Let_def)
qed

lemma round_half_even_cases:
  obtains (lo) "round_half_even x = \<lfloor>x\<rfloor>"
    "x - of_int \<lfloor>x\<rfloor> < 1 / 2 \<or> x - of_int \<lfloor>x\<rfloor> = 1 / 2 \<and> even \<lfloor>x\<rfloor>"
  | (hi) "round_half_even x = \<lfloor>x\<rfloor> + 1"
    "1 / 2 < x - of_int \<lfloor>x\<rfloor> \<or> x - of_int \<lfloor>x\<rfloor> = 1 / 2 \<and> even (\<lfloor>x\<rfloor> + 1)"
proof (cases "x - of_int \<lfloor>x\<rfloor> < 1 / 2")
  case True
  then show ?thesis by (intro lo) (simp_all add: round_half_even_def)
next
  case lt: False
  show ?thesis
  proof (cases "1 / 2 < x - of_int \<lfloor>x\<rfloor>")
    case True
    with lt show ?thesis by (intro hi) (simp_all add: round_half_even_def)
  next
    case False
    with lt have e: "x - of_int \<lfloor>x\<rfloor> = 1 / 2" by linarith
    show ?thesis
    proof (cases "even \<lfloor>x\<rfloor>")
      case True
      with e show ?thesis by (intro lo) (simp_all add: round_half_even_def)
    next
      case False
      with e show ?thesis by (intro hi) (simp_all add: round_half_even_def)
    qed
  qed
qed

lemma of_int_trichotomy:
  "(of_int k :: rat) \<le> of_int f - 1 \<or> k = f \<or> (of_int f :: rat) + 1 \<le> of_int k"
proof -
  have "k \<le> f - 1 \<or> k = f \<or> f + 1 \<le> k" by linarith
  then show ?thesis
  proof (elim disjE)
    assume "k \<le> f - 1"
    then have "(of_int k :: rat) \<le> of_int (f - 1)" by (simp only: of_int_le_iff)
    then show ?thesis by simp
  next
    assume "f + 1 \<le> k"
    then have "(of_int (f + 1) :: rat) \<le> of_int k" by (simp only: of_int_le_iff)
    then show ?thesis by simp
  qed simp
qed

lemma round_half_even_nearest: "\<bar>of_int (round_half_even x) - x\<bar> \<le> \<bar>of_int k - x\<bar>"
proof -
  have fl: "of_int \<lfloor>x\<rfloor> \<le> x" "x < of_int \<lfloor>x\<rfloor> + 1" by linarith+
  from of_int_trichotomy [of k "\<lfloor>x\<rfloor>"] fl show ?thesis
    by (cases x rule: round_half_even_cases) (elim disjE; linarith)+
qed

lemma round_half_even_tie_even:
  assumes "\<bar>of_int k - x\<bar> = \<bar>of_int (round_half_even x) - x\<bar>"
  shows "k = round_half_even x \<or> even (round_half_even x)"
proof -
  have fl: "of_int \<lfloor>x\<rfloor> \<le> x" "x < of_int \<lfloor>x\<rfloor> + 1" by linarith+
  from of_int_trichotomy [of k "\<lfloor>x\<rfloor>"] fl assms show ?thesis
    by (cases x rule: round_half_even_cases) (elim disjE conjE; simp; linarith)+
qed
subsection \<open>Properties of the script\<close>

text \<open>
  C24. When cleaning succeeds, no plot call meets empty data or an infinite ticket
  (\<open>plots_nonempty\<close>) and the directory \<open>figures/\<close> exists, the script ends without
  error and writes exactly the eight image files of the specification, in the order of the
  code, each at 300 dpi.
\<close>

theorem run_written_files:
  assumes "clean r = Inr f" and "plots_nonempty f" and "run True r = (st, err)"
  shows "err = None \<and>
    map fst (written (effects st)) =
      map py_str [''figures/wine_consumption_by_age.jpg'', ''figures/payment_by_age.jpg'',
        ''figures/places_to_drink.jpg'', ''figures/avg_ticket_by_place.jpg'',
        ''figures/popular_products.jpg'', ''figures/product_age_heatmap.jpg'',
        ''figures/ticket_histogram.jpg'', ''figures/frequency_histogram.jpg''] \<and>
    map (fst \<circ> snd) (written (effects st)) = replicate 8 300"
proof -
  from assms have "exec True styled_state (script f) = (st, err)" by (simp add: run_def)
  then have "st = fst (exec True styled_state (script f))" and "err = snd (exec True styled_state (script f))"
    by simp_all
  moreover have "replicate 8 (300::nat) = [300, 300, 300, 300, 300, 300, 300, 300]"
    by (simp add: eval_nat_numeral)
  ultimately show ?thesis by (simp add: exec_script [OF assms(2)] del: py_str_def)
qed

theorem run_written_files_witness:
  "snd (run True example_raw) = None \<and>
   map (fst \<circ> snd) (written (effects (fst (run True example_raw)))) = replicate 8 300"
proof -
  obtain f where c: "clean example_raw = Inr f" and t: "ticket f = [Some 5, Some (15 / 2), Some 10]"
    and cf: "cols f = raw_text example_raw"
    by (rule example_clean)
  from run_written_files [OF c example_plots [OF cf t], of "fst (run True example_raw)" "snd (run True example_raw)"]
  show ?thesis by (simp del: py_str_def)
qed

text \<open>
  C25. Order of the outputs: every image file is written before anything is printed, and
  the printed blocks are the header and statistics blocks 1, 2 and 3 in this order, each
  with the aggregate it names rounded as the code rounds it.
\<close>

theorem run_output_order:
  assumes "clean r = Inr f" and "plots_nonempty f" and "run True r = (st, err)"
  shows "effects st =
      map (\<lambda>(p, d, g). Wrote p d g) (written (effects st)) @ map Printed (printed_blocks (effects st)) \<and>
    printed_blocks (effects st) =
      [PText (10 # py_str ''Key Statistics:''),
       PText (10 # py_str ''1. Average Ticket Value by Place:''),
       PMeans (round_means 2 (sort_means_asc (group_mean (cols f Place_to_drink) (ticket f)))),
       PText (10 # py_str ''2. Average Ticket Value by Product:''),
       PMeanCount (round_mean_counts 2
         (sort_mean_count_desc (group_mean_count (cols f Additional_products) (ticket f)))),
       PText (10 # py_str ''3. Payment Mode Percentages by Age Group:''),
       PPercent (round_table 1 (row_percentages (crosstab (cols f Age) (cols f Payment_mode))))]"
proof -
  from assms have "exec True styled_state (script f) = (st, err)" by (simp add: run_def)
  then have "st = fst (exec True styled_state (script f))" and "err = snd (exec True styled_state (script f))"
    by simp_all
  then show ?thesis by (simp add: exec_script [OF assms(2)] avg_ticket_by_place_def del: py_str_def)
qed

theorem run_output_order_witness:
  "length (printed_blocks (effects (fst (run True example_raw)))) = 7"
proof -
  obtain f where c: "clean example_raw = Inr f" and t: "ticket f = [Some 5, Some (15 / 2), Some 10]"
    and cf: "cols f = raw_text example_raw"
    by (rule example_clean)
  from run_output_order [OF c example_plots [OF cf t], of "fst (run True example_raw)" "snd (run True example_raw)"]
  show ?thesis by (simp del: py_str_def)
qed

text \<open>
  C26. Figure sizes: the two crosstab charts are saved at matplotlib's default size, not at
  the \<open>(12, 5)\<close> the code asks for, because \<open>DataFrame.plot\<close> opens a figure of its own;
  the six other charts have the half-page size; and the two empty \<open>(12, 5)\<close> figures stay
  open after the script, since each \<open>plt.close()\<close> closes only the current figure.
\<close>

theorem run_figure_sizes:
  assumes "clean r = Inr f" and "plots_nonempty f" and "run True r = (st, err)"
  shows "map (fig_size \<circ> snd \<circ> snd) (written (effects st)) =
      [default_figsize, default_figsize, fs_half, fs_half, fs_half, fs_half, fs_half, fs_half] \<and>
    figs st = [new_figure fs_page, new_figure fs_page]"
proof -
  from assms have "exec True styled_state (script f) = (st, err)" by (simp add: run_def)
  then have "st = fst (exec True styled_state (script f))" and "err = snd (exec True styled_state (script f))"
    by simp_all
  then show ?thesis by (simp add: exec_script [OF assms(2)] fs_page_def del: py_str_def)
qed

theorem run_figure_sizes_witness:
  "fig_size (snd (snd (hd (written (effects (fst (run True example_raw))))))) = (32 / 5, 24 / 5)"
proof -
  obtain f where c: "clean example_raw = Inr f" and t: "ticket f = [Some 5, Some (15 / 2), Some 10]"
    and cf: "cols f = raw_text example_raw"
    by (rule example_clean)
  from run_figure_sizes [OF c example_plots [OF cf t], of "fst (run True example_raw)" "snd (run True example_raw)"]
  show ?thesis by (cases "written (effects (fst (run True example_raw)))") (simp_all add: default_figsize_def)
qed

text \<open>
  C27. Contents of the charts: the eight saved figures show, in order, the two crosstabs by
  age, the ranked place counts, the ascending mean ticket by place, the ranked product
  counts, the product-by-age crosstab, the 20-bin ticket histogram and the frequency
  histogram, all computed from the cleaned frame.
\<close>

theorem run_chart_contents:
  assumes "clean r = Inr f" and "plots_nonempty f" and "run True r = (st, err)"
  shows "map (fig_chart \<circ> snd \<circ> snd) (written (effects st)) = map Some
      [StackedBarh (crosstab (cols f Age) (cols f Wine_frequency_consumption)),
       StackedBarh (crosstab (cols f Age) (cols f Payment_mode)),
       Barh (ranked_counts (cols f Place_to_drink)),
       BarhMeans (sort_means_asc (group_mean (cols f Place_to_drink) (ticket f))),
       Barh (ranked_counts (cols f Additional_products)),
       Heatmap (crosstab (cols f Age) (cols f Additional_products)),
       HistUniform (uniform_histogram 20 (present (ticket f))),
       HistBars (freq_histogram (cols f Wine_frequency_consumption))]"
proof -
  from assms have "exec True styled_state (script f) = (st, err)" by (simp add: run_def)
  then have "st = fst (exec True styled_state (script f))" and "err = snd (exec True styled_state (script f))"
    by simp_all
  then show ?thesis by (simp add: exec_script [OF assms(2)] avg_ticket_by_place_def del: py_str_def)
qed

theorem run_chart_contents_witness:
  "length (written (effects (fst (run True example_raw)))) = 8 \<and>
   fig_chart (snd (snd (written (effects (fst (run True example_raw))) ! 6))) =
     Some (HistUniform (uniform_histogram 20 [5, 15 / 2, 10]))"
proof -
  obtain f where c: "clean example_raw = Inr f" and t: "ticket f = [Some 5, Some (15 / 2), Some 10]"
    and cf: "cols f = raw_text example_raw"
    by (rule example_clean)
  note p = example_plots [OF cf t]
  from run_chart_contents [OF c p, of "fst (run True example_raw)" "snd (run True example_raw)"]
  have "map (fig_chart \<circ> snd \<circ> snd) (written (effects (fst (run True example_raw)))) ! 6 =
      Some (HistUniform (uniform_histogram 20 (present (ticket f))))" by simp
  then show ?thesis using t by (simp add: c run_def exec_script [OF p] del: py_str_def)
qed

text \<open>
  C28. A cleaning error ends the run before the first figure: nothing is written, nothing is
  printed, and the error is the one the cleaning raised.
\<close>

theorem run_clean_error:
  assumes "str_column_ok (raw_ticket r)"
    and "raw_ticket r = xs @ Some s # ys"
    and "\<forall>t. Some t \<in> set xs \<longrightarrow> (\<exists>v. clean_ticket_text t = Inr v)"
    and "\<forall>v. clean_ticket_text s \<noteq> Inr v"
    and "run d r = (st, err)"
  shows "err = Some (ValueError (py_strip (py_replace [44] [46] (py_replace [8364] [] s)))) \<and>
         effects st = [] \<and> figs st = []"
proof -
  have "list_all (\<lambda>x. \<exists>y. clean_ticket_cell x = Inr y) xs"
    using assms(3) by (auto simp: list_all_iff clean_ticket_cell_def split: option.splits sum.splits)
  moreover have "clean_ticket_cell (Some s) =
      Inl (ValueError (py_strip (py_replace [44] [46] (py_replace [8364] [] s))))"
    using clean_ticket_text_error [OF assms(4)] by (simp add: clean_ticket_cell_def)
  ultimately have "clean r = Inl (ValueError (py_strip (py_replace [44] [46] (py_replace [8364] [] s))))"
    using assms(1,2) by (simp add: clean_def clean_ticket_col_def map_result_first_error)
  then show ?thesis using assms(5) by (auto simp: run_def)
qed

theorem run_clean_error_witness:
  "snd (run False example_bad_raw) = Some (ValueError (py_str ''abc'')) \<and>
   effects (fst (run False example_bad_raw)) = [] \<and> figs (fst (run False example_bad_raw)) = []"
proof -
  have t: "raw_ticket example_bad_raw = [Some (py_str ''5,00'')] @ Some (py_str ''abc'') # [None]"
    by (simp add: example_bad_raw_def)
  have a: "\<forall>t. Some t \<in> set [Some (py_str ''5,00'')] \<longrightarrow> (\<exists>v. clean_ticket_text t = Inr v)"
    using clean_ticket_text_5_00 by simp
  have b: "\<forall>v. clean_ticket_text (py_str ''abc'') \<noteq> Inr v"
    using clean_ticket_text_abc by simp
  have e: "py_strip (py_replace [44] [46] (py_replace [8364] [] (py_str ''abc''))) = py_str ''abc''"
    using clean_ticket_text_error [OF b] clean_ticket_text_abc by simp
  show ?thesis
    using run_clean_error [OF example_bad_ticket_ok t a b, of False "fst (run False example_bad_raw)"
        "snd (run False example_bad_raw)"] e
    by simp
qed

text \<open>
  C29. Without the directory \<open>figures/\<close>, the first \<open>savefig\<close> raises
  \<open>FileNotFoundError\<close> and the run ends there: no file is written and no statistics are
  printed.
\<close>

theorem run_missing_dir:
  assumes "clean r = Inr f" and "complete_pairs (cols f Age) (cols f Wine_frequency_consumption) \<noteq> []"
    and "run False r = (st, err)"
  shows "err = Some (FileNotFoundError (py_str ''figures/wine_consumption_by_age.jpg'')) \<and>
    effects st = []"
proof -
  let ?e = "FileNotFoundError (py_str ''figures/wine_consumption_by_age.jpg'')"
  have "prefix figures_dir (py_str ''figures/wine_consumption_by_age.jpg'')"
    by (simp add: figures_dir_def py_str_def)
  then have c: "snd (exec False styled_state (chart_consumption_by_age f)) = Some ?e \<and>
      effects (fst (exec False styled_state (chart_consumption_by_age f))) = []"
    using plot_error_crosstab [OF assms(2)]
    by (simp add: chart_consumption_by_age_def upd_current_def gcf_state_def del: py_str_def)
  then have "exec False styled_state (script f) = exec False styled_state (chart_consumption_by_age f)"
    by (cases "exec False styled_state (chart_consumption_by_age f)")
       (simp add: script_def exec_append del: py_str_def)
  moreover from assms have "exec False styled_state (script f) = (st, err)" by (simp add: run_def)
  ultimately show ?thesis using c by (metis fst_conv snd_conv)
qed

theorem run_missing_dir_witness:
  "snd (run False example_raw) = Some (FileNotFoundError (py_str ''figures/wine_consumption_by_age.jpg''))"
proof -
  obtain f where c: "clean example_raw = Inr f" and t: "ticket f = [Some 5, Some (15 / 2), Some 10]"
    and cf: "cols f = raw_text example_raw"
    by (rule example_clean)
  have "complete_pairs (cols f Age) (cols f Wine_frequency_consumption) \<noteq> []"
    using example_plots [OF cf t] by (simp add: plots_nonempty_def)
  from run_missing_dir [OF c this, of "fst (run False example_raw)" "snd (run False example_raw)"]
  show ?thesis by simp
qed

text \<open>
  C36. A table in which no row has both an age and a consumption frequency, for example a
  file with a header and no rows, makes the first chart fail: \<open>DataFrame.plot\<close> of the
  empty crosstab raises \<open>TypeError\<close> and nothing is written or printed.
\<close>

theorem run_empty_crosstab:
  assumes "clean r = Inr f" and "complete_pairs (cols f Age) (cols f Wine_frequency_consumption) = []"
    and "run d r = (st, err)"
  shows "err = Some (TypeError (py_str ''no numeric data to plot'')) \<and> effects st = []"
proof -
  have "plot_error (StackedBarh (crosstab (cols f Age) (cols f Wine_frequency_consumption))) =
      Some (TypeError (py_str ''no numeric data to plot''))"
    using assms(2) by (simp add: plot_error_def crosstab_empty_iff del: py_str_def)
  then have "exec d styled_state (script f) =
      (styled_state\<lparr>figs := [new_figure (12, 5)]\<rparr>, Some (TypeError (py_str ''no numeric data to plot'')))"
    by (simp add: script_def exec_append chart_consumption_by_age_def del: py_str_def)
  with assms(1,3) show ?thesis by (auto simp: run_def)
qed

theorem run_empty_crosstab_witness:
  "snd (run False \<lparr>raw_ticket = [], raw_text = (\<lambda>_. [])\<rparr>) = Some (TypeError (py_str ''no numeric data to plot''))"
proof -
  let ?r = "\<lparr>raw_ticket = [], raw_text = (\<lambda>_::str_col. [])\<rparr>"
  obtain f where c: "clean ?r = Inr f"
    by (simp add: clean_def clean_ticket_col_def str_column_ok_def string_columns_def strip_col_def)
  have "complete_pairs (cols f Age) (cols f Wine_frequency_consumption) = []"
    using clean_Inr(2) [OF c] by (simp add: complete_pairs_def)
  from run_empty_crosstab [OF c this, of False "fst (run False ?r)" "snd (run False ?r)"]
  show ?thesis by simp
qed

text \<open>
  C30. A run on a frame that cleans writes and prints a prefix of the script's complete
  output: whatever stops it (a missing directory, an empty crosstab, a non-finite histogram
  range), the figures and statistics produced before the error stay, in the script's
  order, and nothing else is produced; a run without error produces the whole output.
\<close>

theorem run_output_prefix:
  assumes "clean r = Inr f" and "run d r = (st, err)"
  shows "prefix (effects st) (script_output default_figsize f) \<and>
         (err = None \<longrightarrow> effects st = script_output default_figsize f)"
proof -
  have x: "exec d styled_state (script f) = (st, err)" using assms by (simp add: run_def)
  have ok: "block_ok d (rc styled_state) (script f) (script_output default_figsize f)"
    using block_ok_script [of d "rc styled_state" f] by simp
  show ?thesis
  proof (cases err)
    case None
    then show ?thesis using block_okD(1) [OF ok refl] x by simp
  next
    case (Some e)
    then show ?thesis using block_okD(2) [OF ok refl] x by auto
  qed
qed

theorem run_output_prefix_witness:
  "prefix (effects (fst (run True example_raw)))
     (script_output default_figsize \<lparr>ticket = [Some 5, Some (15 / 2), Some 10], cols = raw_text example_raw\<rparr>)"
proof -
  obtain f where c: "clean example_raw = Inr f" and t: "ticket f = [Some 5, Some (15 / 2), Some 10]"
    and k: "cols f = raw_text example_raw"
    by (rule example_clean)
  have "f = \<lparr>ticket = [Some 5, Some (15 / 2), Some 10], cols = raw_text example_raw\<rparr>"
    using t k by (cases f) simp
  with run_output_prefix [OF c surjective_pairing] show ?thesis by simp
qed

text \<open>
  Lines 14--15 set the style and nothing else: they cannot fail, open no figure and
  write nothing; afterwards \<open>rcParams\<close> hold the whitegrid sheet's entries, the husl colour
  cycle and matplotlib's defaults for every other key. In particular the default figure
  size is still 6.4 by 4.8 inches (the style does not set \<open>figure.figsize\<close>), which is the
  size \<open>DataFrame.plot\<close> gives the crosstab charts, and the axes grid is on.
\<close>

lemma style_prologue_rc:
  assumes "exec d init_state style_prologue = (st, err)"
  shows "err = None \<and> figs st = [] \<and> effects st = [] \<and>
    rc st = (rc_defaults ++ map_of (rev whitegrid_sheet))(cycle_key \<mapsto> RCycle (Husl 6)) \<and>
    rc_figsize (rc st) = default_figsize \<and> rc st grid_key = Some (RBool True)"
proof -
  have st: "st = styled_state" and err: "err = None"
    using assms exec_style_prologue [of d] by simp_all
  have r: "rc st = (rc_defaults ++ map_of (rev whitegrid_sheet))(cycle_key \<mapsto> RCycle (Husl 6))"
    by (simp add: st styled_state_def init_state_def set_palette_def style_use_map_add)
  have "grid_key \<noteq> cycle_key" by (simp add: grid_key_def cycle_key_def py_str_def)
  moreover have "map_of (rev whitegrid_sheet) grid_key = Some (RBool True)"
    by (simp add: whitegrid_sheet_def grid_key_def py_str_def)
  ultimately have g: "rc st grid_key = Some (RBool True)"
    by (simp add: r map_add_def)
  have f: "rc_figsize (rc st) = default_figsize"
    by (simp add: st)
  show ?thesis using err r f g by (simp add: st)
qed

text \<open>
  C31. numpy's rounding to \<open>d\<close> decimals is within half a unit of the last kept decimal.
\<close>

theorem round_dec_bounds: "\<bar>round_dec d x - x\<bar> \<le> 1 / (2 * 10 ^ d)"
proof -
  have p: "(0::rat) < 10 ^ d" by simp
  have "round_dec d x - x = (of_int (round_half_even (x * 10 ^ d)) - x * 10 ^ d) / 10 ^ d"
    using p by (simp add: round_dec_def field_simps)
  then have "\<bar>round_dec d x - x\<bar> = \<bar>of_int (round_half_even (x * 10 ^ d)) - x * 10 ^ d\<bar> / 10 ^ d"
    using p by simp
  also have "\<dots> \<le> (1 / 2) / 10 ^ d"
    using p round_half_even_dist by (intro divide_right_mono) simp_all
  finally show ?thesis by simp
qed

text \<open>
  C32. numpy's rounding to \<open>d\<close> decimals gives a nearest \<open>d\<close>-decimal number, and when two
  are equally near, the one whose last digit is even (\<open>rint\<close>, round half to even).
\<close>

theorem round_dec_nearest:
  "\<exists>m. round_dec d x = of_int m / 10 ^ d \<and>
       (\<forall>k. \<bar>of_int m / 10 ^ d - x\<bar> \<le> \<bar>of_int k / 10 ^ d - x\<bar>) \<and>
       (\<forall>k. \<bar>of_int k / 10 ^ d - x\<bar> = \<bar>of_int m / 10 ^ d - x\<bar> \<longrightarrow> k = m \<or> even m)"
proof (intro exI conjI allI impI)
  let ?m = "round_half_even (x * 10 ^ d)"
  have p: "(0::rat) < 10 ^ d" by simp
  have sc: "\<bar>of_int k / 10 ^ d - x\<bar> = \<bar>of_int k - x * 10 ^ d\<bar> / 10 ^ d" for k :: int
  proof -
    have "of_int k / 10 ^ d - x = (of_int k - x * 10 ^ d) / 10 ^ d" using p by (simp add: field_simps)
    then show ?thesis by simp
  qed
  show "round_dec d x = of_int ?m / 10 ^ d" by (simp add: round_dec_def)
  fix k :: int
  show "\<bar>of_int ?m / 10 ^ d - x\<bar> \<le> \<bar>of_int k / 10 ^ d - x\<bar>"
    unfolding sc using p round_half_even_nearest [of "x * 10 ^ d" k] by (simp add: divide_right_mono)
  assume "\<bar>of_int k / 10 ^ d - x\<bar> = \<bar>of_int ?m / 10 ^ d - x\<bar>"
  then have "\<bar>of_int k - x * 10 ^ d\<bar> = \<bar>of_int ?m - x * 10 ^ d\<bar>" unfolding sc using p by simp
  then show "k = ?m \<or> even ?m" by (rule round_half_even_tie_even)
qed

theorem round_dec_nearest_witness:
  "round_dec 1 (1 / 4) = 1 / 5 \<and> \<bar>1 / 5 - 1 / 4\<bar> \<le> \<bar>(3::rat) / 10 - 1 / 4\<bar>"
proof -
  have fl: "\<lfloor>5 / 2 :: rat\<rfloor> = 2" by (rule floor_unique) simp_all
  have r: "round_half_even (1 / 4 * 10 ^ 1) = 2"
    by (simp add: round_half_even_def Let_def fl)
  from round_dec_nearest [of 1 "1 / 4"] obtain m where
    e: "round_dec 1 (1 / 4) = of_int m / 10 ^ 1"
    and n: "\<forall>k. \<bar>of_int m / 10 ^ 1 - 1 / 4\<bar> \<le> \<bar>of_int k / 10 ^ 1 - (1 / 4 :: rat)\<bar>"
    by blast
  have m: "m = 2" using e r by (simp add: round_dec_def)
  show ?thesis using e n [rule_format, of 3] by (simp add: m)
qed

text \<open>
  A number that already has at most \<open>d\<close> decimals is printed unchanged by the rounding
  to \<open>d\<close> decimals.
\<close>

theorem round_dec_exact: "round_dec d (of_int k / 10 ^ d) = of_int k / 10 ^ d"
  by (simp add: round_dec_def)

end
