(* ===== verification/Loader.thy ===== *)
theory Loader
  imports Cleaner
begin

text \<open>
  Line 18 of \<open>src/wine_analysis.py\<close>, \<open>pd.read_csv('data/Wine_Data.csv', sep=';')\<close>, and
  the column lookups \<open>df['Ticket']\<close> (line 19) and \<open>df[col]\<close> (line 24).
  \<^item> \<open>tok_step\<close> is one character of pandas' C tokenizer (\<open>tokenizer.c\<close>) for the
    dialect the call uses: delimiter \<open>;\<close>, quote character \<open>"\<close> with doubled quotes, line
    ends \<open>\n\<close>, \<open>\r\n\<close> and \<open>\r\<close>, blank and whitespace-only lines skipped. Its states are
    those of the C code; \<open>tokenize\<close> folds it over the text and handles the end of the
    input, where an open quoted field is an error. Where the C code rescans a
    whitespace-led line from its start, the model restores the blanks it skipped, which
    is the same after a \<open>\n\<close> or \<open>\r\n\<close> line end.
  \<^item> \<open>read_table\<close> turns the records into the table \<open>read_csv\<close> returns: the first record
    is the header; a first data record with more fields than the header makes the extra
    leading fields the index; a later record with more fields than that is a
    \<open>ParserError\<close>, a shorter one is padded with empty fields; a field that is one of
    pandas' missing-value spellings is NaN.
  \<^item> \<open>clean_table\<close> is lines 19--24 on that table, with the lookups that raise
    \<open>KeyError\<close> for a missing column, in the order the script performs them.
  \<^item> \<open>render_csv\<close> is a writer of tables, used to state what the reader recovers: the
    tokenizer reads written records back (C10), \<open>read_csv\<close> returns a written table
    (C17), every table it returns is rectangular (C23), a too long record is an error
    (C33), a missing column is a \<open>KeyError\<close> (C12), and \<open>clean_table\<close> refines
    \<open>clean\<close> (\<open>clean_table_refines\<close>).
  The input is the decoded text of the file, \<open>None\<close> when the file does not exist.
  The line and row numbers in pandas' error messages, the renaming of duplicate and
  empty header names (it never produces one of the names the script looks up), and the
  decoding of the bytes are not modelled; so a file that is not valid UTF-8, on which
  \<open>read_csv\<close> raises \<open>UnicodeDecodeError\<close>, has no counterpart in the model.
\<close>

subsection \<open>The tokenizer\<close>

datatype tok_state =
    StartRecord
  | StartField
  | InField
  | InQuotedField
  | QuoteInQuotedField
  | EatCRNL
  | EatCRNLNop
  | WhitespaceLine ustr

record tokenizer =
  tk_state :: tok_state
  tk_field :: ustr
  tk_row :: "ustr list"
  tk_rows :: "ustr list list"

definition tok_init :: tokenizer where
  "tok_init = \<lparr>tk_state = StartRecord, tk_field = [], tk_row = [], tk_rows = []\<rparr>"

definition end_field :: "tokenizer \<Rightarrow> tokenizer" where
  "end_field t = t\<lparr>tk_field := [], tk_row := tk_row t @ [tk_field t]\<rparr>"

definition end_line :: "tokenizer \<Rightarrow> tokenizer" where
  "end_line t = t\<lparr>tk_row := [], tk_rows := tk_rows t @ [tk_row t]\<rparr>"

definition push_char :: "nat \<Rightarrow> tokenizer \<Rightarrow> tokenizer" where
  "push_char c t = t\<lparr>tk_field := tk_field t @ [c]\<rparr>"

definition set_state :: "tok_state \<Rightarrow> tokenizer \<Rightarrow> tokenizer" where
  "set_state s t = t\<lparr>tk_state := s\<rparr>"

text \<open>Character codes: 10 is \<open>\n\<close>, 13 \<open>\r\<close>, 34 \<open>"\<close>, 59 \<open>;\<close>, 32 and 9 space and tab.\<close>

definition field_start :: "tokenizer \<Rightarrow> nat \<Rightarrow> tokenizer" where
  "field_start t c =
     (if c = 10 then set_state StartRecord (end_line (end_field t))
      else if c = 13 then set_state EatCRNL (end_field t)
      else if c = 34 then set_state InQuotedField t
      else if c = 59 then set_state StartField (end_field t)
      else set_state InField (push_char c t))"

definition in_field :: "tokenizer \<Rightarrow> nat \<Rightarrow> tokenizer" where
  "in_field t c =
     (if c = 10 then set_state StartRecord (end_line (end_field t))
      else if c = 13 then set_state EatCRNL (end_field t)
      else if c = 59 then set_state StartField (end_field t)
      else push_char c t)"

definition record_start :: "tokenizer \<Rightarrow> nat \<Rightarrow> tokenizer" where
  "record_start t c =
     (if c = 10 then t
      else if c = 13 then set_state EatCRNLNop t
      else if c = 32 \<or> c = 9 then set_state (WhitespaceLine [c]) t
      else field_start t c)"

fun tok_step :: "tokenizer \<Rightarrow> nat \<Rightarrow> tokenizer" where
  "tok_step t c =
     (case tk_state t of
        StartRecord \<Rightarrow> record_start t c
      | StartField \<Rightarrow> field_start t c
      | InField \<Rightarrow> in_field t c
      | InQuotedField \<Rightarrow> if c = 34 then set_state QuoteInQuotedField t else push_char c t
      | QuoteInQuotedField \<Rightarrow>
          if c = 34 then set_state InQuotedField (push_char c t)
          else if c = 10 \<or> c = 13 \<or> c = 59 then in_field t c
          else set_state InField (push_char c t)
      | EatCRNL \<Rightarrow>
          if c = 10 then set_state StartRecord (end_line t)
          else if c = 59 then set_state StartField (end_field (end_line t))
          else record_start (set_state StartRecord (end_line t)) c
      | EatCRNLNop \<Rightarrow>
          if c = 10 \<or> c = 59 then set_state StartRecord t
          else record_start (set_state StartRecord t) c
      | WhitespaceLine ws \<Rightarrow>
          if c = 10 then set_state StartRecord t
          else if c = 13 then set_state EatCRNLNop t
          else if c = 32 \<or> c = 9 then set_state (WhitespaceLine (ws @ [c])) t
          else in_field (set_state InField (t\<lparr>tk_field := ws\<rparr>)) c)"

text \<open>
  The end of the input (\<open>parser_handle_eof\<close>): an open quoted field is an error; an
  unfinished field or record is closed; nothing is pending after a line end or a skipped
  line. The UTF-8 byte order mark at the start of the file is skipped.
\<close>

definition tok_finish :: "tokenizer \<Rightarrow> ustr list list \<times> bool" where
  "tok_finish t =
     (case tk_state t of
        InQuotedField \<Rightarrow> (tk_rows t, True)
      | StartField \<Rightarrow> (tk_rows (end_line (end_field t)), False)
      | InField \<Rightarrow> (tk_rows (end_line (end_field t)), False)
      | QuoteInQuotedField \<Rightarrow> (tk_rows (end_line (end_field t)), False)
      | EatCRNL \<Rightarrow> (tk_rows (end_line t), False)
      | _ \<Rightarrow> (tk_rows t, False))"

definition strip_bom :: "ustr \<Rightarrow> ustr" where
  "strip_bom s = (case s of [] \<Rightarrow> [] | c # r \<Rightarrow> if c = 65279 then r else s)"

definition tokenize :: "ustr \<Rightarrow> ustr list list \<times> bool" where
  "tokenize s = tok_finish (foldl tok_step tok_init (strip_bom s))"

subsection \<open>The table \<open>read_csv\<close> returns\<close>

text \<open>pandas' default missing-value spellings (\<open>STR_NA_VALUES\<close>), the empty field among them.\<close>

definition na_values :: "ustr list" where
  "na_values = map py_str
     [''-1.#IND'', ''1.#QNAN'', ''1.#IND'', ''-1.#QNAN'', ''#N/A N/A'', ''#N/A'', ''N/A'', ''n/a'',
      ''NA'', ''<NA>'', ''#NA'', ''NULL'', ''null'', ''NaN'', ''-NaN'', ''nan'', ''-nan'', ''None'', '''']"

definition na_cell :: "ustr \<Rightarrow> cell" where
  "na_cell s = (if s \<in> set na_values then None else Some s)"

record csv_table =
  ct_names :: "ustr list"
  ct_rows :: "cell list list"

text \<open>
  \<open>Error tokenizing data\<close> messages, without the line and row numbers. \<open>dec_str\<close> writes
  a number in decimal.
\<close>

fun dec_str :: "nat \<Rightarrow> ustr" where
  "dec_str n = (if n < 10 then [48 + n] else dec_str (n div 10) @ [48 + n mod 10])"

definition too_many_fields :: "nat \<Rightarrow> nat \<Rightarrow> py_error" where
  "too_many_fields e m =
     ParserError (py_str ''Error tokenizing data. C error: Expected '' @ dec_str e @
                  py_str '' fields, saw '' @ dec_str m)"

definition eof_in_string :: py_error where
  "eof_in_string = ParserError (py_str ''Error tokenizing data. C error: EOF inside string'')"

definition no_columns :: py_error where
  "no_columns = EmptyDataError (py_str ''No columns to parse from file'')"

text \<open>
  One data record as a row of the table: \<open>k\<close> leading fields go to the index, the rest
  is padded with empty fields to the \<open>n\<close> columns of the header, and each field is read
  with the missing-value spellings.
\<close>

definition table_row :: "nat \<Rightarrow> nat \<Rightarrow> ustr list \<Rightarrow> cell list" where
  "table_row k n r = map na_cell (let fs = drop k r in fs @ replicate (n - length fs) [])"

definition read_table :: "ustr list list \<times> bool \<Rightarrow> py_error + csv_table" where
  "read_table tr =
     (case fst tr of
        [] \<Rightarrow> Inl no_columns
      | hdr # recs \<Rightarrow>
          (let n = length hdr;
               k = (case recs of [] \<Rightarrow> 0 | r # _ \<Rightarrow> length r - n);
               bad = filter (\<lambda>r. n + k < length r) (drop 1 recs)
           in case bad of
                r # _ \<Rightarrow> Inl (too_many_fields (n + k) (length r))
              | [] \<Rightarrow>
                  if snd tr then Inl eof_in_string
                  else Inr \<lparr>ct_names = hdr, ct_rows = map (table_row k n) recs\<rparr>))"

definition data_file :: ustr where
  "data_file = py_str ''data/Wine_Data.csv''"

text \<open>\<open>read_csv\<close> of the file's text, \<open>None\<close> for a file that does not exist.\<close>

definition read_csv :: "ustr option \<Rightarrow> py_error + csv_table" where
  "read_csv file =
     (case file of
        None \<Rightarrow> Inl (FileNotFoundError data_file)
      | Some s \<Rightarrow> read_table (tokenize s))"

subsection \<open>Column lookups and the cleaning of the table\<close>

text \<open>The names of the columns the script uses (lines 19 and 21--22).\<close>

definition ticket_name :: ustr where
  "ticket_name = py_str ''Ticket''"

fun col_name :: "str_col \<Rightarrow> ustr" where
  "col_name Wine_frequency_consumption = py_str ''Wine frequency consumption''"
| "col_name Payment_mode = py_str ''Payment mode''"
| "col_name Place_to_drink = py_str ''Place to drink''"
| "col_name Additional_products = py_str ''Additional products''"
| "col_name Gender = py_str ''Gender''"
| "col_name Education = py_str ''Education''"
| "col_name Age = py_str ''Age''"

text \<open>\<open>df[name]\<close>: the column of the first header field with that name, or \<open>KeyError\<close>.\<close>

fun find_index :: "ustr \<Rightarrow> ustr list \<Rightarrow> nat option" where
  "find_index x [] = None"
| "find_index x (y # ys) = (if x = y then Some 0 else map_option Suc (find_index x ys))"

definition get_column :: "csv_table \<Rightarrow> ustr \<Rightarrow> py_error + cell list" where
  "get_column tb name =
     (case find_index name (ct_names tb) of
        None \<Rightarrow> Inl (KeyError name)
      | Some i \<Rightarrow> Inr (map (\<lambda>r. r ! i) (ct_rows tb)))"

text \<open>The loop of lines 23--24 on the table: look the column up, then strip it.\<close>

fun strip_table_columns :: "csv_table \<Rightarrow> str_col list \<Rightarrow> frame \<Rightarrow> py_error + frame" where
  "strip_table_columns tb [] f = Inr f"
| "strip_table_columns tb (c # cs) f =
     (case get_column tb (col_name c) of
        Inl e \<Rightarrow> Inl e
      | Inr xs \<Rightarrow>
          (case strip_col xs of
             Inl e \<Rightarrow> Inl e
           | Inr ys \<Rightarrow> strip_table_columns tb cs (f\<lparr>cols := (cols f)(c := ys)\<rparr>)))"

text \<open>Lines 19--24 on the table \<open>read_csv\<close> returned.\<close>

definition clean_table :: "csv_table \<Rightarrow> py_error + frame" where
  "clean_table tb =
     (case get_column tb ticket_name of
        Inl e \<Rightarrow> Inl e
      | Inr tc \<Rightarrow>
          (case clean_ticket_col tc of
             Inl e \<Rightarrow> Inl e
           | Inr t \<Rightarrow> strip_table_columns tb string_columns \<lparr>ticket = t, cols = (\<lambda>_. [])\<rparr>))"

text \<open>The raw frame of a table that has all the columns the script uses.\<close>

definition table_raw :: "csv_table \<Rightarrow> raw_frame" where
  "table_raw tb =
     \<lparr>raw_ticket = projr (get_column tb ticket_name),
      raw_text = (\<lambda>c. projr (get_column tb (col_name c)))\<rparr>"

definition has_columns :: "csv_table \<Rightarrow> bool" where
  "has_columns tb \<longleftrightarrow>
     list_all (\<lambda>name. name \<in> set (ct_names tb)) (ticket_name # map col_name string_columns)"


subsection \<open>Writing a table as text\<close>

text \<open>
  The inverse direction, used to state what the reader recovers: a writer in the manner
  of \<open>DataFrame.to_csv(sep=';')\<close>. A field with a line end, a quote, the delimiter or a
  byte order mark is quoted, its quotes doubled; other fields are written as they are.
  Fields are joined by the delimiter and each record is ended by a line feed. A record
  is well formed when its line is not blank (the reader skips blank lines).
\<close>

fun join_fields :: "ustr list \<Rightarrow> ustr" where
  "join_fields [] = []"
| "join_fields [x] = x"
| "join_fields (x # y # zs) = x @ 59 # join_fields (y # zs)"

definition csv_plain_field :: "ustr \<Rightarrow> bool" where
  "csv_plain_field x \<longleftrightarrow> list_all (\<lambda>c. c \<noteq> 10 \<and> c \<noteq> 13 \<and> c \<noteq> 34 \<and> c \<noteq> 59 \<and> c \<noteq> 65279) x"

definition quote_char :: "nat \<Rightarrow> ustr" where
  "quote_char c = (if c = 34 then [34, 34] else [c])"

definition write_field :: "ustr \<Rightarrow> ustr" where
  "write_field x = (if csv_plain_field x then x else 34 # concat (map quote_char x) @ [34])"

definition write_record :: "ustr list \<Rightarrow> ustr" where
  "write_record r = join_fields (map write_field r)"

definition render_csv :: "ustr list list \<Rightarrow> ustr" where
  "render_csv rows = concat (map (\<lambda>r. write_record r @ [10]) rows)"

definition csv_record_ok :: "ustr list \<Rightarrow> bool" where
  "csv_record_ok r \<longleftrightarrow> list_ex (\<lambda>c. c \<noteq> 32 \<and> c \<noteq> 9) (write_record r)"

subsection \<open>Lemmas on the tokenizer\<close>

lemma in_field_plain:
  assumes "tk_state t = InField" and "list_all (\<lambda>c. c \<noteq> 10 \<and> c \<noteq> 13 \<and> c \<noteq> 59) w"
  shows "foldl tok_step t w = t\<lparr>tk_field := tk_field t @ w\<rparr>"
  using assms
proof (induction w arbitrary: t)
  case Nil
  then show ?case by simp
next
  case (Cons c w)
  then have "tok_step t c = t\<lparr>tk_field := tk_field t @ [c]\<rparr>"
    by (simp add: in_field_def push_char_def)
  with Cons.IH [of "t\<lparr>tk_field := tk_field t @ [c]\<rparr>"] Cons.prems show ?case by simp
qed

lemma start_field_plain:
  assumes "tk_state t = StartField" and "csv_plain_field w" and "w \<noteq> []"
  shows "foldl tok_step t w = t\<lparr>tk_state := InField, tk_field := tk_field t @ w\<rparr>"
proof -
  obtain c w' where w: "w = c # w'" using assms(3) by (cases w) auto
  have "tok_step t c = t\<lparr>tk_state := InField, tk_field := tk_field t @ [c]\<rparr>"
    using assms(1,2) w by (simp add: csv_plain_field_def field_start_def set_state_def push_char_def)
  moreover have "list_all (\<lambda>c. c \<noteq> 10 \<and> c \<noteq> 13 \<and> c \<noteq> 59) w'"
    using assms(2) w by (auto simp: csv_plain_field_def list_all_iff)
  ultimately show ?thesis
    using in_field_plain [of "t\<lparr>tk_state := InField, tk_field := tk_field t @ [c]\<rparr>" w'] w by simp
qed

lemma quoted_body:
  assumes "tk_state t = InQuotedField"
  shows "foldl tok_step t (concat (map quote_char x)) = t\<lparr>tk_field := tk_field t @ x\<rparr>"
  using assms
proof (induction x arbitrary: t)
  case Nil
  then show ?case by simp
next
  case (Cons c x)
  have "foldl tok_step t (quote_char c) = t\<lparr>tk_field := tk_field t @ [c]\<rparr>"
    using Cons.prems by (cases t) (simp add: quote_char_def set_state_def push_char_def)
  then show ?case
    using Cons.IH [of "t\<lparr>tk_field := tk_field t @ [c]\<rparr>"] Cons.prems
    by (simp del: tok_step.simps)
qed

lemma in_field_sep_state: "c = 10 \<or> c = 59 \<Longrightarrow> in_field (set_state s t) c = in_field t c"
  by (auto simp: in_field_def set_state_def end_line_def end_field_def)

text \<open>A written field followed by a delimiter or a line feed, read from the start of a field.\<close>

lemma field_then_sep:
  assumes "tk_state t = StartField" and "c = 10 \<or> c = 59"
  shows "foldl tok_step t (write_field x @ [c]) = in_field (t\<lparr>tk_field := tk_field t @ x\<rparr>) c"
proof (cases "csv_plain_field x")
  case plain: True
  show ?thesis
  proof (cases "x = []")
    case True
    then show ?thesis using assms by (auto simp: write_field_def csv_plain_field_def field_start_def in_field_def)
  next
    case False
    have "foldl tok_step t (write_field x @ [c]) = tok_step (t\<lparr>tk_state := InField, tk_field := tk_field t @ x\<rparr>) c"
      using plain by (simp only: write_field_def if_True foldl_append foldl_Cons foldl_Nil
          start_field_plain [OF assms(1) plain False])
    then show ?thesis
      using assms(2) by (auto simp: in_field_def set_state_def end_line_def end_field_def)
  qed
next
  case False
  let ?t1 = "set_state InQuotedField t"
  have "tok_step t 34 = ?t1"
    using assms(1) by (simp add: field_start_def)
  moreover have "foldl tok_step ?t1 (concat (map quote_char x)) = ?t1\<lparr>tk_field := tk_field ?t1 @ x\<rparr>"
    by (rule quoted_body) (simp add: set_state_def)
  moreover have "tk_field ?t1 = tk_field t"
    by (simp add: set_state_def)
  moreover have "tok_step (?t1\<lparr>tk_field := tk_field t @ x\<rparr>) 34 =
      set_state QuoteInQuotedField (?t1\<lparr>tk_field := tk_field t @ x\<rparr>)"
    by (simp add: set_state_def)
  moreover have "tok_step (set_state QuoteInQuotedField (?t1\<lparr>tk_field := tk_field t @ x\<rparr>)) c =
      in_field (t\<lparr>tk_field := tk_field t @ x\<rparr>) c"
    using assms(2) in_field_sep_state [OF assms(2)]
    by (auto simp: set_state_def in_field_def end_line_def end_field_def)
  ultimately show ?thesis
    using False by (simp del: tok_step.simps add: write_field_def)
qed

lemma join_line:
  assumes "tk_state t = StartField" and "tk_field t = []"
  shows "foldl tok_step t (join_fields (map write_field (x # xs)) @ [10]) =
    t\<lparr>tk_state := StartRecord, tk_row := [], tk_rows := tk_rows t @ [tk_row t @ x # xs]\<rparr>"
  using assms
proof (induction xs arbitrary: t x)
  case Nil
  then have "foldl tok_step t (write_field x @ [10]) = in_field (t\<lparr>tk_field := x\<rparr>) 10"
    using field_then_sep [of t 10 x] by simp
  then show ?case
    using Nil.prems
    by (simp del: foldl_append tok_step.simps add: in_field_def end_line_def end_field_def set_state_def)
next
  case (Cons y ys)
  let ?t' = "t\<lparr>tk_state := StartField, tk_row := tk_row t @ [x]\<rparr>"
  have "foldl tok_step t (write_field x @ [59]) = in_field (t\<lparr>tk_field := x\<rparr>) 59"
    using Cons.prems field_then_sep [of t 59 x] by simp
  then have "foldl tok_step t (write_field x @ [59]) = ?t'"
    using Cons.prems by (simp add: in_field_def end_field_def set_state_def)
  moreover have "foldl tok_step ?t' (join_fields (map write_field (y # ys)) @ [10]) =
      ?t'\<lparr>tk_state := StartRecord, tk_row := [], tk_rows := tk_rows ?t' @ [tk_row ?t' @ y # ys]\<rparr>"
    using Cons.prems by (intro Cons.IH) simp_all
  ultimately have "foldl tok_step t ((write_field x @ [59]) @ join_fields (map write_field (y # ys)) @ [10]) =
      ?t'\<lparr>tk_state := StartRecord, tk_row := [], tk_rows := tk_rows ?t' @ [tk_row ?t' @ y # ys]\<rparr>"
    by (simp only: foldl_append)
  moreover have "join_fields (map write_field (x # y # ys)) @ [10] =
      (write_field x @ [59]) @ join_fields (map write_field (y # ys)) @ [10]"
    by simp
  moreover have "?t'\<lparr>tk_state := StartRecord, tk_row := [], tk_rows := tk_rows ?t' @ [tk_row ?t' @ y # ys]\<rparr> =
      t\<lparr>tk_state := StartRecord, tk_row := [], tk_rows := tk_rows t @ [tk_row t @ x # y # ys]\<rparr>"
    by (cases t) simp
  ultimately show ?case by (simp only:)
qed

lemma whitespace_prefix:
  assumes "tk_state t = StartRecord" and "ws \<noteq> []" and "list_all (\<lambda>c. c = 32 \<or> c = 9) ws"
  shows "foldl tok_step t ws = set_state (WhitespaceLine ws) t"
  using assms(2,3)
proof (induction ws rule: rev_induct)
  case Nil
  then show ?case by simp
next
  case (snoc c ws)
  show ?case
  proof (cases "ws = []")
    case True
    then show ?thesis using assms(1) snoc.prems by (auto simp: record_start_def)
  next
    case False
    then show ?thesis using snoc by (auto simp: set_state_def)
  qed
qed

lemma field_start_set_state: "field_start (set_state s t) c = field_start t c"
  by (simp add: field_start_def set_state_def end_line_def end_field_def push_char_def)

text \<open>A record that is not blank is read from its first character as from a field start.\<close>

lemma record_as_field:
  assumes "tk_state t = StartRecord" and "tk_field t = []"
    and "list_all (\<lambda>c. c = 32 \<or> c = 9) ws" and "c \<noteq> 32" and "c \<noteq> 9" and "c \<noteq> 10"
    and "c \<noteq> 13"
  shows "foldl tok_step t (ws @ c # rest) = foldl tok_step (set_state StartField t) (ws @ c # rest)"
proof -
  have "foldl tok_step t (ws @ [c]) = foldl tok_step (set_state StartField t) (ws @ [c])"
  proof (cases "ws = []")
    case True
    have "tok_step t c = field_start t c"
      using assms by (simp add: record_start_def)
    moreover have "tok_step (set_state StartField t) c = field_start (set_state StartField t) c"
      by (simp add: set_state_def)
    ultimately show ?thesis
      using True by (simp add: field_start_set_state)
  next
    case False
    have p: "csv_plain_field ws"
      using assms(3) by (auto simp: csv_plain_field_def list_all_iff)
    have "foldl tok_step (set_state StartField t) ws =
        (set_state StartField t)\<lparr>tk_state := InField, tk_field := ws\<rparr>"
      using start_field_plain [OF _ p False, of "set_state StartField t"] assms(2)
      by (simp add: set_state_def)
    then show ?thesis
      using whitespace_prefix [OF assms(1) False assms(3)] assms(4-7)
      by (cases t) (simp add: set_state_def)
  qed
  then show ?thesis by simp
qed


lemma join_fields_Cons: "join_fields (x # xs) = x @ (if xs = [] then [] else 59 # join_fields xs)"
  by (cases xs) auto

text \<open>The first character of a well-formed record that is not a space or a tab.\<close>

lemma record_first_char:
  assumes "csv_record_ok r"
  obtains ws c rest where "write_record r = ws @ c # rest" and "list_all (\<lambda>c. c = 32 \<or> c = 9) ws"
    and "c \<noteq> 32" and "c \<noteq> 9" and "c \<noteq> 10" and "c \<noteq> 13" and "c \<noteq> 65279"
proof -
  let ?P = "\<lambda>c::nat. c = 32 \<or> c = 9"
  obtain x xs where r: "r = x # xs"
    using assms by (cases r) (auto simp: csv_record_ok_def write_record_def)
  define tail where "tail = (if xs = [] then [] else 59 # join_fields (map write_field xs))"
  have wr: "write_record r = write_field x @ tail"
    by (simp add: r write_record_def join_fields_Cons tail_def)
  show ?thesis
  proof (cases "csv_plain_field x")
    case False
    then have "write_record r = [] @ 34 # (concat (map quote_char x) @ 34 # tail)"
      by (simp add: wr write_field_def)
    then show ?thesis by (rule that) simp_all
  next
    case plain: True
    then have wx: "write_record r = x @ tail"
      by (simp add: wr write_field_def)
    show ?thesis
    proof (cases "list_all ?P x")
      case False
      then obtain ws c rest where x: "x = ws @ c # rest" and ws: "list_all ?P ws" and c: "\<not> ?P c"
        by (rule split_first_not)
      have "c \<noteq> 10 \<and> c \<noteq> 13 \<and> c \<noteq> 65279"
        using plain by (simp add: x csv_plain_field_def)
      moreover have "write_record r = ws @ c # (rest @ tail)"
        by (simp add: wx x)
      ultimately show ?thesis
        using ws c by (intro that [of ws c "rest @ tail"]) simp_all
    next
      case True
      have "xs \<noteq> []"
      proof
        assume "xs = []"
        then have "write_record r = x" by (simp add: wx tail_def)
        with assms True show False
          by (auto simp: csv_record_ok_def list_ex_iff list_all_iff)
      qed
      then have "write_record r = x @ 59 # join_fields (map write_field xs)"
        by (simp add: wx tail_def)
      then show ?thesis
        using True by (rule that) simp_all
    qed
  qed
qed

text \<open>A well-formed record, read from the start of a record, is appended to the records read.\<close>

lemma record_line:
  assumes "tk_state t = StartRecord" and "tk_field t = []" and "tk_row t = []"
    and "csv_record_ok r"
  shows "foldl tok_step t (write_record r @ [10]) = t\<lparr>tk_rows := tk_rows t @ [r]\<rparr>"
proof -
  obtain x xs where r: "r = x # xs"
    using assms(4) by (cases r) (auto simp: csv_record_ok_def write_record_def)
  obtain ws c rest where line: "write_record r = ws @ c # rest" and ws: "list_all (\<lambda>c. c = 32 \<or> c = 9) ws"
    and c: "c \<noteq> 32" "c \<noteq> 9" "c \<noteq> 10" "c \<noteq> 13"
    using assms(4) by (rule record_first_char)
  have "foldl tok_step t (write_record r @ [10]) = foldl tok_step (set_state StartField t) (write_record r @ [10])"
    unfolding line append.assoc append_Cons by (rule record_as_field [OF assms(1,2) ws c])
  also have "\<dots> = (set_state StartField t)\<lparr>tk_state := StartRecord, tk_row := [],
      tk_rows := tk_rows (set_state StartField t) @ [tk_row (set_state StartField t) @ x # xs]\<rparr>"
    unfolding r write_record_def by (rule join_line) (use assms(2) in \<open>simp_all add: set_state_def\<close>)
  also have "\<dots> = t\<lparr>tk_rows := tk_rows t @ [r]\<rparr>"
    using assms(1,3) r by (cases t) (simp add: set_state_def)
  finally show ?thesis .
qed

lemma render_lines:
  assumes "tk_state t = StartRecord" and "tk_field t = []" and "tk_row t = []"
    and "list_all csv_record_ok rows"
  shows "foldl tok_step t (render_csv rows) = t\<lparr>tk_rows := tk_rows t @ rows\<rparr>"
  using assms
proof (induction rows arbitrary: t)
  case Nil
  then show ?case by (simp add: render_csv_def)
next
  case (Cons r rows)
  have "render_csv (r # rows) = (write_record r @ [10]) @ render_csv rows"
    by (simp add: render_csv_def)
  then show ?case
    using Cons.prems record_line [of t r] Cons.IH [of "t\<lparr>tk_rows := tk_rows t @ [r]\<rparr>"]
    by (simp del: tok_step.simps)
qed

lemma strip_bom_render:
  assumes "list_all csv_record_ok rows"
  shows "strip_bom (render_csv rows) = render_csv rows"
proof (cases rows)
  case Nil
  then show ?thesis by (simp add: render_csv_def strip_bom_def)
next
  case (Cons r rs)
  then have "csv_record_ok r" using assms by simp
  then obtain ws c rest where line: "write_record r = ws @ c # rest"
    and ws: "list_all (\<lambda>c. c = 32 \<or> c = 9) ws" and c: "c \<noteq> 65279"
    by (rule record_first_char)
  have "hd (write_record r @ [10]) \<noteq> 65279"
    using line ws c by (cases ws) auto
  with Cons show ?thesis by (cases "write_record r") (auto simp: render_csv_def strip_bom_def)
qed

lemma tokenize_rendered:
  "list_all csv_record_ok rows \<Longrightarrow> fst (tokenize (render_csv rows)) = rows \<and> \<not> snd (tokenize (render_csv rows))"
  using render_lines [of tok_init rows]
  by (simp add: tokenize_def strip_bom_render tok_init_def tok_finish_def del: tok_step.simps)

subsection \<open>Lemmas on the table\<close>

lemma table_row_length:
  "length r - k \<le> n \<Longrightarrow> length (table_row k n r) = n"
  by (simp add: table_row_def Let_def)

lemma read_table_Inr:
  assumes "read_table tr = Inr tb"
  obtains hdr recs where "fst tr = hdr # recs" "\<not> snd tr" "ct_names tb = hdr"
    "ct_rows tb = map (table_row (case recs of [] \<Rightarrow> 0 | r # _ \<Rightarrow> length r - length hdr) (length hdr)) recs"
    "\<forall>r\<in>set (drop 1 recs). length r \<le> length hdr + (case recs of [] \<Rightarrow> 0 | r # _ \<Rightarrow> length r - length hdr)"
  using assms
  by (auto simp: read_table_def Let_def filter_empty_conv not_less split: list.splits if_splits)

lemma find_index_None: "find_index x ys = None \<longleftrightarrow> x \<notin> set ys"
  by (induction ys) auto

lemma get_column_KeyError: "get_column tb x = Inl e \<Longrightarrow> e = KeyError x \<and> x \<notin> set (ct_names tb)"
  by (auto simp: get_column_def find_index_None split: option.splits)

lemma get_column_present: "x \<in> set (ct_names tb) \<Longrightarrow> get_column tb x = Inr (projr (get_column tb x))"
  by (cases "find_index x (ct_names tb)") (auto simp: get_column_def find_index_None)

lemma strip_col_error: "strip_col xs = Inl e \<Longrightarrow> e = str_accessor_error"
  by (simp add: strip_col_def split: if_splits)

lemma clean_ticket_col_error:
  "clean_ticket_col xs = Inl e \<Longrightarrow> e = str_accessor_error \<or> (\<exists>s. e = ValueError s)"
  by (auto simp: clean_ticket_col_def clean_ticket_cell_def clean_ticket_text_def py_float_def
      split: if_splits option.splits sum.splits dest!: map_result_InlD)

lemma strip_table_columns_KeyError:
  "strip_table_columns tb cs f = Inl (KeyError x) \<Longrightarrow> x \<notin> set (ct_names tb) \<and> x \<in> col_name ` set cs"
  by (induction cs arbitrary: f)
     (auto split: sum.splits dest!: get_column_KeyError strip_col_error simp: str_accessor_error_def)

text \<open>The lookups of the table agree with the raw frame when every looked-up column exists.\<close>

lemma strip_table_columns_refines:
  assumes "distinct cs" and "ticket f = ticket g"
    and "\<forall>c\<in>set cs. get_column tb (col_name c) = Inr (cols g c)"
    and "\<forall>c. c \<notin> set cs \<longrightarrow> cols f c = cols g c"
  shows "strip_table_columns tb cs f = strip_columns cs g"
  using assms
proof (induction cs arbitrary: f g)
  case Nil
  then show ?case by (cases f, cases g) (auto intro: ext)
next
  case (Cons c cs)
  show ?case
  proof (cases "strip_col (cols g c)")
    case (Inl e)
    then show ?thesis using Cons.prems by simp
  next
    case (Inr ys)
    have "strip_table_columns tb cs (f\<lparr>cols := (cols f)(c := ys)\<rparr>) =
        strip_columns cs (g\<lparr>cols := (cols g)(c := ys)\<rparr>)"
      using Cons.prems by (intro Cons.IH) auto
    then show ?thesis using Inr Cons.prems by simp
  qed
qed

lemma clean_table_refines:
  assumes "has_columns tb"
  shows "clean_table tb = clean (table_raw tb)"
proof -
  have t: "get_column tb ticket_name = Inr (raw_ticket (table_raw tb))"
    using assms get_column_present by (simp add: has_columns_def table_raw_def)
  have c: "\<forall>c\<in>set string_columns. get_column tb (col_name c) = Inr (raw_text (table_raw tb) c)"
    using assms get_column_present by (auto simp: has_columns_def table_raw_def list_all_iff)
  have "strip_table_columns tb string_columns \<lparr>ticket = u, cols = \<lambda>_. []\<rparr> =
      strip_columns string_columns \<lparr>ticket = u, cols = raw_text (table_raw tb)\<rparr>" for u
    by (rule strip_table_columns_refines) (use c distinct_string_columns in auto)
  then show ?thesis
    by (simp add: clean_table_def clean_def t split: sum.splits)
qed


subsection \<open>Properties of the reader\<close>

text \<open>
  C10. The tokenizer inverts the writer: the text of well-formed records (none a blank
  line), each ended by a line feed, is read back as exactly those records, fields in
  order, with no error. Fields may hold the delimiter, quotes and line ends (written
  quoted); leading spaces of a record and empty fields are kept.
\<close>

theorem tokenize_render:
  assumes "list_all csv_record_ok rows"
  shows "tokenize (render_csv rows) = (rows, False)"
  using tokenize_rendered [OF assms] by (cases "tokenize (render_csv rows)") simp

theorem tokenize_render_witness:
  "list_all csv_record_ok [[[65, 103, 101], [84]], [[32, 51, 53], []], [[97, 59, 98], [34, 120, 34]]] \<and>
   tokenize (render_csv [[[65, 103, 101], [84]], [[32, 51, 53], []], [[97, 59, 98], [34, 120, 34]]]) =
     ([[[65, 103, 101], [84]], [[32, 51, 53], []], [[97, 59, 98], [34, 120, 34]]], False)"
  using tokenize_render [of "[[[65, 103, 101], [84]], [[32, 51, 53], []], [[97, 59, 98], [34, 120, 34]]]"]
  by (simp add: csv_record_ok_def write_record_def write_field_def csv_plain_field_def quote_char_def)

text \<open>
  C12. A missing column raises \<open>KeyError\<close>: without a \<open>Ticket\<close> column the script stops
  at the first lookup of line 19, whatever else the table holds; and a \<open>KeyError\<close> of
  lines 19--24 always names a column the script looks up and the table lacks.
\<close>

theorem clean_table_key_error:
  "(ticket_name \<notin> set (ct_names tb) \<longrightarrow> clean_table tb = Inl (KeyError ticket_name)) \<and>
   (clean_table tb = Inl (KeyError x) \<longrightarrow>
      x \<notin> set (ct_names tb) \<and> x \<in> set (ticket_name # map col_name string_columns))"
proof (intro conjI impI)
  assume "ticket_name \<notin> set (ct_names tb)"
  then show "clean_table tb = Inl (KeyError ticket_name)"
    by (simp add: clean_table_def get_column_def find_index_None [symmetric])
next
  assume e: "clean_table tb = Inl (KeyError x)"
  then have "x \<notin> set (ct_names tb) \<and> (x = ticket_name \<or> x \<in> col_name ` set string_columns)"
    by (auto simp: clean_table_def str_accessor_error_def split: sum.splits
        dest!: get_column_KeyError clean_ticket_col_error strip_table_columns_KeyError)
  then show "x \<notin> set (ct_names tb)" and "x \<in> set (ticket_name # map col_name string_columns)"
    by auto
qed

theorem clean_table_key_error_witness:
  "ticket_name \<notin> set [[65, 103, 101]] \<and>
   clean_table \<lparr>ct_names = [[65, 103, 101]], ct_rows = [[Some [51, 53]]]\<rparr> = Inl (KeyError ticket_name) \<and>
   ticket_name \<notin> set [[65, 103, 101]] \<and> ticket_name \<in> set (ticket_name # map col_name string_columns)"
  using clean_table_key_error [of "\<lparr>ct_names = [[65, 103, 101]], ct_rows = [[Some [51, 53]]]\<rparr>" ticket_name]
  by (simp add: ticket_name_def py_str_def)

lemma read_csv_rendered:
  assumes "list_all csv_record_ok (hdr # rows)" and "list_all (\<lambda>r. length r = length hdr) rows"
  shows "read_csv (Some (render_csv (hdr # rows))) =
    Inr \<lparr>ct_names = hdr, ct_rows = map (map na_cell) rows\<rparr>"
proof -
  have tok: "tokenize (render_csv (hdr # rows)) = (hdr # rows, False)"
    using tokenize_rendered [OF assms(1)] by (cases "tokenize (render_csv (hdr # rows))") simp
  have k: "(case rows of [] \<Rightarrow> 0 | r # _ \<Rightarrow> length r - length hdr) = 0"
    using assms(2) by (cases rows) auto
  have bad: "filter (\<lambda>r. length hdr < length r) (drop (Suc 0) rows) = []"
    using assms(2) by (auto simp: filter_empty_conv list_all_iff dest: in_set_dropD)
  have "map (table_row 0 (length hdr)) rows = map (map na_cell) rows"
    using assms(2) by (auto simp: table_row_def list_all_iff)
  then show ?thesis
    by (simp add: read_csv_def read_table_def tok k bad Let_def)
qed

lemma find_index_nth: "distinct xs \<Longrightarrow> i < length xs \<Longrightarrow> find_index (xs ! i) xs = Some i"
  by (induction xs arbitrary: i) (auto simp: nth_Cons split: nat.splits)

lemma get_column_nth:
  "distinct (ct_names tb) \<Longrightarrow> i < length (ct_names tb) \<Longrightarrow>
   get_column tb (ct_names tb ! i) = Inr (map (\<lambda>r. r ! i) (ct_rows tb))"
  by (simp add: get_column_def find_index_nth)

text \<open>
  C17. Reading back a written table: for a well-formed header and data records all as
  long as the header, \<open>read_csv\<close> returns the header as the column names and the records
  as rows, each field that is a missing-value spelling (the empty field among them) NaN.
\<close>

theorem read_csv_render:
  assumes "list_all csv_record_ok (hdr # rows)" and "list_all (\<lambda>r. length r = length hdr) rows"
  shows "read_csv (Some (render_csv (hdr # rows))) =
    Inr \<lparr>ct_names = hdr, ct_rows = map (map na_cell) rows\<rparr>"
  using read_csv_rendered [OF assms] .

theorem read_csv_render_witness:
  "list_all csv_record_ok [[[65, 103, 101], [84]], [[32, 51, 53], []]] \<and>
   list_all (\<lambda>r. length r = length [[65, 103, 101], [84::nat]]) [[[32, 51, 53], []]] \<and>
   read_csv (Some (render_csv [[[65, 103, 101], [84]], [[32, 51, 53], []]])) =
     Inr \<lparr>ct_names = [[65, 103, 101], [84]], ct_rows = [[Some [32, 51, 53], None]]\<rparr>"
  using read_csv_render [of "[[65, 103, 101], [84]]" "[[[32, 51, 53], []]]"]
  by (simp add: csv_record_ok_def write_record_def write_field_def csv_plain_field_def quote_char_def na_cell_def na_values_def py_str_def)

text \<open>
  C23. Every table \<open>read_csv\<close> returns is rectangular: each row has one cell per column
  name. Leading fields of a long first record go to the index, short records are padded,
  and a record too long for both is an error rather than a row.
\<close>

theorem read_csv_rows_shape:
  assumes "read_csv input = Inr tb"
  shows "list_all (\<lambda>r. length r = length (ct_names tb)) (ct_rows tb)"
proof -
  obtain s where "read_table (tokenize s) = Inr tb"
    using assms by (cases input) (auto simp: read_csv_def)
  then obtain hdr recs where names: "ct_names tb = hdr"
    and rows: "ct_rows tb = map (table_row (case recs of [] \<Rightarrow> 0 | r # _ \<Rightarrow> length r - length hdr) (length hdr)) recs"
    and long: "\<forall>r\<in>set (drop 1 recs). length r \<le> length hdr + (case recs of [] \<Rightarrow> 0 | r # _ \<Rightarrow> length r - length hdr)"
    by (rule read_table_Inr)
  have "length r - (case recs of [] \<Rightarrow> 0 | r # _ \<Rightarrow> length r - length hdr) \<le> length hdr"
    if "r \<in> set recs" for r
    using that long by (cases recs) auto
  then show ?thesis
    using names rows by (simp add: list_all_iff table_row_length)
qed

theorem read_csv_rows_shape_witness:
  "read_csv (Some (render_csv [[[97], [98]], [[49], [50], [51]], [[52]]])) =
     Inr \<lparr>ct_names = [[97], [98]], ct_rows = [[Some [50], Some [51]], [None, None]]\<rparr> \<and>
   list_all (\<lambda>r. length r = length [[97], [98::nat]]) [[Some [50::nat], Some [51]], [None, None]]"
proof -
  have "tokenize (render_csv [[[97], [98]], [[49], [50], [51]], [[52]]]) =
      ([[[97], [98]], [[49], [50], [51]], [[52]]], False)"
    using tokenize_rendered [of "[[[97], [98]], [[49], [50], [51]], [[52]]]"]
    by (simp add: csv_record_ok_def write_record_def write_field_def csv_plain_field_def quote_char_def prod_eq_iff)
  then have r: "read_csv (Some (render_csv [[[97], [98]], [[49], [50], [51]], [[52]]])) =
      Inr \<lparr>ct_names = [[97], [98]], ct_rows = [[Some [50], Some [51]], [None, None]]\<rparr>"
    by (simp add: read_csv_def read_table_def table_row_def na_cell_def na_values_def py_str_def)
  show ?thesis
    using read_csv_rows_shape [OF r] r by simp
qed

text \<open>
  C33. A record longer than the header and than the first data record stops
  \<open>read_csv\<close> with pandas' \<open>ParserError\<close> \<open>Expected E fields, saw M\<close>, where \<open>E\<close> counts the
  columns and the index fields the first data record implied, and \<open>M\<close> is the length of the
  first such record.
\<close>

theorem read_csv_too_many_fields:
  assumes "list_all csv_record_ok (hdr # r1 # ps @ r # qs)"
    and "list_all (\<lambda>p. length p \<le> max (length hdr) (length r1)) ps"
    and "max (length hdr) (length r1) < length r"
  shows "read_csv (Some (render_csv (hdr # r1 # ps @ r # qs))) =
    Inl (too_many_fields (max (length hdr) (length r1)) (length r))"
proof -
  have tok: "tokenize (render_csv (hdr # r1 # ps @ r # qs)) = (hdr # r1 # ps @ r # qs, False)"
    using tokenize_rendered [OF assms(1)] by (cases "tokenize (render_csv (hdr # r1 # ps @ r # qs))") simp
  have e: "length hdr + (length r1 - length hdr) = max (length hdr) (length r1)"
    by simp
  have "filter (\<lambda>x. max (length hdr) (length r1) < length x) (ps @ r # qs) =
      r # filter (\<lambda>x. max (length hdr) (length r1) < length x) qs"
    using assms(2,3) by (auto simp: list_all_iff filter_empty_conv not_less)
  then show ?thesis
    by (simp add: read_csv_def read_table_def tok e Let_def del: max_less_iff_conj)
qed

theorem read_csv_too_many_fields_witness:
  "list_all csv_record_ok [[[97], [98]], [[49], [50]], [[51]], [[52], [53], [54]]] \<and>
   list_all (\<lambda>p. length p \<le> max (length [[97], [98::nat]]) (length [[49], [50::nat]])) [[[51]]] \<and>
   max (length [[97], [98::nat]]) (length [[49], [50::nat]]) < length [[52], [53], [54::nat]] \<and>
   read_csv (Some (render_csv [[[97], [98]], [[49], [50]], [[51]], [[52], [53], [54]]])) =
     Inl (too_many_fields 2 3)"
  using read_csv_too_many_fields [of "[[97], [98]]" "[[49], [50]]" "[[[51]]]" "[[52], [53], [54]]" "[]"]
  by (simp add: csv_record_ok_def write_record_def write_field_def csv_plain_field_def quote_char_def numeral_2_eq_2 numeral_3_eq_3)

end
