(* ===== verification/Spec2Isabelle.thy ===== *)
theory Spec2Isabelle
  imports Cleaner Aggregate Histogram Pipeline Loader
begin

text \<open>
  \<^bold>\<open>A verified model of src/wine_analysis.py\<close>

  The program is one script. It reads \<open>data/Wine_Data.csv\<close> (line 18), cleans the
  \<open>Ticket\<close> column and seven categorical columns (lines 19--24), draws eight charts, each
  saved to a file under \<open>figures/\<close> (lines 26--121), and prints three tables of statistics
  (lines 123--134). The development models every step, the reading of the file included,
  in seven theories:

  \<^item> \<open>Prelude\<close>: the shared vocabulary. Python strings are lists of code points (\<open>ustr\<close>),
    a cell of an object column is \<open>ustr option\<close> (None is NaN), raised exceptions are
    values of \<open>py_error\<close>. \<open>present\<close> is pandas' NaN-skipping and \<open>map_result\<close> an
    element-wise conversion that stops at the first error. Numbers are exact rationals:
    the binary rounding of floats is not modelled.
  \<^item> \<open>Cleaner\<close>: line 19 and lines 21--24. It models the string methods the script calls:
    \<open>py_replace\<close> (\<open>str.replace\<close>, a \<open>function\<close> with a measure), \<open>py_strip\<close>
    (\<open>str.strip\<close> with Python's \<open>isspace\<close>) and \<open>py_float\<close> (\<open>float()\<close> on a decimal string,
    by \<open>parse_float\<close>). On top of them come \<open>clean_ticket_text\<close>, \<open>clean_ticket_col\<close>
    (\<open>.str\<close> accessor and \<open>astype(float)\<close>), \<open>strip_col\<close>, the loop \<open>strip_columns\<close> and
    \<open>clean\<close>, from a \<open>raw_frame\<close> to a \<open>frame\<close> or an error. \<open>str_column_ok\<close> is
    \<open>read_csv\<close>'s column typing (\<open>csv_numeric\<close>, and \<open>csv_bool_lit\<close>, the parser's
    case-insensitive \<open>true\<close>/\<open>false\<close>), which decides whether the
    \<open>.str\<close> accessor works. The lemmas show:
    \<^item> a euro-and-comma ticket becomes the intended decimal (C1);
    \<^item> two separators are a ValueError (C2), and a single comma is read as a decimal
      point even when it was meant as a thousands separator (an instance of C1);
    \<^item> cleaning keeps the row count (C3) and touches text only by stripping (C4);
    \<^item> exactly when cleaning succeeds (C5);
    \<^item> a ticket column of plain numbers is typed numeric, and line 19 raises
      AttributeError (C35).
  \<^item> \<open>Aggregate\<close>: the aggregations of lines 28, 40, 52, 63, 74, 85, 129 and 133.
    \<^item> \<open>tally\<close>, \<open>value_counts\<close> and \<open>ranked_counts\<close> model value counts with the script's
      descending sort and reversal. They are ascending (C6), refine the multiset of
      values (C7, the abstraction \<open>counts_mset\<close>), hold one entry per distinct value (C8)
      and agree with \<open>count_list\<close> (C9).
    \<^item> \<open>crosstab\<close> (the \<open>table\<close> record) counts every row with both labels once
      (\<open>crosstab_total\<close>, and \<open>crosstab_row_totals\<close> for each row).
    \<^item> \<open>row_percentages\<close> gives rows that sum to 100 (C11), with entries in [0, 100]
      (\<open>row_percentages_bounds\<close>).
    \<^item> \<open>group_mean\<close> and \<open>group_mean_count\<close> with their NaN-last sorts are correct means
      (C13) within the group's range (\<open>group_mean_bounds\<close>), sorted as the code sorts
      (C15, C16), with
      counts that add up to the number of rows (\<open>group_mean_count_total\<close>).
  \<^item> \<open>Histogram\<close>: the ordinal encoding of lines 105--113 (\<open>freq_map\<close>, \<open>freq_num\<close>, C18)
    and numpy's binning behind both histograms. \<open>hist_edges_counts\<close> is the cumulative
    searchsorted computation for explicit edges; it counts half-open bins with a closed
    last bin (C19). The frequency chart draws the "Once per day" rows (value 7) as the bar
    at 6 (C20) and counts exactly the mapped rows (C21). For the 20-bin ticket histogram,
    \<open>bin_index\<close> puts every value in its bin (C22) and \<open>uniform_histogram\<close> counts every
    ticket once (\<open>uniform_histogram_total\<close>).
  \<^item> \<open>Style\<close>: lines 10--15. matplotlib's \<open>rcParams\<close> is a map from key strings to
    values (\<open>rc_params\<close>), starting at matplotlib's defaults (\<open>rc_defaults\<close>);
    \<open>plt.style.use\<close> is \<open>style_use\<close>, \<open>rcParams.update\<close> with the entries of the style
    sheet \<open>whitegrid_sheet\<close>, and \<open>sns.set_palette('husl')\<close> is \<open>set_palette\<close>, which sets
    the colour cycle. \<open>rc_figsize\<close> is the size of a figure created without one.
    \<open>style_use_map_add\<close> shows that \<open>style_use\<close> is the map update \<open>++\<close> with the sheet.
  \<^item> \<open>Pipeline\<close>: lines 14--15 and 26--134 as a program of pyplot commands (\<open>cmd\<close>), with
    one definition per chart block and \<open>report\<close> for the prints. \<open>step\<close> interprets one
    command on \<open>plt_state\<close>: pyplot's stack of open figures, \<open>rcParams\<close> and the ordered
    log of effects (files written, blocks printed). \<open>style_prologue\<close> is lines 14--15;
    it leaves \<open>styled_state\<close>, on which the rest runs. \<open>plot_error\<close> gives the errors the plotting libraries raise on
    empty data. \<open>exec\<close> runs commands up to the first error, and \<open>run\<close> is cleaning followed
    by the script. The lemmas show:
    \<^item> lines 14--15 only set \<open>rcParams\<close>: the whitegrid entries, the husl cycle, and the
      default figure size 6.4 x 4.8 unchanged (\<open>style_prologue_rc\<close>);
    \<^item> when no plotted aggregate is empty (\<open>plots_nonempty\<close>), a run writes the eight
      files in order at 300 dpi (C24);
    \<^item> all files are written before the statistics, which are printed in order 1, 2, 3
      with numpy's rounding \<open>round_dec\<close> (C25);
    \<^item> the figure sizes (C26) and chart contents (C27) of the saved files;
    \<^item> a ticket that does not parse, after euro signs and commas are handled (C28), a
      missing \<open>figures/\<close> directory (C29) or an empty first
      crosstab (C36, e.g. a file without rows) stops the run before any output;
    \<^item> a run that stops early has produced a prefix of the script's complete output
      \<open>script_output\<close>, and a run without error all of it (C30), by \<open>block_ok\<close>, a
      property of a block of commands that composes over the script;
    \<^item> \<open>round_dec\<close> is within half a unit (C31), is a nearest \<open>d\<close>-decimal number with
      ties to the even one (C32), and leaves
      exact values unchanged (\<open>round_dec_exact\<close>).
  \<^item> \<open>Loader\<close>: line 18 and the column lookups of lines 19 and 24. The file's text (a
    \<open>ustr\<close>, \<open>None\<close> for a missing file) is read by \<open>tokenize\<close>, which folds \<open>tok_step\<close>,
    one character of pandas' C tokenizer (\<open>tokenizer.c\<close>), over it. The record
    \<open>tokenizer\<close> is the parser's state: the state of the machine (\<open>tok_state\<close>, with
    the C code's states), the field and the record being read, and the records read.
    \<open>read_table\<close> builds the \<open>csv_table\<close> \<open>read_csv\<close> returns (header, implicit index,
    field-count check, padding, missing-value spellings), and \<open>read_csv\<close> adds the
    missing file. \<open>get_column\<close> is \<open>df[name]\<close>, and \<open>clean_table\<close> lines 19--24 on the
    table. The specification side is a writer \<open>render_csv\<close> in the manner of
    \<open>to_csv\<close>: fields with the delimiter, a quote or a line end are quoted with doubled
    quotes, and a record is well formed when its line is not blank. The lemmas show:
    \<^item> the tokenizer reads written records back exactly (C10), by step lemmas that follow
      the C states through a plain field, a quoted field, a delimiter, a line end and a
      whitespace-led record;
    \<^item> \<open>read_csv\<close> of a written rectangular table returns it, with NaN for the
      missing-value spellings (C17);
    \<^item> every table it returns is rectangular (C23), and a record too long for the header
      and the implied index is a \<open>ParserError\<close> (C33);
    \<^item> a missing column is a \<open>KeyError\<close>, \<open>Ticket\<close> first (C12);
    \<^item> \<open>clean_table\<close> equals \<open>clean\<close> on the table's raw frame \<open>table_raw\<close> when every
      column the script uses exists (\<open>clean_table_refines\<close>).
  \<^item> This theory: \<open>main\<close>, the whole script from the file's text, and its refinement by
    \<open>run\<close> on the raw frame of the table read (\<open>main_refines_run\<close>); for a written file
    with distinct header names, that frame takes each column from the field at its
    name's position (C37); the errors of the input file, a
    missing, empty or comma-separated file, before any output (C14); the end-to-end
    scenario of the
    specification (C34), evaluated on the example frame \<open>example_raw\<close>.

  Library behaviour is modelled as the libraries implement it:
  \<^item> \<open>DataFrame.plot\<close> without \<open>ax\<close> opens a new figure of the default size 6.4 x 4.8,
    whereas \<open>Series.plot\<close>, \<open>sns.heatmap\<close> and \<open>plt.hist\<close> draw on the current axes.
  \<^item> \<open>plt.close()\<close> closes the current figure only. The style sheet of line 14 does not
    set \<open>figure.figsize\<close> (\<open>figsize_not_in_whitegrid\<close>); a figure without a size takes that entry.
  \<^item> On empty data, \<open>DataFrame.plot\<close> raises TypeError, a bar plot of a Series
    IndexError and \<open>sns.heatmap\<close> ValueError.
  \<^item> numpy widens a one-point histogram range by 0.5 on each side, and its \<open>round\<close> is
    \<open>rint\<close> on the scaled value.
  \<^item> pandas' \<open>sort_values\<close> is an unstable quicksort; it is modelled by the stable
    \<open>sort_key\<close>, one of its possible results. The sorting theorems (C6, C15, C16) hold
    for every order of ties; C25, C27 and C34 state the model's order, which in the
    scenario of C34 keeps the tied means of Bar and Restaurant in key order.
  There is no fuel and no partial function: every loop of the script and of the
  libraries it calls is over a finite list and is a \<open>fun\<close>, a \<open>primrec\<close> or a fold (the
  tokenizer is a fold over the characters of the file), and \<open>py_replace\<close> terminates by
  its measure.

  Numbers are exact rationals. \<open>float()\<close> reads a decimal of magnitude at least
  \<open>2^1024 - 2^970\<close> as \<open>inf\<close>; the model keeps the exact value, and only \<open>plt.hist\<close>'s
  check of a finite range (\<open>hist_finite\<close>, part of the hypothesis \<open>plots_nonempty\<close> of
  C24--C27) tests it. The other effects of an infinite ticket (means printed as \<open>inf\<close>, a
  bar of infinite length) are not modelled: the model has the exact value there.

  Not modelled:
  \<^item> the decoding of the file's bytes: the model's input is the decoded text, so a file
    that is not valid UTF-8, on which \<open>read_csv\<close> raises \<open>UnicodeDecodeError\<close> before any
    output, has no counterpart; the renaming of duplicate or empty header names
    (the script looks up none of the names it produces), the line numbers in pandas'
    error messages, and the reader's options the call leaves at their defaults other
    than the dialect;
  \<^item> the entries of \<open>rcParams\<close> that neither the style nor the model reads, and the
    colour values of the husl palette;
  \<^item> the tokenizer's backtracking over a whitespace-led line is modelled as restoring that
    line's leading blanks, which is what the C code does after a \<open>\n\<close> or \<open>\r\n\<close>; after a
    bare \<open>\r\<close> line end its rescan start is not modelled;
  \<^item> the imports of lines 1--4 (\<open>os\<close> is imported and never used);
  \<^item> fonts, colours, legend placement, \<open>tight_layout\<close>'s geometry and the pixels of the
    images;
  \<^item> the text layout of the printed frames.
  Apart from the decoding and the infinite tickets above, these only affect how outputs
  look, not which outputs there are or what values they hold.
\<close>


text \<open>
  The whole script: the style of lines 14--15, \<open>read_csv\<close> of the data file (line 18),
  then lines 19--24 on the table it returned, then lines 26--134 on the cleaned frame. The
  first exception ends it.
\<close>

definition main :: "bool \<Rightarrow> ustr option \<Rightarrow> plt_state \<times> py_error option" where
  "main d input =
     (case exec d init_state style_prologue of
        (st, Some e) \<Rightarrow> (st, Some e)
      | (st, None) \<Rightarrow>
          (case read_csv input of
             Inl e \<Rightarrow> (st, Some e)
           | Inr tb \<Rightarrow>
               (case clean_table tb of
                  Inl e \<Rightarrow> (st, Some e)
                | Inr f \<Rightarrow> exec d st (script f))))"

text \<open>
  C34. The end-to-end scenario of the specification (section 8): with the ages
  18-24, 18-24, 25-34, the tickets "5,00", "7,50", "10,00", the places Bar, Restaurant,
  Bar, the products Cheese, (missing), Bread and the payment modes Card, Cash, Card, the
  run succeeds and prints the average ticket by place as Bar 7.50 and Restaurant 7.50,
  the average ticket by product as Bread 10.00 (1 customer) before Cheese 5.00
  (1 customer), the row without a product left out, and the payment percentages as
  18-24: Card 50.0, Cash 50.0 and 25-34: Card 100.0, Cash 0.0; the third file written is the
  places chart, with Restaurant (1) below Bar (2), and the average-ticket chart is written.
\<close>

theorem spec_scenario:
  "snd (run True example_raw) = None \<and>
   printed_blocks (effects (fst (run True example_raw))) ! 2 =
     PMeans [(py_str ''Bar'', Some (15 / 2)), (py_str ''Restaurant'', Some (15 / 2))] \<and>
   printed_blocks (effects (fst (run True example_raw))) ! 4 =
     PMeanCount [(py_str ''Bread'', Some 10, 1), (py_str ''Cheese'', Some 5, 1)] \<and>
   printed_blocks (effects (fst (run True example_raw))) ! 6 =
     PPercent \<lparr>tb_rows = [py_str ''18-24'', py_str ''25-34''], tb_cols = [py_str ''Card'', py_str ''Cash''],
       tb_cells = [[Some 50, Some 50], [Some 100, Some 0]]\<rparr> \<and>
   fst (written (effects (fst (run True example_raw))) ! 2) = py_str ''figures/places_to_drink.jpg'' \<and>
   fig_chart (snd (snd (written (effects (fst (run True example_raw))) ! 2))) =
     Some (Barh [(py_str ''Restaurant'', 1), (py_str ''Bar'', 2)]) \<and>
   py_str ''figures/avg_ticket_by_place.jpg'' \<in> fst ` set (written (effects (fst (run True example_raw))))"
proof -
  obtain f where c: "clean example_raw = Inr f" and t: "ticket f = [Some 5, Some (15 / 2), Some 10]"
    and cf: "cols f = raw_text example_raw"
    by (rule example_clean)
  have p: "cols f Place_to_drink = [Some (py_str ''Bar''), Some (py_str ''Restaurant''), Some (py_str ''Bar'')]"
    by (simp add: cf example_raw_def del: py_str_def)
  have a: "cols f Age = [Some (py_str ''18-24''), Some (py_str ''18-24''), Some (py_str ''25-34'')]"
    by (simp add: cf example_raw_def del: py_str_def)
  have pm: "cols f Payment_mode = [Some (py_str ''Card''), Some (py_str ''Cash''), Some (py_str ''Card'')]"
    by (simp add: cf example_raw_def del: py_str_def)
  have pr: "cols f Additional_products = [Some (py_str ''Cheese''), None, Some (py_str ''Bread'')]"
    by (simp add: cf example_raw_def del: py_str_def)
  have m: "round_means 2 (sort_means_asc (group_mean
      [Some (py_str ''Bar''), Some (py_str ''Restaurant''), Some (py_str ''Bar'')]
      [Some 5, Some (15 / 2), Some 10])) =
      [(py_str ''Bar'', Some (15 / 2)), (py_str ''Restaurant'', Some (15 / 2))]"
    by code_simp
  have mc: "round_mean_counts 2 (sort_mean_count_desc (group_mean_count
      [Some (py_str ''Cheese''), None, Some (py_str ''Bread'')] [Some 5, Some (15 / 2), Some 10])) =
      [(py_str ''Bread'', Some 10, 1), (py_str ''Cheese'', Some 5, 1)]"
    by code_simp
  have pc: "round_table (Suc 0) (row_percentages (crosstab
      [Some (py_str ''18-24''), Some (py_str ''18-24''), Some (py_str ''25-34'')]
      [Some (py_str ''Card''), Some (py_str ''Cash''), Some (py_str ''Card'')])) =
      \<lparr>tb_rows = [py_str ''18-24'', py_str ''25-34''], tb_cols = [py_str ''Card'', py_str ''Cash''],
       tb_cells = [[Some 50, Some 50], [Some 100, Some 0]]\<rparr>"
    by code_simp
  have rk: "ranked_counts [Some (py_str ''Bar''), Some (py_str ''Restaurant''), Some (py_str ''Bar'')] =
      [(py_str ''Restaurant'', 1), (py_str ''Bar'', 2)]"
    by code_simp
  have e: "run True example_raw = exec True styled_state (script f)" by (simp add: run_def c)
  show ?thesis unfolding e
    by (simp add: exec_script [OF example_plots [OF cf t]] avg_ticket_by_place_def t p a pm pr m mc pc rk
        del: py_str_def)
qed

text \<open>
  C14. Errors of the input file (failure class 1 of the specification, section 7) end the
  program before any output: a missing file raises \<open>FileNotFoundError\<close>, an empty file
  \<open>EmptyDataError\<close>, and a file whose records hold no \<open>;\<close>, such as a comma-separated
  file read with \<open>sep=';'\<close>, \<open>KeyError('Ticket')\<close> unless its header is exactly
  \<open>Ticket\<close>. Only the style of lines 14--15 has been set; no figure is open and nothing
  is written or printed.
\<close>

theorem main_input_errors:
  "main d None = (styled_state, Some (FileNotFoundError data_file)) \<and>
   main d (Some []) = (styled_state, Some no_columns) \<and>
   (rows \<noteq> [] \<longrightarrow> list_all (\<lambda>r. length r = 1 \<and> csv_record_ok r) rows \<longrightarrow>
      hd rows \<noteq> [ticket_name] \<longrightarrow>
      main d (Some (render_csv rows)) = (styled_state, Some (KeyError ticket_name)))"
proof (intro conjI impI)
  show "main d None = (styled_state, Some (FileNotFoundError data_file))"
    by (simp add: main_def exec_style_prologue read_csv_def)
  show "main d (Some []) = (styled_state, Some no_columns)"
    by (simp add: main_def exec_style_prologue read_csv_def tokenize_def strip_bom_def tok_init_def
        tok_finish_def read_table_def)
next
  assume ne: "rows \<noteq> []" and all: "list_all (\<lambda>r. length r = 1 \<and> csv_record_ok r) rows"
    and hd: "hd rows \<noteq> [ticket_name]"
  obtain x rs where rows: "rows = [x] # rs" and x: "x \<noteq> ticket_name"
    using ne all hd by (cases rows) (auto simp: length_Suc_conv)
  have "list_all csv_record_ok rows" using all by (simp add: list_all_iff)
  then have "tokenize (render_csv rows) = (rows, False)"
    using tokenize_rendered [of rows] by (cases "tokenize (render_csv rows)") simp
  then have tok: "tokenize (render_csv ([x] # rs)) = ([x] # rs, False)"
    by (simp only: rows)
  have k: "(case rs of [] \<Rightarrow> 0 | r # _ \<Rightarrow> length r - Suc 0) = 0"
    using all rows by (cases rs) auto
  have bad: "filter (\<lambda>r. Suc 0 < length r) (drop (Suc 0) rs) = []"
    using all rows by (auto simp: filter_empty_conv list_all_iff dest: in_set_dropD)
  have "read_csv (Some (render_csv rows)) = Inr \<lparr>ct_names = [x], ct_rows = map (table_row 0 1) rs\<rparr>"
    by (simp add: read_csv_def read_table_def tok rows k bad Let_def)
  moreover have "clean_table \<lparr>ct_names = [x], ct_rows = map (table_row 0 1) rs\<rparr> = Inl (KeyError ticket_name)"
    using x by (simp add: clean_table_def get_column_def)
  ultimately show "main d (Some (render_csv rows)) = (styled_state, Some (KeyError ticket_name))"
    by (simp add: main_def exec_style_prologue)
qed

theorem main_input_errors_witness:
  "[py_str ''Age,Ticket''] # [[py_str ''18-24,5'']] \<noteq> [] \<and>
   list_all (\<lambda>r. length r = 1 \<and> csv_record_ok r) [[py_str ''Age,Ticket''], [py_str ''18-24,5'']] \<and>
   hd [[py_str ''Age,Ticket''], [py_str ''18-24,5'']] \<noteq> [ticket_name] \<and>
   main True (Some (render_csv [[py_str ''Age,Ticket''], [py_str ''18-24,5'']])) =
     (styled_state, Some (KeyError ticket_name))"
  using main_input_errors [of True "[[py_str ''Age,Ticket''], [py_str ''18-24,5'']]"]
  by (simp add: csv_record_ok_def write_record_def write_field_def csv_plain_field_def quote_char_def
      ticket_name_def py_str_def)

text \<open>
  Reading the file refines the model of the rest of the script: when \<open>read_csv\<close>
  returns a table that has every column the script looks up, the whole program behaves
  exactly as \<open>run\<close> on the raw frame of that table (same outputs, same error).
\<close>

lemma main_refines_run:
  assumes "read_csv input = Inr tb" and "has_columns tb"
  shows "main d input = run d (table_raw tb)"
  using assms by (simp add: main_def run_def exec_style_prologue Loader.clean_table_refines)

text \<open>
  C37. The program reads its columns by name: for a file written as a header of distinct
  names and records as long as the header, in which the column \<open>Ticket\<close> is at position
  \<open>i\<close> and each column the script uses at position \<open>j c\<close>, the whole program behaves as
  \<open>run\<close> on the frame whose ticket column is field \<open>i\<close> of every record and whose column
  \<open>c\<close> is field \<open>j c\<close>, each field read as NaN when it is a missing-value spelling.
\<close>

theorem main_file_columns:
  assumes "list_all csv_record_ok (hdr # rows)"
    and "list_all (\<lambda>r. length r = length hdr) rows"
    and "distinct hdr"
    and "i < length hdr" and "hdr ! i = ticket_name"
    and "\<forall>c. j c < length hdr \<and> hdr ! j c = col_name c"
  shows "main d (Some (render_csv (hdr # rows))) =
    run d \<lparr>raw_ticket = map (\<lambda>r. na_cell (r ! i)) rows,
           raw_text = (\<lambda>c. map (\<lambda>r. na_cell (r ! j c)) rows)\<rparr>"
proof -
  let ?tb = "\<lparr>ct_names = hdr, ct_rows = map (map na_cell) rows\<rparr>"
  have r: "read_csv (Some (render_csv (hdr # rows))) = Inr ?tb"
    using Loader.read_csv_rendered [OF assms(1,2)] .
  have h: "has_columns ?tb"
    using assms(4-6) by (auto simp: has_columns_def list_all_iff in_set_conv_nth)
  have len: "\<forall>r\<in>set rows. length r = length hdr" using assms(2) by (simp add: list_all_iff)
  have gt: "get_column ?tb ticket_name = Inr (map (\<lambda>r. na_cell (r ! i)) rows)"
    using Loader.get_column_nth [of ?tb i] assms(3-5) len by simp
  have gc: "get_column ?tb (col_name c) = Inr (map (\<lambda>r. na_cell (r ! j c)) rows)" for c
    using Loader.get_column_nth [of ?tb "j c"] assms(3,6) len by simp
  have "table_raw ?tb = \<lparr>raw_ticket = map (\<lambda>r. na_cell (r ! i)) rows,
           raw_text = (\<lambda>c. map (\<lambda>r. na_cell (r ! j c)) rows)\<rparr>"
    by (simp add: table_raw_def gt gc)
  with main_refines_run [OF r h] show ?thesis by simp
qed

theorem main_file_columns_witness:
  "main True (Some (render_csv [ticket_name # map col_name string_columns,
      replicate (Suc (length string_columns)) [65]])) =
   run True \<lparr>raw_ticket = [Some [65]], raw_text = (\<lambda>c. [Some [65]])\<rparr>"
proof -
  let ?h = "ticket_name # map col_name string_columns"
  let ?j = "\<lambda>c. Suc (the (find_index (col_name c) (map col_name string_columns)))"
  have ok: "list_all csv_record_ok [?h, replicate (Suc (length string_columns)) [65]]"
    by (simp add: csv_record_ok_def write_record_def write_field_def csv_plain_field_def quote_char_def
        ticket_name_def string_columns_def py_str_def)
  have len: "list_all (\<lambda>r. length r = length ?h) [replicate (Suc (length string_columns)) [65]]"
    by simp
  have d: "distinct ?h" by (simp add: ticket_name_def string_columns_def py_str_def)
  have i: "0 < length ?h" and i': "?h ! 0 = ticket_name" by simp_all
  have jc: "\<forall>c. ?j c < length ?h \<and> ?h ! ?j c = col_name c"
  proof
    fix c show "?j c < length ?h \<and> ?h ! ?j c = col_name c"
      by (cases c) (simp_all add: string_columns_def py_str_def)
  qed
  have n: "na_cell [65] = Some [65]" by (simp add: na_cell_def na_values_def py_str_def)
  show ?thesis
    using main_file_columns [OF ok len d i i' jc, of True] jc n by simp
qed

end
